(* ===== verification/Iona_Prelude.thy ===== *)
theory Iona_Prelude
  imports
    Main
    "HOL-Library.Word"
    "HOL-Library.Multiset"
    "HOL-Library.List_Lexorder"
    "HOL-Library.Option_ord"
    "HOL-Library.Product_Lexorder"
begin

text \<open>
  Shared vocabulary of the development.

  \<^item> Machine integers. The kernel is built with the release profile, in which Rust's plain
    operators on \<open>u64\<close>, \<open>u32\<close> and \<open>usize\<close> (64 bits on this target) wrap around.
    Values are natural numbers and the width is written out in the operators below:
    \<open>u64_add\<close>, \<open>u64_sub\<close> and \<open>u64_mul\<close> are the plain operators,
    \<open>u64_sat_add\<close> and \<open>u64_sat_sub\<close> are \<open>saturating_add\<close> and
    \<open>saturating_sub\<close>. Bytes are words of eight bits.
  \<^item> Results. \<open>Result<T, E>\<close> is the sum \<open>'e + 't\<close> with \<open>Err\<close> on the left
    and \<open>Ok\<close> on the right. A method on \<open>&mut self\<close> returns its result paired with
    the state it leaves behind, on the error paths too.
  \<^item> Byte strings (\<open>Vec<u8>\<close>, \<open>PublicKeyBytes\<close>, \<open>Hash32\<close>) are lists of
    bytes, ordered lexicographically as the derived \<open>Ord\<close> orders them.
\<close>

section \<open>Machine integers\<close>

type_synonym u8 = "8 word"
type_synonym bytes = "u8 list"

definition U64_MAX :: nat where
  "U64_MAX = 2 ^ 64 - 1"

definition U32_MAX :: nat where
  "U32_MAX = 2 ^ 32 - 1"

definition u64_add :: "nat \<Rightarrow> nat \<Rightarrow> nat" where
  "u64_add a b = (a + b) mod 2 ^ 64"

definition u64_sub :: "nat \<Rightarrow> nat \<Rightarrow> nat" where
  "u64_sub a b = (a + (2 ^ 64 - b mod 2 ^ 64)) mod 2 ^ 64"

definition u64_mul :: "nat \<Rightarrow> nat \<Rightarrow> nat" where
  "u64_mul a b = (a * b) mod 2 ^ 64"

definition u64_sat_add :: "nat \<Rightarrow> nat \<Rightarrow> nat" where
  "u64_sat_add a b = min (a + b) U64_MAX"

definition u64_sat_sub :: "nat \<Rightarrow> nat \<Rightarrow> nat" where
  "u64_sat_sub a b = a - b"

definition u32_add :: "nat \<Rightarrow> nat \<Rightarrow> nat" where
  "u32_add a b = (a + b) mod 2 ^ 32"

definition u32_sat_add :: "nat \<Rightarrow> nat \<Rightarrow> nat" where
  "u32_sat_add a b = min (a + b) U32_MAX"

text \<open>\<open>int_arith\<close> unfolds the operators; the lemmas after it decide them where no
  overflow happens.\<close>

named_theorems int_arith \<open>definitions of the machine-integer operators\<close>

declare U64_MAX_def [int_arith] U32_MAX_def [int_arith] u64_add_def [int_arith]
  u64_sub_def [int_arith] u64_mul_def [int_arith] u64_sat_add_def [int_arith]
  u64_sat_sub_def [int_arith] u32_add_def [int_arith] u32_sat_add_def [int_arith]

lemma u64_add_exact: "a + b < 2 ^ 64 \<Longrightarrow> u64_add a b = a + b"
  by (simp add: u64_add_def)

lemma u64_add_lt [simp]: "u64_add a b < 2 ^ 64"
  by (simp add: u64_add_def)

lemma u64_sub_exact: "b \<le> a \<Longrightarrow> a < 2 ^ 64 \<Longrightarrow> u64_sub a b = a - b"
proof -
  assume ba: "b \<le> a" and a: "a < 2 ^ 64"
  then have "b mod 2 ^ 64 = b" by simp
  moreover have "a + (2 ^ 64 - b) = (a - b) + 2 ^ 64" using ba a by simp
  moreover have "(a - b + 2 ^ 64) mod 2 ^ 64 = a - b" using a by simp
  ultimately show ?thesis by (simp add: u64_sub_def del: power_numeral)
qed

lemma u64_mul_exact: "a * b < 2 ^ 64 \<Longrightarrow> u64_mul a b = a * b"
  by (simp add: u64_mul_def)

lemma u64_sat_add_exact: "a + b \<le> U64_MAX \<Longrightarrow> u64_sat_add a b = a + b"
  by (simp add: u64_sat_add_def)

lemma u64_sat_add_le_sum: "u64_sat_add a b \<le> a + b"
  by (simp add: u64_sat_add_def)

lemma u64_sat_add_le_max [simp]: "u64_sat_add a b \<le> U64_MAX"
  by (simp add: u64_sat_add_def)

lemma u64_sat_add_mono_left: "a \<le> U64_MAX \<Longrightarrow> a \<le> u64_sat_add a b"
  by (simp add: u64_sat_add_def)

lemma U64_MAX_less: "n \<le> U64_MAX \<longleftrightarrow> n < 2 ^ 64"
  by (auto simp: U64_MAX_def)

lemma U64_MAX_pos [simp]: "0 < U64_MAX" "0 \<le> U64_MAX"
  by (simp_all add: U64_MAX_def)

section \<open>Results\<close>

type_synonym ('e, 'a) result = "'e + 'a"

abbreviation Err :: "'e \<Rightarrow> ('e, 'a) result" where
  "Err \<equiv> Inl"

abbreviation Ok :: "'a \<Rightarrow> ('e, 'a) result" where
  "Ok \<equiv> Inr"

definition is_ok :: "('e, 'a) result \<Rightarrow> bool" where
  "is_ok r = (case r of Inl _ \<Rightarrow> False | Inr _ \<Rightarrow> True)"

lemma is_ok_simps [simp]: "is_ok (Ok a)" "\<not> is_ok (Err e)"
  by (simp_all add: is_ok_def)

lemma is_ok_iff: "is_ok r \<longleftrightarrow> (\<exists>a. r = Ok a)"
  by (cases r) simp_all

section \<open>Lists\<close>

text \<open>The position of the first match, as \<open>Iterator::position\<close> returns it, and the removal
  of one position, as \<open>Vec::remove\<close> does it.\<close>

fun position :: "('a \<Rightarrow> bool) \<Rightarrow> 'a list \<Rightarrow> nat option" where
  "position P [] = None"
| "position P (x # xs) = (if P x then Some 0 else map_option Suc (position P xs))"

definition remove_at :: "nat \<Rightarrow> 'a list \<Rightarrow> 'a list" where
  "remove_at i xs = take i xs @ drop (Suc i) xs"

lemma position_None_iff: "position P xs = None \<longleftrightarrow> (\<forall>x \<in> set xs. \<not> P x)"
  by (induction xs) auto

lemma position_Some:
  "position P xs = Some i \<Longrightarrow> i < length xs \<and> P (xs ! i) \<and> (\<forall>j < i. \<not> P (xs ! j))"
proof (induction xs arbitrary: i)
  case (Cons x xs)
  show ?case
  proof (cases "P x")
    case False
    with Cons.prems obtain k where k: "position P xs = Some k" "i = Suc k" by auto
    with Cons.IH[OF k(1)] False show ?thesis by (auto simp: less_Suc_eq_0_disj)
  qed (use Cons.prems in auto)
qed simp

lemma remove_at_split:
  "i < length xs \<Longrightarrow> xs = take i xs @ xs ! i # drop (Suc i) xs"
  by (simp add: id_take_nth_drop)

lemma length_remove_at: "i < length xs \<Longrightarrow> length (remove_at i xs) = length xs - 1"
  by (simp add: remove_at_def)

lemma mset_remove_at: "i < length xs \<Longrightarrow> mset xs = add_mset (xs ! i) (mset (remove_at i xs))"
  by (subst (1) remove_at_split, assumption) (simp add: remove_at_def)

lemma sum_list_remove_at:
  "i < length xs \<Longrightarrow> sum_list (map f xs) = f (xs ! i) + sum_list (map f (remove_at i xs))"
  for f :: "'a \<Rightarrow> nat"
  by (subst (1) remove_at_split, assumption) (simp add: remove_at_def)

lemma set_remove_at_subset: "set (remove_at i xs) \<subseteq> set xs"
  by (auto simp: remove_at_def dest: in_set_takeD in_set_dropD)

lemma sum_list_update_nat:
  "i < length xs \<Longrightarrow>
    sum_list (map f (xs[i := x])) + f (xs ! i) = sum_list (map f xs) + f x"
  for f :: "'a \<Rightarrow> nat"
proof -
  assume i: "i < length xs"
  have upd: "xs[i := x] = take i xs @ x # drop (Suc i) xs"
    using i by (rule upd_conv_take_nth_drop)
  show ?thesis
    by (subst (2) remove_at_split [OF i], subst upd) (simp add: algebra_simps)
qed

section \<open>Numbers as byte strings\<close>

text \<open>\<open>from_le_bytes\<close> and \<open>to_le_bytes\<close>, for any number of bytes, and their big-endian forms.\<close>

fun from_le :: "bytes \<Rightarrow> nat" where
  "from_le [] = 0"
| "from_le (b # bs) = unat b + 256 * from_le bs"

fun to_le :: "nat \<Rightarrow> nat \<Rightarrow> bytes" where
  "to_le 0 v = []"
| "to_le (Suc n) v = of_nat (v mod 256) # to_le n (v div 256)"

definition from_be :: "bytes \<Rightarrow> nat" where
  "from_be bs = from_le (rev bs)"

definition to_be :: "nat \<Rightarrow> nat \<Rightarrow> bytes" where
  "to_be n v = rev (to_le n v)"

lemma length_to_le [simp]: "length (to_le n v) = n"
  by (induction n arbitrary: v) simp_all

lemma from_to_le: "v < 256 ^ n \<Longrightarrow> from_le (to_le n v) = v"
proof (induction n arbitrary: v)
  case (Suc n)
  have "v < 256 ^ n * 256" using Suc.prems by (simp only: power_Suc mult.commute)
  then have "from_le (to_le n (v div 256)) = v div 256" by (intro Suc.IH less_mult_imp_div_less)
  moreover have "unat (of_nat (v mod 256) :: u8) = v mod 256" by (subst unat_of_nat) simp
  moreover have "v mod 256 + 256 * (v div 256) = v" by (rule mod_mult_div_eq)
  ultimately show ?case by (simp only: to_le.simps from_le.simps)
qed simp

lemma length_to_be [simp]: "length (to_be n v) = n"
  by (simp add: to_be_def)

lemma from_to_be: "v < 256 ^ n \<Longrightarrow> from_be (to_be n v) = v"
  by (simp add: from_be_def to_be_def from_to_le)

lemma from_le_bound: "from_le bs < 256 ^ length bs"
proof (induction bs)
  case (Cons b bs)
  have "unat b < 256" using unsigned_less [of b] by simp
  moreover have "256 * from_le bs + 256 \<le> 256 * 256 ^ length bs" using Cons.IH by simp
  ultimately show ?case by simp
qed simp

lemma from_le_append: "from_le (xs @ ys) = from_le xs + 256 ^ length xs * from_le ys"
  by (induction xs) (simp_all add: algebra_simps)

lemma from_le_replicate: "from_le (replicate n 255) = 256 ^ n - 1" "from_le (replicate n 0) = 0"
proof -
  have "from_le (replicate n 255) + 1 = 256 ^ n" by (induction n) simp_all
  then show "from_le (replicate n 255) = 256 ^ n - 1" by linarith
  show "from_le (replicate n 0) = 0" by (induction n) simp_all
qed

end
