(* ===== verification/Ordered_Map.thy ===== *)
theory Ordered_Map
  imports Iona_Prelude
begin

text \<open>
  \<open>BTreeMap\<close> and \<open>BTreeSet\<close> of the Rust standard library.

  A \<open>BTreeMap\<close> is the list of its entries in ascending key order, which is also what its
  iterators visit; \<open>insert\<close> replaces the value of a key that is present. The interface the
  components rely on is the locale \<open>ordered_map\<close>: the entries are strictly sorted, a lookup
  reads the entries, and \<open>insert\<close> and \<open>remove\<close> change the bag of entries by one key. Its
  lemmas are what the components use, through the interpretation \<open>bt\<close> on the sorted
  association lists. A \<open>BTreeSet\<close> is a strictly ascending list, with the library's
  \<open>insort_insert\<close> for \<open>insert\<close>.
\<close>

section \<open>The interface\<close>

lemma filter_the_key:
  "distinct (map fst es) \<Longrightarrow> (k, v) \<in> set es \<Longrightarrow> filter (\<lambda>p. fst p = k) es = [(k, v)]"
  by (induction es) (force simp: filter_empty_conv)+

lemma sum_list_mset_map: "sum_list (map f xs) = (\<Sum>x \<in># mset xs. (f x :: nat))"
  by (simp flip: sum_mset_sum_list)

locale ordered_map =
  fixes empty :: "'m"
    and get :: "'m \<Rightarrow> 'k::linorder \<Rightarrow> 'v option"
    and ins :: "'k \<Rightarrow> 'v \<Rightarrow> 'm \<Rightarrow> 'm"
    and del :: "'k \<Rightarrow> 'm \<Rightarrow> 'm"
    and entries :: "'m \<Rightarrow> ('k \<times> 'v) list"
    and wf :: "'m \<Rightarrow> bool"
  assumes entries_empty: "entries empty = []"
    and entries_sorted: "wf m \<Longrightarrow> sorted_wrt (<) (map fst (entries m))"
    and get_entries: "wf m \<Longrightarrow> get m k = map_of (entries m) k"
    and mset_ins: "wf m \<Longrightarrow> mset (entries (ins k v m)) =
      add_mset (k, v) (filter_mset (\<lambda>p. fst p \<noteq> k) (mset (entries m)))"
    and mset_del: "wf m \<Longrightarrow> mset (entries (del k m)) =
      filter_mset (\<lambda>p. fst p \<noteq> k) (mset (entries m))"
    and wf_empty: "wf empty"
    and wf_ins: "wf m \<Longrightarrow> wf (ins k v m)"
    and wf_del: "wf m \<Longrightarrow> wf (del k m)"
begin

lemma distinct_keys: "wf m \<Longrightarrow> distinct (map fst (entries m))"
  by (drule entries_sorted) (simp add: strict_sorted_iff)

lemma get_Some_iff: "wf m \<Longrightarrow> get m k = Some v \<longleftrightarrow> (k, v) \<in> set (entries m)"
  by (simp add: get_entries distinct_keys)

lemma set_ins:
  "wf m \<Longrightarrow> set (entries (ins k v m)) = insert (k, v) {p \<in> set (entries m). fst p \<noteq> k}"
  using mset_ins [of m k v, THEN arg_cong [where f = set_mset]] by simp

lemma set_del: "wf m \<Longrightarrow> set (entries (del k m)) = {p \<in> set (entries m). fst p \<noteq> k}"
  using mset_del [of m k, THEN arg_cong [where f = set_mset]] by simp

lemma get_ins: "wf m \<Longrightarrow> get (ins k v m) k' = (if k' = k then Some v else get m k')"
proof -
  assume wf: "wf m"
  have "get (ins k v m) k' = Some w \<longleftrightarrow> (if k' = k then Some v else get m k') = Some w" for w
    using get_Some_iff [OF wf_ins [OF wf], of k v k' w] get_Some_iff [OF wf, of k' w]
    by (auto simp: set_ins [OF wf])
  then show ?thesis by (metis not_None_eq)
qed

lemma get_del: "wf m \<Longrightarrow> get (del k m) k' = (if k' = k then None else get m k')"
proof -
  assume wf: "wf m"
  have "get (del k m) k' = Some w \<longleftrightarrow> (if k' = k then None else get m k') = Some w" for w
    using get_Some_iff [OF wf_del [OF wf], of k k' w] get_Some_iff [OF wf, of k' w]
    by (auto simp: set_del [OF wf])
  then show ?thesis by (metis not_None_eq)
qed

lemma mset_ins_fresh:
  "wf m \<Longrightarrow> get m k = None \<Longrightarrow> mset (entries (ins k v m)) = add_mset (k, v) (mset (entries m))"
  by (simp add: mset_ins get_entries map_of_eq_None_iff filter_mset_eq_conv) force

lemma filter_key_present:
  assumes "wf m" "get m k = Some v"
  shows "mset (entries m) = add_mset (k, v) (filter_mset (\<lambda>p. fst p \<noteq> k) (mset (entries m)))"
proof -
  have "filter (\<lambda>p. fst p = k) (entries m) = [(k, v)]"
    using assms by (intro filter_the_key) (auto simp: distinct_keys get_Some_iff)
  then have "filter_mset (\<lambda>p. fst p = k) (mset (entries m)) = {#(k, v)#}"
    by (simp flip: mset_filter)
  then show ?thesis
    by (subst (1) multiset_partition [of _ "\<lambda>p. fst p = k"]) simp
qed

text \<open>A sum over the entries changes by one entry, in both operations.\<close>

lemma sum_ins:
  assumes "wf m"
  shows "sum_list (map f (entries (ins k v m)))
      + (case get m k of None \<Rightarrow> 0 | Some w \<Rightarrow> f (k, w))
    = sum_list (map f (entries m)) + (f (k, v) :: nat)"
proof (cases "get m k")
  case None
  then show ?thesis
    using mset_ins_fresh [OF assms None, of v]
    by (simp add: sum_list_mset_map)
next
  case (Some w)
  show ?thesis
    by (simp add: Some sum_list_mset_map mset_ins [OF assms])
      (subst (2) filter_key_present [OF assms Some], simp)
qed

lemma sum_del:
  assumes "wf m"
  shows "sum_list (map f (entries (del k m)))
      + (case get m k of None \<Rightarrow> 0 | Some w \<Rightarrow> (f (k, w) :: nat))
    = sum_list (map f (entries m))"
proof (cases "get m k")
  case None
  then have "filter_mset (\<lambda>p. fst p \<noteq> k) (mset (entries m)) = mset (entries m)"
    using assms by (simp add: get_entries map_of_eq_None_iff filter_mset_eq_conv) force
  then show ?thesis by (simp add: None sum_list_mset_map mset_del [OF assms])
next
  case (Some w)
  show ?thesis
    by (simp add: Some sum_list_mset_map mset_del [OF assms])
      (subst (2) filter_key_present [OF assms Some], simp)
qed

lemma length_ins:
  "wf m \<Longrightarrow> length (entries (ins k v m)) =
    (if get m k = None then Suc (length (entries m)) else length (entries m))"
  using sum_ins [of m "\<lambda>_. 1" k v] by (auto simp: sum_list_triv split: option.splits)

end

section \<open>Sorted association lists\<close>

type_synonym ('k, 'v) btree_map = "('k \<times> 'v) list"
type_synonym 'k btree_set = "'k list"

abbreviation bt_get :: "('k, 'v) btree_map \<Rightarrow> 'k \<Rightarrow> 'v option" where
  "bt_get m k \<equiv> map_of m k"

fun bt_insert :: "'k::linorder \<Rightarrow> 'v \<Rightarrow> ('k, 'v) btree_map \<Rightarrow> ('k, 'v) btree_map" where
  "bt_insert k v [] = [(k, v)]"
| "bt_insert k v (p # m) =
     (if k < fst p then (k, v) # p # m
      else if k = fst p then (k, v) # m
      else p # bt_insert k v m)"

definition bt_remove :: "'k \<Rightarrow> ('k, 'v) btree_map \<Rightarrow> ('k, 'v) btree_map" where
  "bt_remove k m = filter (\<lambda>p. fst p \<noteq> k) m"

definition bt_sorted :: "('k::linorder, 'v) btree_map \<Rightarrow> bool" where
  "bt_sorted m \<longleftrightarrow> sorted_wrt (<) (map fst m)"

lemma bt_sorted_Nil [simp]: "bt_sorted []"
  by (simp add: bt_sorted_def)

lemma bt_sorted_Cons:
  "bt_sorted (p # m) \<longleftrightarrow> (\<forall>q \<in> set m. fst p < fst q) \<and> bt_sorted m"
  by (auto simp: bt_sorted_def)

lemma set_bt_insert_subset: "set (bt_insert k v m) \<subseteq> insert (k, v) (set m)"
  by (induction m) auto

lemma bt_sorted_insert: "bt_sorted m \<Longrightarrow> bt_sorted (bt_insert k v m)"
proof (induction m)
  case (Cons p m)
  then show ?case
    using set_bt_insert_subset [of k v m] by (fastforce simp: bt_sorted_Cons)
qed (simp add: bt_sorted_Cons)

lemma bt_sorted_remove: "bt_sorted m \<Longrightarrow> bt_sorted (bt_remove k m)"
  by (induction m) (auto simp: bt_sorted_Cons bt_remove_def)

lemma filter_key_below:
  "bt_sorted m \<Longrightarrow> \<forall>q \<in> set m. k < fst q \<Longrightarrow> filter (\<lambda>p. fst p \<noteq> k) m = m"
  by (auto simp: filter_id_conv)

lemma mset_bt_insert:
  "bt_sorted m \<Longrightarrow>
    mset (bt_insert k v m) = add_mset (k, v) (filter_mset (\<lambda>p. fst p \<noteq> k) (mset m))"
proof (induction m)
  case (Cons p m)
  have below: "filter (\<lambda>q. fst q \<noteq> k) m = m" if "k \<le> fst p"
    using Cons.prems that by (intro filter_key_below) (auto simp: bt_sorted_Cons)
  then show ?case
    using Cons by (auto simp: bt_sorted_Cons simp flip: mset_filter)
qed simp

interpretation bt: ordered_map
  "[] :: ('k::linorder, 'v) btree_map" map_of bt_insert bt_remove "\<lambda>m. m" bt_sorted
proof unfold_locales
  fix m :: "('k, 'v) btree_map" and k v
  show "bt_sorted m \<Longrightarrow> sorted_wrt (<) (map fst m)" by (simp add: bt_sorted_def)
  show "bt_sorted m \<Longrightarrow> mset (bt_insert k v m) =
      add_mset (k, v) (filter_mset (\<lambda>p. fst p \<noteq> k) (mset m))" by (rule mset_bt_insert)
  show "bt_sorted m \<Longrightarrow> bt_sorted (bt_remove k m)" by (rule bt_sorted_remove)
qed (simp_all add: bt_sorted_insert bt_remove_def)

end
