(* ===== verification/Validator_Set.thy ===== *)
theory Validator_Set
  imports Ordered_Map
begin

text \<open>
  The validator set (\<open>src/src/consensus/validator_set.rs\<close>): the list of validators, the
  lookup table from public key to voting power, the cached total power, the proposer strategy,
  the generation counter and the atomic metrics.

  Readings. Registering the Prometheus metrics is third-party code; its outcome is the argument
  \<open>prom\<close> of the constructor. Where the code stores \<open>hex::encode(pk)\<close> in an error the
  model stores the key. The \<open>assert!\<close> of \<open>proposer_for\<close> is the result \<open>None\<close>.
\<close>

section \<open>Data\<close>

datatype vset_error =
    EmptySet
  | DuplicateValidator bytes
  | VS_ValidatorNotFound bytes
  | ZeroPower nat
  | InvalidSet string
  | VS_Metrics string
  | VS_Config string
  | VS_IntegerOverflow

record validator =
  pk :: bytes
  vpower :: nat

datatype proposer_strategy = RoundRobin | Weighted | HeightOnly | Fixed nat

record validator_set_config =
  vsc_enable_metrics :: bool
  vsc_strategy :: proposer_strategy

record vset_metrics =
  additions :: nat
  removals :: nat
  power_updates :: nat

record validator_set =
  validators :: "validator list"
  lookup :: "(bytes, nat) btree_map"
  total_power :: nat
  strategy :: proposer_strategy
  generation :: nat
  vs_metrics :: vset_metrics

section \<open>Operations\<close>

definition validator_new :: "bytes \<Rightarrow> nat \<Rightarrow> (vset_error, validator) result" where
  "validator_new k p = (if p = 0 then Err (ZeroPower p) else Ok \<lparr>pk = k, vpower = p\<rparr>)"

definition default_vset_config :: validator_set_config where
  "default_vset_config = \<lparr>vsc_enable_metrics = False, vsc_strategy = RoundRobin\<rparr>"

definition zero_vset_metrics :: vset_metrics where
  "zero_vset_metrics = \<lparr>additions = 0, removals = 0, power_updates = 0\<rparr>"

definition inc_additions :: "vset_metrics \<Rightarrow> vset_metrics" where
  "inc_additions m = m\<lparr>additions := u64_add (additions m) 1\<rparr>"

definition inc_removals :: "vset_metrics \<Rightarrow> vset_metrics" where
  "inc_removals m = m\<lparr>removals := u64_add (removals m) 1\<rparr>"

definition inc_power_updates :: "vset_metrics \<Rightarrow> vset_metrics" where
  "inc_power_updates m = m\<lparr>power_updates := u64_add (power_updates m) 1\<rparr>"

text \<open>The loop of \<open>new_with_config\<close> that fills the lookup table and the total.\<close>

fun scan_validators :: "validator list \<Rightarrow> (bytes, nat) btree_map \<Rightarrow> nat \<Rightarrow>
    (vset_error, (bytes, nat) btree_map \<times> nat) result" where
  "scan_validators [] lk tot = Ok (lk, tot)"
| "scan_validators (v # vs) lk tot =
     (if vpower v = 0 then Err (ZeroPower (vpower v))
      else if bt_get lk (pk v) \<noteq> None then Err (DuplicateValidator (pk v))
      else scan_validators vs (bt_insert (pk v) (vpower v) lk) (u64_sat_add tot (vpower v)))"

definition new_with_config :: "string option \<Rightarrow> validator list \<Rightarrow> validator_set_config \<Rightarrow>
    (vset_error, validator_set) result" where
  "new_with_config prom vs cfg =
     (if vs = [] then Err EmptySet
      else case scan_validators vs [] 0 of
        Inl e \<Rightarrow> Err e
      | Inr (lk, tot) \<Rightarrow>
          (case (if vsc_enable_metrics cfg then prom else None) of
            Some e \<Rightarrow> Err (VS_Metrics e)
          | None \<Rightarrow>
              Ok \<lparr>validators = vs, lookup = lk, total_power = tot,
                  strategy = vsc_strategy cfg, generation = 0,
                  vs_metrics = zero_vset_metrics\<rparr>))"

definition vset_new :: "validator list \<Rightarrow> (vset_error, validator_set) result" where
  "vset_new vs = new_with_config None vs default_vset_config"

definition with_strategy :: "validator_set \<Rightarrow> proposer_strategy \<Rightarrow> validator_set" where
  "with_strategy s st = s\<lparr>strategy := st\<rparr>"

definition contains :: "validator_set \<Rightarrow> bytes \<Rightarrow> bool" where
  "contains s k = (bt_get (lookup s) k \<noteq> None)"

definition power_of :: "validator_set \<Rightarrow> bytes \<Rightarrow> nat option" where
  "power_of s k = bt_get (lookup s) k"

definition proposer_index :: "proposer_strategy \<Rightarrow> nat \<Rightarrow> nat \<Rightarrow> nat \<Rightarrow> nat" where
  "proposer_index st n h r =
     (case st of
        RoundRobin \<Rightarrow> u64_add h r mod n
      | HeightOnly \<Rightarrow> h mod n
      | Weighted \<Rightarrow> u64_add h r mod n
      | Fixed i \<Rightarrow> (if i \<ge> n then i mod n else i))"

definition proposer_for :: "validator_set \<Rightarrow> nat \<Rightarrow> nat \<Rightarrow> validator option" where
  "proposer_for s h r =
     (let n = length (validators s) in
      if n = 0 then None
      else Some (validators s ! proposer_index (strategy s) n h r))"

definition add_validator ::
    "validator \<Rightarrow> validator_set \<Rightarrow> (vset_error, unit) result \<times> validator_set" where
  "add_validator v s =
     (if vpower v = 0 then (Err (ZeroPower (vpower v)), s)
      else if bt_get (lookup s) (pk v) \<noteq> None then (Err (DuplicateValidator (pk v)), s)
      else (Ok (), s\<lparr>validators := validators s @ [v],
                    lookup := bt_insert (pk v) (vpower v) (lookup s),
                    total_power := u64_sat_add (total_power s) (vpower v),
                    generation := u64_sat_add (generation s) 1,
                    vs_metrics := inc_additions (vs_metrics s)\<rparr>))"

definition remove_validator ::
    "bytes \<Rightarrow> validator_set \<Rightarrow> (vset_error, validator) result \<times> validator_set" where
  "remove_validator k s =
     (if length (validators s) \<le> 1 then (Err EmptySet, s)
      else case position (\<lambda>v. pk v = k) (validators s) of
        None \<Rightarrow> (Err (VS_ValidatorNotFound k), s)
      | Some i \<Rightarrow>
          let removed = validators s ! i in
          (Ok removed, s\<lparr>validators := remove_at i (validators s),
                         lookup := bt_remove (pk removed) (lookup s),
                         total_power := u64_sat_sub (total_power s) (vpower removed),
                         generation := u64_sat_add (generation s) 1,
                         vs_metrics := inc_removals (vs_metrics s)\<rparr>))"

definition update_power ::
    "bytes \<Rightarrow> nat \<Rightarrow> validator_set \<Rightarrow> (vset_error, unit) result \<times> validator_set" where
  "update_power k p s =
     (if p = 0 then (Err (ZeroPower p), s)
      else case position (\<lambda>v. pk v = k) (validators s) of
        None \<Rightarrow> (Err (VS_ValidatorNotFound k), s)
      | Some i \<Rightarrow>
          let old_power = vpower (validators s ! i) in
          (Ok (), s\<lparr>validators := (validators s)[i := (validators s ! i)\<lparr>vpower := p\<rparr>],
                    lookup := bt_insert k p (lookup s),
                    total_power := u64_sat_add (u64_sat_sub (total_power s) old_power) p,
                    generation := u64_sat_add (generation s) 1,
                    vs_metrics := inc_power_updates (vs_metrics s)\<rparr>))"

text \<open>The loop of \<open>validate\<close>, with the set \<open>seen\<close> of keys as the map the code uses.\<close>

fun validate_scan :: "validator list \<Rightarrow> (bytes, unit) btree_map \<Rightarrow> (vset_error, unit) result" where
  "validate_scan [] seen = Ok ()"
| "validate_scan (v # vs) seen =
     (if vpower v = 0 then Err (ZeroPower (vpower v))
      else if bt_get seen (pk v) \<noteq> None then Err (DuplicateValidator (pk v))
      else validate_scan vs (bt_insert (pk v) () seen))"

definition vset_validate :: "validator_set \<Rightarrow> (vset_error, unit) result" where
  "vset_validate s = (if validators s = [] then Err EmptySet else validate_scan (validators s) [])"

definition default_vset :: validator_set where
  "default_vset = \<lparr>validators = [], lookup = [], total_power = 0, strategy = RoundRobin,
                   generation = 0, vs_metrics = zero_vset_metrics\<rparr>"

record vset_builder =
  b_validators :: "validator list"
  b_config :: validator_set_config

definition builder_new :: vset_builder where
  "builder_new = \<lparr>b_validators = [], b_config = default_vset_config\<rparr>"

definition builder_add_validator :: "vset_builder \<Rightarrow> bytes \<Rightarrow> nat \<Rightarrow> vset_builder" where
  "builder_add_validator b k p =
     (case validator_new k p of
        Inr v \<Rightarrow> b\<lparr>b_validators := b_validators b @ [v]\<rparr>
      | Inl _ \<Rightarrow> b)"

definition builder_with_strategy :: "vset_builder \<Rightarrow> proposer_strategy \<Rightarrow> vset_builder" where
  "builder_with_strategy b st = b\<lparr>b_config := (b_config b)\<lparr>vsc_strategy := st\<rparr>\<rparr>"

definition builder_build ::
    "string option \<Rightarrow> vset_builder \<Rightarrow> (vset_error, validator_set) result" where
  "builder_build prom b = new_with_config prom (b_validators b) (b_config b)"

text \<open>The mutating calls as values, so that histories of a set can be stated.\<close>

datatype vset_op = AddV validator | RemoveV bytes | UpdateP bytes nat

fun vset_step :: "vset_op \<Rightarrow> validator_set \<Rightarrow> validator_set" where
  "vset_step (AddV v) s = snd (add_validator v s)"
| "vset_step (RemoveV k) s = snd (remove_validator k s)"
| "vset_step (UpdateP k p) s = snd (update_power k p s)"

definition vset_run :: "vset_op list \<Rightarrow> validator_set \<Rightarrow> validator_set" where
  "vset_run ops s = fold vset_step ops s"

fun op_power :: "vset_op \<Rightarrow> nat" where
  "op_power (AddV v) = vpower v"
| "op_power (RemoveV k) = 0"
| "op_power (UpdateP k p) = p"

section \<open>Well-formedness\<close>

abbreviation entry :: "validator \<Rightarrow> bytes \<times> nat" where
  "entry v \<equiv> (pk v, vpower v)"

definition sum_power :: "validator list \<Rightarrow> nat" where
  "sum_power vs = sum_list (map vpower vs)"

definition vset_wf :: "validator_set \<Rightarrow> bool" where
  "vset_wf s \<longleftrightarrow>
     validators s \<noteq> [] \<and> distinct (map pk (validators s)) \<and>
     (\<forall>v \<in> set (validators s). 0 < vpower v) \<and>
     bt_sorted (lookup s) \<and> mset (lookup s) = mset (map entry (validators s)) \<and>
     total_power s = sum_power (validators s) \<and> total_power s \<le> U64_MAX"

lemma sum_power_simps [simp]:
  "sum_power [] = 0" "sum_power (v # vs) = vpower v + sum_power vs"
  "sum_power (vs @ ws) = sum_power vs + sum_power ws"
  by (simp_all add: sum_power_def)

lemma map_of_entry_iff:
  assumes "distinct (map pk vs)" "mset lk = mset (map entry vs)"
  shows "map_of lk k = Some p \<longleftrightarrow> (\<exists>v \<in> set vs. pk v = k \<and> vpower v = p)"
proof -
  have keys: "mset (map fst lk) = mset (map pk vs)"
    using assms(2) [THEN arg_cong [where f = "image_mset fst"]]
    by (simp add: image_mset.compositionality comp_def)
  then have "distinct (map fst lk)"
    using assms(1) by (metis mset_eq_imp_distinct_iff)
  moreover have "set lk = entry ` set vs"
    using mset_eq_setD [OF assms(2)] by simp
  ultimately show ?thesis by (auto simp: image_iff)
qed

lemma power_of_Some_iff:
  "vset_wf s \<Longrightarrow> power_of s k = Some p \<longleftrightarrow> (\<exists>v \<in> set (validators s). pk v = k \<and> vpower v = p)"
  unfolding power_of_def by (rule map_of_entry_iff) (auto simp: vset_wf_def)

lemma contains_iff: "vset_wf s \<Longrightarrow> contains s k \<longleftrightarrow> k \<in> pk ` set (validators s)"
  using power_of_Some_iff [of s k] by (auto simp: contains_def power_of_def)

subsection \<open>Construction\<close>

lemma scan_validators_Ok:
  assumes "scan_validators vs lk tot = Ok (lk', tot')" "bt_sorted lk"
  shows "(\<forall>v \<in> set vs. 0 < vpower v) \<and> distinct (map pk vs) \<and>
    (\<forall>v \<in> set vs. map_of lk (pk v) = None) \<and>
    bt_sorted lk' \<and> mset lk' = mset lk + mset (map entry vs) \<and>
    (tot + sum_power vs \<le> U64_MAX \<longrightarrow> tot' = tot + sum_power vs)"
  using assms
proof (induction vs lk tot arbitrary: lk' tot' rule: scan_validators.induct)
  case (2 v vs lk tot)
  then have fresh: "map_of lk (pk v) = None" and pos: "0 < vpower v"
    and rec: "scan_validators vs (bt_insert (pk v) (vpower v) lk) (u64_sat_add tot (vpower v))
      = Ok (lk', tot')"
    by (auto split: if_splits)
  note IH = "2.IH" [OF _ _ rec bt_sorted_insert [OF "2.prems"(2)]]
  have others: "map_of lk (pk w) = None \<and> pk w \<noteq> pk v" if "w \<in> set vs" for w
    using IH fresh pos that by (auto simp: bt.get_ins [OF "2.prems"(2)] split: if_splits)
  then have "pk v \<notin> pk ` set vs" by force
  then show ?case
    using others IH fresh pos bt.mset_ins_fresh [OF "2.prems"(2) fresh, of "vpower v"]
    by (auto simp: u64_sat_add_exact)
qed simp

lemma scan_validators_total:
  "bt_sorted lk \<Longrightarrow> \<forall>v \<in> set vs. 0 < vpower v \<and> map_of lk (pk v) = None \<Longrightarrow>
    distinct (map pk vs) \<Longrightarrow> is_ok (scan_validators vs lk tot)"
proof (induction vs lk tot rule: scan_validators.induct)
  case (2 v vs lk tot)
  then have "pk w \<noteq> pk v" if "w \<in> set vs" for w
    using "2.prems"(3) that by (metis distinct.simps(2) imageI list.simps(9) set_map)
  with 2 show ?case by (simp add: bt.get_ins bt_sorted_insert)
qed simp

lemma new_with_config_wf:
  assumes "new_with_config prom vs cfg = Ok s" "sum_power vs \<le> U64_MAX"
  shows "vset_wf s \<and> validators s = vs \<and> strategy s = vsc_strategy cfg \<and> generation s = 0"
proof -
  from assms(1) obtain lk tot where scan: "scan_validators vs [] 0 = Ok (lk, tot)"
    and s: "s = \<lparr>validators = vs, lookup = lk, total_power = tot,
      strategy = vsc_strategy cfg, generation = 0, vs_metrics = zero_vset_metrics\<rparr>"
    and ne: "vs \<noteq> []"
    by (auto simp: new_with_config_def split: if_splits sum.splits option.splits)
  from scan_validators_Ok [OF scan] assms(2) show ?thesis
    by (simp add: s ne vset_wf_def)
qed

lemma new_with_config_ok_iff:
  "is_ok (new_with_config prom vs cfg) \<longleftrightarrow>
     vs \<noteq> [] \<and> (\<forall>v \<in> set vs. 0 < vpower v) \<and> distinct (map pk vs) \<and>
     (vsc_enable_metrics cfg \<longrightarrow> prom = None)"
proof (cases "scan_validators vs [] 0")
  case (Inl e)
  with scan_validators_total [of "[]" vs 0] show ?thesis
    by (auto simp: new_with_config_def)
next
  case (Inr r)
  obtain lk tot where r: "r = (lk, tot)" by (cases r)
  from scan_validators_Ok [OF Inr [unfolded r]] show ?thesis
    by (auto simp: new_with_config_def Inr r split: option.splits)
qed

subsection \<open>Updates\<close>

lemma lookup_fresh: "vset_wf s \<Longrightarrow> map_of (lookup s) k = None \<Longrightarrow> k \<notin> pk ` set (validators s)"
  using contains_iff [of s k] by (simp add: contains_def)

lemma add_validator_wf:
  assumes "vset_wf s" "total_power s + vpower v \<le> U64_MAX"
  shows "vset_wf (snd (add_validator v s)) \<and>
    total_power (snd (add_validator v s)) \<le> total_power s + vpower v"
  using assms lookup_fresh [OF assms(1), of "pk v"]
  by (auto simp: add_validator_def vset_wf_def u64_sat_add_exact bt_sorted_insert
      bt.mset_ins_fresh)

lemma mset_map_entry_remove:
  assumes "distinct (map pk vs)" "mset lk = mset (map entry vs)" "i < length vs"
  shows "mset (bt_remove (pk (vs ! i)) lk) = mset (map entry (remove_at i vs))"
proof -
  have other: "pk w \<noteq> pk (vs ! i)" if "w \<in> set (remove_at i vs)" for w
  proof -
    have "distinct (map pk (take i vs @ vs ! i # drop (Suc i) vs))"
      using assms(1) remove_at_split [OF assms(3)] by simp
    then show ?thesis using that by (auto simp: remove_at_def) (metis imageI)+
  qed
  have "mset (bt_remove (pk (vs ! i)) lk) =
      filter_mset (\<lambda>p. fst p \<noteq> pk (vs ! i)) (image_mset entry (mset vs))"
    using assms(2) by (simp add: bt_remove_def)
  also have "\<dots> = image_mset entry (filter_mset (\<lambda>v. pk v \<noteq> pk (vs ! i)) (mset vs))"
    by (simp add: filter_mset_image_mset)
  also have "filter_mset (\<lambda>v. pk v \<noteq> pk (vs ! i)) (mset vs) = mset (remove_at i vs)"
    using other by (subst mset_remove_at [OF assms(3)]) (simp add: filter_mset_eq_conv)
  finally show ?thesis by simp
qed

lemma distinct_map_remove_at: "distinct (map f xs) \<Longrightarrow> distinct (map f (remove_at i xs))"
proof (cases "i < length xs")
  case True
  assume "distinct (map f xs)"
  then have "distinct (map f (take i xs @ xs ! i # drop (Suc i) xs))"
    by (simp flip: remove_at_split [OF True])
  then show ?thesis by (auto simp: remove_at_def)
qed (simp add: remove_at_def)

lemma remove_validator_wf:
  assumes "vset_wf s"
  shows "vset_wf (snd (remove_validator k s)) \<and>
    total_power (snd (remove_validator k s)) \<le> total_power s"
proof (cases "length (validators s) \<le> 1 \<or> position (\<lambda>v. pk v = k) (validators s) = None")
  case True
  with assms show ?thesis by (auto simp: remove_validator_def)
next
  case False
  then obtain i where i: "position (\<lambda>v. pk v = k) (validators s) = Some i"
    and len: "1 < length (validators s)" by auto
  from position_Some [OF i] have il: "i < length (validators s)" by simp
  have sum: "sum_power (validators s) =
      vpower (validators s ! i) + sum_power (remove_at i (validators s))"
    unfolding sum_power_def by (rule sum_list_remove_at [OF il])
  have "remove_at i (validators s) \<noteq> []"
    using len length_remove_at [OF il] by auto
  moreover have "set (remove_at i (validators s)) \<subseteq> set (validators s)"
    by (rule set_remove_at_subset)
  ultimately show ?thesis
    using assms False i len sum
    by (auto simp: remove_validator_def vset_wf_def Let_def u64_sat_sub_def bt_sorted_remove
        mset_map_entry_remove [OF _ _ il] distinct_map_remove_at simp flip: mset_map)
qed

lemma mset_map_entry_update:
  assumes "distinct (map pk vs)" "bt_sorted lk" "mset lk = mset (map entry vs)"
    "i < length vs" "pk (vs ! i) = k"
  shows "mset (bt_insert k p lk) = mset (map entry (vs[i := (vs ! i)\<lparr>vpower := p\<rparr>]))"
proof -
  have "mset (bt_insert k p lk) = add_mset (k, p) (mset (bt_remove k lk))"
    by (simp add: mset_bt_insert [OF assms(2)] bt_remove_def)
  also have "mset (bt_remove k lk) = mset (map entry (remove_at i vs))"
    using mset_map_entry_remove [OF assms(1,3,4)] assms(5) by simp
  finally show ?thesis
    using assms(4,5) by (simp add: upd_conv_take_nth_drop remove_at_def)
qed

lemma update_power_wf:
  assumes "vset_wf s" "total_power s + p \<le> U64_MAX"
  shows "vset_wf (snd (update_power k p s)) \<and>
    total_power (snd (update_power k p s)) \<le> total_power s + p"
proof (cases "p = 0 \<or> position (\<lambda>v. pk v = k) (validators s) = None")
  case True
  with assms show ?thesis by (auto simp: update_power_def)
next
  case False
  then obtain i where i: "position (\<lambda>v. pk v = k) (validators s) = Some i" and p: "0 < p"
    by auto
  from position_Some [OF i] have il: "i < length (validators s)"
    and ik: "pk (validators s ! i) = k" by simp_all
  let ?vs = "(validators s)[i := (validators s ! i)\<lparr>vpower := p\<rparr>]"
  have sum: "sum_power ?vs + vpower (validators s ! i) = sum_power (validators s) + p"
    using sum_list_update_nat [OF il, of vpower "(validators s ! i)\<lparr>vpower := p\<rparr>"]
    by (simp add: sum_power_def)
  have keys: "map pk ?vs = map pk (validators s)"
    using il by (simp add: map_update list_update_same_conv)
  have pos: "\<forall>v \<in> set ?vs. 0 < vpower v"
    using assms(1) p by (auto simp: vset_wf_def dest!: set_update_subset_insert [THEN subsetD])
  have "vpower (validators s ! i) \<le> sum_power (validators s)"
    using sum_list_remove_at [OF il, of vpower] by (simp add: sum_power_def)
  then have tot: "u64_sat_add (u64_sat_sub (sum_power (validators s)) (vpower (validators s ! i))) p
      = sum_power ?vs"
    using assms sum by (simp add: u64_sat_add_def u64_sat_sub_def vset_wf_def)
  show ?thesis
    using assms False i keys pos sum tot
      mset_map_entry_update [OF _ _ _ il ik, of "lookup s" p]
    by (auto simp: update_power_def vset_wf_def Let_def bt_sorted_insert simp flip: mset_map)
qed

lemma vset_step_wf:
  "vset_wf s \<Longrightarrow> total_power s + op_power op \<le> U64_MAX \<Longrightarrow>
    vset_wf (vset_step op s) \<and> total_power (vset_step op s) \<le> total_power s + op_power op"
  using add_validator_wf remove_validator_wf update_power_wf by (cases op) auto

lemma vset_run_wf:
  "vset_wf s \<Longrightarrow> total_power s + sum_list (map op_power ops) \<le> U64_MAX \<Longrightarrow>
    vset_wf (vset_run ops s)"
proof (induction ops arbitrary: s)
  case (Cons op ops)
  have "vset_wf (vset_step op s)" "total_power (vset_step op s) \<le> total_power s + op_power op"
    using vset_step_wf [of s op] Cons.prems by simp_all
  with Cons.IH [of "vset_step op s"] Cons.prems show ?case
    by (simp add: vset_run_def)
qed (simp add: vset_run_def)

section \<open>Proposer selection\<close>

lemma proposer_index_less: "0 < n \<Longrightarrow> proposer_index st n h r < n"
  by (cases st) (auto simp: proposer_index_def)

lemma proposer_for_member:
  "vset_wf s \<Longrightarrow> \<exists>v \<in> set (validators s). proposer_for s h r = Some v"
  using proposer_index_less [of "length (validators s)" "strategy s" h r]
  by (auto simp: proposer_for_def vset_wf_def Let_def)

lemma round_robin_index:
  "h + r < 2 ^ 64 \<Longrightarrow> st = RoundRobin \<or> st = Weighted \<Longrightarrow> proposer_index st n h r = (h + r) mod n"
  by (auto simp: proposer_index_def u64_add_exact)

section \<open>Properties\<close>

text \<open>
  Construction followed by any history of additions, removals and power updates keeps the
  validator set well formed: non-empty, distinct keys, positive powers, a lookup table that
  agrees with the list, and a cached total equal to the sum of the powers; as long as the powers
  involved fit in 64 bits together.
\<close>

theorem vset_history_invariant:
  assumes "new_with_config prom vs cfg = Ok s"
    and "sum_power vs + sum_list (map op_power ops) \<le> U64_MAX"
  shows "vset_wf (vset_run ops s)"
proof -
  from assms have "vset_wf s" "total_power s = sum_power vs"
    using new_with_config_wf [of prom vs cfg s] by (auto simp: vset_wf_def)
  with assms(2) show ?thesis by (intro vset_run_wf) simp_all
qed

theorem vset_history_invariant_witness:
  "vset_wf (vset_run [AddV \<lparr>pk = [3], vpower = 5\<rparr>, RemoveV [1], UpdateP [2] 7, RemoveV [9]]
    (projr (new_with_config None [\<lparr>pk = [1], vpower = 10\<rparr>, \<lparr>pk = [2], vpower = 20\<rparr>]
      default_vset_config)))"
proof (rule vset_history_invariant)
  show "new_with_config None [\<lparr>pk = [1], vpower = 10\<rparr>, \<lparr>pk = [2], vpower = 20\<rparr>]
      default_vset_config
    = Ok (projr (new_with_config None [\<lparr>pk = [1], vpower = 10\<rparr>, \<lparr>pk = [2], vpower = 20\<rparr>]
      default_vset_config))"
    by (simp add: new_with_config_def default_vset_config_def)
qed (simp add: U64_MAX_def)

text \<open>
  The constructor accepts exactly the non-empty lists with positive powers and distinct keys
  (given that metrics registration, when asked for, succeeds).
\<close>

theorem vset_constructor_accepts:
  "is_ok (new_with_config prom vs cfg) \<longleftrightarrow>
     vs \<noteq> [] \<and> (\<forall>v \<in> set vs. 0 < vpower v) \<and> distinct (map pk vs) \<and>
     (vsc_enable_metrics cfg \<longrightarrow> prom = None)"
  by (rule new_with_config_ok_iff)

theorem vset_constructor_accepts_witness:
  "is_ok (new_with_config None [\<lparr>pk = [1], vpower = 10\<rparr>, \<lparr>pk = [2], vpower = 20\<rparr>]
      default_vset_config)
   \<and> \<not> is_ok (new_with_config None [\<lparr>pk = [1], vpower = 10\<rparr>, \<lparr>pk = [1], vpower = 20\<rparr>]
      default_vset_config)"
  by (simp add: vset_constructor_accepts default_vset_config_def)

text \<open>
  Round-robin fairness: over as many consecutive rounds as there are validators, the
  proposers are the validators in list order, starting from index \<open>(h + r) mod n\<close>; so each
  validator proposes exactly once.
\<close>

theorem round_robin_fair:
  assumes "vset_wf s" and "strategy s = RoundRobin \<or> strategy s = Weighted"
    and "h + r + length (validators s) \<le> 2 ^ 64"
  shows "map (\<lambda>i. proposer_for s h (r + i)) [0..<length (validators s)] =
    map Some (rotate ((h + r) mod length (validators s)) (validators s))"
proof (rule nth_equalityI)
  fix i assume "i < length (map (\<lambda>i. proposer_for s h (r + i)) [0..<length (validators s)])"
  then have i: "i < length (validators s)" by simp
  have "proposer_index (strategy s) (length (validators s)) h (r + i) =
      (h + (r + i)) mod length (validators s)"
    using assms(2,3) i by (intro round_robin_index) auto
  also have "\<dots> = ((h + r) mod length (validators s) + i) mod length (validators s)"
    by (simp add: mod_add_left_eq add.assoc)
  finally show "map (\<lambda>i. proposer_for s h (r + i)) [0..<length (validators s)] ! i =
      map Some (rotate ((h + r) mod length (validators s)) (validators s)) ! i"
    using i by (auto simp: proposer_for_def Let_def nth_rotate)
qed simp

theorem round_robin_fair_witness:
  "map (\<lambda>i. proposer_for (projr (vset_new
        [\<lparr>pk = [1], vpower = 10\<rparr>, \<lparr>pk = [2], vpower = 20\<rparr>, \<lparr>pk = [3], vpower = 30\<rparr>])) 1 (0 + i))
      [0..<3] =
    [Some \<lparr>pk = [2], vpower = 20\<rparr>, Some \<lparr>pk = [3], vpower = 30\<rparr>, Some \<lparr>pk = [1], vpower = 10\<rparr>]"
proof -
  let ?vs = "[\<lparr>pk = [1], vpower = 10\<rparr>, \<lparr>pk = [2], vpower = 20\<rparr>, \<lparr>pk = [3], vpower = 30\<rparr>]"
  let ?s = "projr (vset_new ?vs)"
  have new: "new_with_config None ?vs default_vset_config = Ok ?s"
    by (simp add: vset_new_def new_with_config_def default_vset_config_def)
  have wf: "vset_wf ?s" and vs: "validators ?s = ?vs" and st: "strategy ?s = RoundRobin"
    using new_with_config_wf [OF new] by (simp_all add: U64_MAX_def default_vset_config_def)
  have len: "length ?vs = 3" by simp
  have fits: "1 + 0 + length (validators ?s) \<le> 2 ^ 64" unfolding vs len by simp
  have "map (\<lambda>i. proposer_for ?s 1 (0 + i)) [0..<3] = map Some (rotate (1 mod 3) ?vs)"
    using round_robin_fair [OF wf _ fits] st unfolding vs len by simp
  also have "rotate (1 mod 3) ?vs = rotate1 ?vs" by (simp add: rotate_def)
  finally show ?thesis by simp
qed

end
