(* ===== verification/Chain_Types.thy ===== *)
theory Chain_Types
  imports Iona_Prelude
begin

text \<open>
  The protocol types (\<open>src/src/types.rs\<close>) and the crypto error type
  (\<open>src/src/crypto.rs\<close>).

  Heights are \<open>u64\<close>, rounds \<open>u32\<close>, hashes arrays of 32 bytes. An \<open>f64\<close> field is kept
  as its 64 bits: the model stores and copies coherence values and never computes with them. The
  serialiser \<open>postcard\<close> and the hash \<open>blake3\<close> are parameters: \<open>hasher\<close> maps the bytes
  fed to a hasher to the digest, \<open>ser\<close> maps a header to its encoding.
\<close>

type_synonym height = nat
type_synonym round = nat
type_synonym hash32 = bytes
type_synonym f64 = "64 word"

definition HASH_SIZE :: nat where "HASH_SIZE = 32"
definition MIN_GAS_LIMIT :: nat where "MIN_GAS_LIMIT = 1000000"
definition MAX_GAS_LIMIT :: nat where "MAX_GAS_LIMIT = 0xFFFFFFFF"
definition MIN_BASE_FEE :: nat where "MIN_BASE_FEE = 1"

text \<open>The bit pattern of \<open>1.0\<close>.\<close>

definition DEFAULT_PROTOCOL_COHERENCE :: f64 where
  "DEFAULT_PROTOCOL_COHERENCE = 0x3FF0000000000000"

datatype crypto_error =
    CE_InvalidSignature
  | CE_Key string
  | CE_KeyLength nat nat
  | CE_SignatureLength nat nat
  | CE_Network string
  | CE_Config string
  | CE_Timeout
  | CE_Hsm string
  | CE_Internal string
  | CE_SignerUnavailable

text \<open>A verifier answers for a public key, a message and a signature.\<close>

type_synonym verifier = "bytes \<Rightarrow> bytes \<Rightarrow> bytes \<Rightarrow> (crypto_error, unit) result"

section \<open>Heights and hashes\<close>

definition height_saturating_sub :: "height \<Rightarrow> height \<Rightarrow> height" where
  "height_saturating_sub a b = u64_sat_sub a b"

definition height_checked_add :: "height \<Rightarrow> height \<Rightarrow> height option" where
  "height_checked_add a b = (if a + b \<le> U64_MAX then Some (a + b) else None)"

definition hash_zero :: hash32 where
  "hash_zero = replicate HASH_SIZE 0"

text \<open>The loop of \<open>is_zero\<close> from index \<open>i\<close> on.\<close>

function is_zero_from :: "hash32 \<Rightarrow> nat \<Rightarrow> bool" where
  "is_zero_from arr i =
     (if i < HASH_SIZE then (if arr ! i \<noteq> 0 then False else is_zero_from arr (i + 1)) else True)"
  by pat_completeness auto
termination by (relation "measure (\<lambda>(_, i). HASH_SIZE - i)") auto

declare is_zero_from.simps [simp del]

definition hash_is_zero :: "hash32 \<Rightarrow> bool" where
  "hash_is_zero h = is_zero_from h 0"

lemma is_zero_from_iff: "is_zero_from arr i \<longleftrightarrow> (\<forall>j. i \<le> j \<and> j < HASH_SIZE \<longrightarrow> arr ! j = 0)"
proof (induction arr i rule: is_zero_from.induct)
  case (1 arr i)
  show ?case
  proof (cases "i < HASH_SIZE \<and> arr ! i = 0")
    case True
    then have "is_zero_from arr i \<longleftrightarrow> (\<forall>j. i + 1 \<le> j \<and> j < HASH_SIZE \<longrightarrow> arr ! j = 0)"
      using 1 by (subst is_zero_from.simps) simp
    also have "\<dots> \<longleftrightarrow> (\<forall>j. i \<le> j \<and> j < HASH_SIZE \<longrightarrow> arr ! j = 0)"
      using True by (metis Suc_eq_plus1 le_eq_less_or_eq Suc_leI Suc_leD)
    finally show ?thesis .
  qed (subst is_zero_from.simps, auto)
qed

lemma hash_is_zero_iff: "length h = HASH_SIZE \<Longrightarrow> hash_is_zero h \<longleftrightarrow> h = hash_zero"
  by (auto simp: hash_is_zero_def is_zero_from_iff hash_zero_def list_eq_iff_nth_eq)

section \<open>Blocks\<close>

record log_entry =
  log_address :: bytes
  topics :: "hash32 list"
  log_data :: bytes

record receipt =
  rc_tx_hash :: hash32
  success :: bool
  rc_gas_used :: nat
  logs :: "log_entry list"
  rc_output :: bytes
  rc_coherence :: f64

record block_header =
  bh_height :: height
  bh_round :: round
  parent_id :: hash32
  state_root :: hash32
  bh_tx_root :: hash32
  proposer_pk :: bytes
  proposer_addr :: string
  base_fee :: nat
  gas_used :: nat
  gas_limit :: nat
  timestamp_ms :: nat
  bh_coherence :: f64

type_synonym raw_tx = bytes

record block =
  header :: block_header
  txs :: "raw_tx list"
  b_coherence :: f64

definition header_validate :: "block_header \<Rightarrow> (string, unit) result" where
  "header_validate h =
     (if bh_height h = 0 \<and> \<not> hash_is_zero (parent_id h)
        then Err ''genesis block must have zero parent hash''
      else if gas_limit h < MIN_GAS_LIMIT then Err ''gas limit below minimum''
      else if gas_limit h > MAX_GAS_LIMIT then Err ''gas limit exceeds maximum''
      else if gas_used h > gas_limit h then Err ''gas used exceeds gas limit''
      else if base_fee h < MIN_BASE_FEE then Err ''base fee below minimum''
      else if length (proposer_pk h) \<noteq> 32 then Err ''proposer public key must be 32 bytes''
      else if proposer_addr h = [] then Err ''proposer address cannot be empty''
      else Ok ())"

definition header_id :: "(bytes \<Rightarrow> hash32) \<Rightarrow> (block_header \<Rightarrow> bytes option) \<Rightarrow> block_header \<Rightarrow> hash32" where
  "header_id hasher ser h = hasher (case ser h of Some enc \<Rightarrow> enc | None \<Rightarrow> [])"

definition block_id :: "(bytes \<Rightarrow> hash32) \<Rightarrow> (block_header \<Rightarrow> bytes option) \<Rightarrow> block \<Rightarrow> hash32" where
  "block_id hasher ser b = header_id hasher ser (header b)"

definition tx_root :: "(bytes \<Rightarrow> hash32) \<Rightarrow> raw_tx list \<Rightarrow> hash32" where
  "tx_root hasher ts = (if ts = [] then hash_zero else hasher (concat (map hasher ts)))"

definition block_validate :: "(bytes \<Rightarrow> hash32) \<Rightarrow> block \<Rightarrow> (string, unit) result" where
  "block_validate hasher b =
     (case header_validate (header b) of
        Inl e \<Rightarrow> Err e
      | Inr _ \<Rightarrow>
          if tx_root hasher (txs b) \<noteq> bh_tx_root (header b) then Err ''transaction root mismatch''
          else Ok ())"

text \<open>A block that validates carries the transactions its header commits to: two valid blocks
  with the same header hold the same transactions, when the hash does not collide on them.\<close>

lemma concat_map_hasher_inj:
  assumes "\<And>b. length (hasher b) = HASH_SIZE" "inj_on hasher S"
    and "set xs \<subseteq> S" "set ys \<subseteq> S" "concat (map hasher xs) = concat (map hasher ys)"
  shows "xs = ys"
  using assms(3-5)
proof (induction xs arbitrary: ys)
  case Nil
  then show ?case using assms(1) [of "hd ys"] by (cases ys) (auto simp: HASH_SIZE_def)
next
  case (Cons x xs)
  obtain y ys' where ys: "ys = y # ys'"
    using Cons.prems assms(1) [of x] by (cases ys) (auto simp: HASH_SIZE_def)
  have "hasher x = hasher y" "concat (map hasher xs) = concat (map hasher ys')"
    using Cons.prems(3) assms(1) by (simp_all add: ys)
  moreover have "x \<in> S" "y \<in> S" using Cons.prems ys by auto
  ultimately show ?case
    using Cons.IH [of ys'] Cons.prems assms(2) by (auto simp: ys inj_on_def)
qed

lemma tx_root_inj:
  assumes "\<And>b. length (hasher b) = HASH_SIZE" "inj_on hasher S"
    and "set xs \<subseteq> S" "set ys \<subseteq> S" "concat (map hasher xs) \<in> S" "concat (map hasher ys) \<in> S"
    and "hash_zero \<notin> hasher ` S" "tx_root hasher xs = tx_root hasher ys"
  shows "xs = ys"
proof -
  have "hasher (concat (map hasher xs)) \<noteq> hash_zero" "hasher (concat (map hasher ys)) \<noteq> hash_zero"
    using assms(5-7) by (metis imageI)+
  then have "concat (map hasher xs) = concat (map hasher ys)"
    using assms(2,5,6,8) by (auto simp: tx_root_def inj_on_def split: if_splits)
  then show ?thesis by (rule concat_map_hasher_inj [OF assms(1-4)])
qed

end
