(* ===== verification/Quorum.thy ===== *)
theory Quorum
  imports Validator_Set Chain_Types
begin

text \<open>
  The quorum threshold and the vote tally (\<open>src/src/consensus/quorum.rs\<close>).

  \<open>best\<close> uses \<open>max_by_key\<close> over the buckets, which returns the last of several maxima,
  that is the one with the greatest key; \<open>quorum_candidate\<close> returns the first bucket that
  reaches the threshold. A voter's error string, the first eight hex digits of the key, is
  represented by the first four bytes it renders. Both \<open>best\<close> and \<open>clear\<close> count
  themselves in the atomic metrics, so they return the tally as well.
\<close>

section \<open>The quorum threshold\<close>

definition quorum_threshold :: "nat \<Rightarrow> nat" where
  "quorum_threshold tot = (if tot = 0 then 0 else u64_add (u64_mul tot 2 div 3) 1)"

definition meets_quorum :: "nat \<Rightarrow> nat \<Rightarrow> bool" where
  "meets_quorum p tot = (p \<ge> quorum_threshold tot)"

section \<open>The vote tally\<close>

datatype tally_error =
    DuplicateVote bytes
  | TE_ValidatorNotFound
  | NoVotes
  | TE_Config string
  | TE_Metrics string

record tally_config =
  allow_duplicate_votes :: bool
  log_duplicate_warnings :: bool
  track_metrics :: bool
  enable_prometheus :: bool

definition default_tally_config :: tally_config where
  "default_tally_config = \<lparr>allow_duplicate_votes = False, log_duplicate_warnings = True,
                           track_metrics = True, enable_prometheus = False\<rparr>"

record tally_metrics =
  votes_added :: nat
  duplicate_votes_rejected :: nat
  duplicate_votes_allowed :: nat
  best_calls :: nat
  clear_calls :: nat

definition zero_tally_metrics :: tally_metrics where
  "zero_tally_metrics = \<lparr>votes_added = 0, duplicate_votes_rejected = 0,
     duplicate_votes_allowed = 0, best_calls = 0, clear_calls = 0\<rparr>"

definition inc_votes_added :: "tally_metrics \<Rightarrow> tally_metrics" where
  "inc_votes_added m = m\<lparr>votes_added := u64_add (votes_added m) 1\<rparr>"

definition inc_duplicate_rejected :: "tally_metrics \<Rightarrow> tally_metrics" where
  "inc_duplicate_rejected m =
     m\<lparr>duplicate_votes_rejected := u64_add (duplicate_votes_rejected m) 1\<rparr>"

definition inc_duplicate_allowed :: "tally_metrics \<Rightarrow> tally_metrics" where
  "inc_duplicate_allowed m =
     m\<lparr>duplicate_votes_allowed := u64_add (duplicate_votes_allowed m) 1\<rparr>"

definition inc_best_calls :: "tally_metrics \<Rightarrow> tally_metrics" where
  "inc_best_calls m = m\<lparr>best_calls := u64_add (best_calls m) 1\<rparr>"

definition inc_clear_calls :: "tally_metrics \<Rightarrow> tally_metrics" where
  "inc_clear_calls m = m\<lparr>clear_calls := u64_add (clear_calls m) 1\<rparr>"

record vote_tally =
  buckets :: "(hash32 option, nat) btree_map"
  voters :: "(bytes, hash32 option \<times> nat) btree_map"
  t_config :: tally_config
  t_metrics :: tally_metrics

definition tally_new :: "string option \<Rightarrow> tally_config \<Rightarrow> (tally_error, vote_tally) result" where
  "tally_new prom cfg =
     (case (if enable_prometheus cfg then prom else None) of
        Some e \<Rightarrow> Err (TE_Metrics e)
      | None \<Rightarrow> Ok \<lparr>buckets = [], voters = [], t_config = cfg, t_metrics = zero_tally_metrics\<rparr>)"

definition tally_default :: vote_tally where
  "tally_default = \<lparr>buckets = [], voters = [], t_config = default_tally_config,
                    t_metrics = zero_tally_metrics\<rparr>"

definition tracked :: "(tally_metrics \<Rightarrow> tally_metrics) \<Rightarrow> vote_tally \<Rightarrow> vote_tally" where
  "tracked f t = (if track_metrics (t_config t) then t\<lparr>t_metrics := f (t_metrics t)\<rparr> else t)"

definition power_for :: "vote_tally \<Rightarrow> hash32 option \<Rightarrow> nat" where
  "power_for t bid = (case bt_get (buckets t) bid of None \<Rightarrow> 0 | Some p \<Rightarrow> p)"

text \<open>Taking a previous vote out of its bucket, and putting a vote into its bucket; the two
  statement groups that \<open>add_vote\<close> and \<open>merge\<close> share.\<close>

definition remove_from_bucket :: "hash32 option \<Rightarrow> nat \<Rightarrow> vote_tally \<Rightarrow> vote_tally" where
  "remove_from_bucket bid p t =
     (case bt_get (buckets t) bid of
        None \<Rightarrow> t
      | Some old \<Rightarrow>
          let new_power = u64_sat_sub old p in
          if new_power = 0 then t\<lparr>buckets := bt_remove bid (buckets t)\<rparr>
          else t\<lparr>buckets := bt_insert bid new_power (buckets t)\<rparr>)"

definition put_vote :: "bytes \<Rightarrow> hash32 option \<Rightarrow> nat \<Rightarrow> vote_tally \<Rightarrow> vote_tally" where
  "put_vote voter bid p t =
     t\<lparr>voters := bt_insert voter (bid, p) (voters t),
       buckets := bt_insert bid (u64_sat_add (power_for t bid) p) (buckets t)\<rparr>"

definition add_vote :: "validator_set \<Rightarrow> bytes \<Rightarrow> hash32 option \<Rightarrow> vote_tally \<Rightarrow>
    (tally_error, unit) result \<times> vote_tally" where
  "add_vote vset voter bid t =
     (case power_of vset voter of
        None \<Rightarrow> (Err TE_ValidatorNotFound, t)
      | Some p \<Rightarrow>
          (case bt_get (voters t) voter of
             Some (prev_bid, prev_power) \<Rightarrow>
               if allow_duplicate_votes (t_config t) then
                 (Ok (), tracked inc_duplicate_allowed
                   (put_vote voter bid p (remove_from_bucket prev_bid prev_power t)))
               else
                 (Err (DuplicateVote (take 4 voter)), tracked inc_duplicate_rejected t)
           | None \<Rightarrow> (Ok (), tracked inc_votes_added (put_vote voter bid p t))))"

fun last_max :: "('a \<times> nat) list \<Rightarrow> ('a \<times> nat) option" where
  "last_max [] = None"
| "last_max (x # xs) = Some (fold (\<lambda>y acc. if snd y < snd acc then acc else y) xs x)"

definition best :: "vote_tally \<Rightarrow> (tally_error, hash32 option \<times> nat) result \<times> vote_tally" where
  "best t =
     ((case last_max (buckets t) of None \<Rightarrow> Err NoVotes | Some bp \<Rightarrow> Ok bp),
      tracked inc_best_calls t)"

definition vote_count :: "vote_tally \<Rightarrow> nat" where
  "vote_count t = length (voters t)"

definition candidates :: "vote_tally \<Rightarrow> (hash32 option \<times> nat) list" where
  "candidates t = buckets t"

definition has_quorum :: "vote_tally \<Rightarrow> nat \<Rightarrow> bool" where
  "has_quorum t tot = list_ex (\<lambda>bp. snd bp \<ge> quorum_threshold tot) (buckets t)"

definition quorum_candidate :: "vote_tally \<Rightarrow> nat \<Rightarrow> (hash32 option \<times> nat) option" where
  "quorum_candidate t tot = find (\<lambda>bp. snd bp \<ge> quorum_threshold tot) (buckets t)"

definition tally_clear :: "vote_tally \<Rightarrow> vote_tally" where
  "tally_clear t = (tracked inc_clear_calls t)\<lparr>buckets := [], voters := []\<rparr>"

fun merge_votes :: "(bytes \<times> hash32 option \<times> nat) list \<Rightarrow> vote_tally \<Rightarrow> vote_tally" where
  "merge_votes [] t = t"
| "merge_votes ((voter, key, p) # vs) t =
     (let t1 = (case bt_get (voters t) voter of
                  None \<Rightarrow> t
                | Some (old_key, old_power) \<Rightarrow> remove_from_bucket old_key old_power t)
      in merge_votes vs (put_vote voter key p t1))"

definition tally_merge :: "vote_tally \<Rightarrow> vote_tally \<Rightarrow> (tally_error, unit) result \<times> vote_tally" where
  "tally_merge t other = (Ok (), tracked inc_votes_added (merge_votes (voters other) t))"

definition tally_is_empty :: "vote_tally \<Rightarrow> bool" where
  "tally_is_empty t = (voters t = [])"

text \<open>A sequence of \<open>add_vote\<close> calls whose results are ignored, as the engine makes them.\<close>

definition add_votes :: "validator_set \<Rightarrow> (bytes \<times> hash32 option) list \<Rightarrow> vote_tally \<Rightarrow> vote_tally" where
  "add_votes vset vs t = fold (\<lambda>(voter, bid) t. snd (add_vote vset voter bid t)) vs t"

section \<open>Threshold arithmetic\<close>

lemma quorum_threshold_exact:
  "0 < tot \<Longrightarrow> 2 * tot < 2 ^ 64 \<Longrightarrow> quorum_threshold tot = 2 * tot div 3 + 1"
  by (simp add: quorum_threshold_def u64_mul_def u64_add_def mult.commute)

lemma quorum_more_than_two_thirds:
  "0 < tot \<Longrightarrow> 2 * tot < 2 ^ 64 \<Longrightarrow> 2 * tot < 3 * quorum_threshold tot"
  by (simp add: quorum_threshold_exact)

section \<open>Weighted quorums\<close>

text \<open>
  What the protocol needs of the threshold: two sets of validators that both reach it overlap in
  more than a third of the power. The locale states it for any additive weight; the
  interpretation below gives the weight of a set of keys in a validator set.
\<close>

locale weighted_quorum =
  fixes weight :: "'s \<Rightarrow> 'k set \<Rightarrow> nat"
    and tot :: "'s \<Rightarrow> nat"
    and threshold :: "'s \<Rightarrow> nat"
    and wf :: "'s \<Rightarrow> bool"
  assumes weight_additive: "weight s (A \<union> B) + weight s (A \<inter> B) = weight s A + weight s B"
    and weight_total: "wf s \<Longrightarrow> weight s A \<le> tot s"
    and weight_mono: "A \<subseteq> B \<Longrightarrow> weight s A \<le> weight s B"
    and threshold_bound: "wf s \<Longrightarrow> 2 * tot s < 3 * threshold s"
begin

lemma quorums_overlap:
  assumes "wf s" "threshold s \<le> weight s A" "threshold s \<le> weight s B"
  shows "tot s < 3 * weight s (A \<inter> B)"
  using weight_additive [of s A B] weight_total [OF assms(1), of "A \<union> B"]
    threshold_bound [OF assms(1)] assms(2,3) by linarith

lemma quorums_share_honest:
  assumes "wf s" "threshold s \<le> weight s A" "threshold s \<le> weight s B"
    and "3 * weight s F \<le> tot s"
  shows "\<exists>k \<in> A \<inter> B. k \<notin> F"
proof (rule ccontr)
  assume "\<not> ?thesis"
  then have "A \<inter> B \<subseteq> F" by blast
  then have "weight s (A \<inter> B) \<le> weight s F" by (rule weight_mono)
  with quorums_overlap [OF assms(1-3)] assms(4) show False by linarith
qed

end

definition key_weight :: "validator_set \<Rightarrow> bytes set \<Rightarrow> nat" where
  "key_weight s A = sum_list (map (\<lambda>v. if pk v \<in> A then vpower v else 0) (validators s))"

definition quorum_wf :: "validator_set \<Rightarrow> bool" where
  "quorum_wf s \<longleftrightarrow> vset_wf s \<and> 2 * total_power s < 2 ^ 64"

lemma total_power_pos: "vset_wf s \<Longrightarrow> 0 < total_power s"
  by (cases "validators s") (auto simp: vset_wf_def)

lemma sum_power_restrict:
  "sum_list (map (\<lambda>v. if pk v \<in> A then vpower v else 0) vs) \<le> sum_power vs"
  by (induction vs) auto

lemma restrict_additive:
  "sum_list (map (\<lambda>v. if pk v \<in> A \<union> B then vpower v else 0) vs)
     + sum_list (map (\<lambda>v. if pk v \<in> A \<inter> B then vpower v else 0) vs)
   = sum_list (map (\<lambda>v. if pk v \<in> A then vpower v else 0) vs)
     + sum_list (map (\<lambda>v. if pk v \<in> B then vpower v else 0) vs)"
  by (induction vs) auto

lemma restrict_mono:
  "A \<subseteq> B \<Longrightarrow> sum_list (map (\<lambda>v. if pk v \<in> A then vpower v else 0) vs)
     \<le> sum_list (map (\<lambda>v. if pk v \<in> B then vpower v else 0) vs)"
  by (induction vs) auto

interpretation vq: weighted_quorum
  key_weight total_power "\<lambda>s. quorum_threshold (total_power s)" quorum_wf
proof unfold_locales
  fix s :: validator_set and A B
  show "key_weight s (A \<union> B) + key_weight s (A \<inter> B) = key_weight s A + key_weight s B"
    unfolding key_weight_def by (rule restrict_additive)
  show "quorum_wf s \<Longrightarrow> key_weight s A \<le> total_power s"
    using sum_power_restrict by (simp add: key_weight_def quorum_wf_def vset_wf_def)
  show "A \<subseteq> B \<Longrightarrow> key_weight s A \<le> key_weight s B"
    unfolding key_weight_def by (rule restrict_mono)
  show "quorum_wf s \<Longrightarrow> 2 * total_power s < 3 * quorum_threshold (total_power s)"
    using quorum_more_than_two_thirds total_power_pos by (simp add: quorum_wf_def)
qed

section \<open>What a tally holds\<close>

text \<open>The power the recorded voters of a candidate have, and the invariant: every recorded
  voter has its power in the validator set, and every bucket holds the power of its voters.\<close>

definition voted_power :: "(bytes, hash32 option \<times> nat) btree_map \<Rightarrow> hash32 option \<Rightarrow> nat" where
  "voted_power vs bid = sum_list (map (\<lambda>e. if fst (snd e) = bid then snd (snd e) else 0) vs)"

definition tally_wf :: "validator_set \<Rightarrow> vote_tally \<Rightarrow> bool" where
  "tally_wf vset t \<longleftrightarrow>
     bt_sorted (buckets t) \<and> bt_sorted (voters t) \<and>
     (\<forall>e \<in> set (voters t). power_of vset (fst e) = Some (snd (snd e))) \<and>
     (\<forall>bid. power_for t bid = voted_power (voters t) bid) \<and>
     (\<forall>bp \<in> set (buckets t). 0 < snd bp)"

lemma bt_insert_remove: "bt_sorted m \<Longrightarrow> bt_insert k v (bt_remove k m) = bt_insert k v m"
proof (induction m)
  case (Cons p m)
  show ?case
  proof (cases "k \<le> fst p")
    case True
    then have "bt_remove k m = m"
      using Cons.prems unfolding bt_remove_def
      by (intro filter_key_below) (auto simp: bt_sorted_Cons)
    moreover have "bt_insert k v m = (k, v) # m"
      using True Cons.prems by (cases m) (auto simp: bt_sorted_Cons)
    ultimately show ?thesis using True by (auto simp: bt_remove_def)
  qed (use Cons in \<open>auto simp: bt_remove_def bt_sorted_Cons\<close>)
qed (simp add: bt_remove_def)

lemma tracked_sel [simp]:
  "buckets (tracked f t) = buckets t" "voters (tracked f t) = voters t"
  "t_config (tracked f t) = t_config t" "power_for (tracked f t) bid = power_for t bid"
  "tally_wf vset (tracked f t) = tally_wf vset t"
  by (simp_all add: tracked_def power_for_def tally_wf_def)

lemma put_vote_sel [simp]:
  "voters (put_vote voter bid p t) = bt_insert voter (bid, p) (voters t)"
  "buckets (put_vote voter bid p t) = bt_insert bid (u64_sat_add (power_for t bid) p) (buckets t)"
  "t_config (put_vote voter bid p t) = t_config t"
  by (simp_all add: put_vote_def)

lemma remove_from_bucket_sel [simp]:
  "voters (remove_from_bucket bid p t) = voters t"
  "t_config (remove_from_bucket bid p t) = t_config t"
  by (simp_all add: remove_from_bucket_def Let_def split: option.splits)

lemma power_for_put_vote:
  "bt_sorted (buckets t) \<Longrightarrow> power_for (put_vote voter bid p t) b =
     (if b = bid then u64_sat_add (power_for t bid) p else power_for t b)"
  by (simp add: power_for_def put_vote_def bt.get_ins)

lemma power_for_remove:
  "bt_sorted (buckets t) \<Longrightarrow> power_for (remove_from_bucket bid p t) b =
     (if b = bid then power_for t bid - p else power_for t b)"
  by (auto simp: power_for_def remove_from_bucket_def Let_def u64_sat_sub_def bt.get_ins bt.get_del
      split: option.splits)

lemma sorted_buckets_remove:
  "bt_sorted (buckets t) \<Longrightarrow> bt_sorted (buckets (remove_from_bucket bid p t))"
  by (simp add: remove_from_bucket_def Let_def bt_sorted_insert bt_sorted_remove split: option.splits)

lemma positive_buckets_remove:
  "bt_sorted (buckets t) \<Longrightarrow> \<forall>bp \<in> set (buckets t). 0 < snd bp \<Longrightarrow>
    \<forall>bp \<in> set (buckets (remove_from_bucket bid p t)). 0 < snd bp"
  by (auto simp: remove_from_bucket_def Let_def bt.set_ins bt.set_del split: option.splits)

subsection \<open>The power that has voted fits in the validator set\<close>

lemma voters_within:
  assumes "vset_wf s" "bt_sorted vs" "\<forall>e \<in> set vs. power_of s (fst e) = Some (snd (snd e))"
  shows "sum_list (map (\<lambda>e. snd (snd e)) vs) \<le> total_power s"
proof -
  let ?f = "\<lambda>e. (fst e, snd (snd e))"
  have "distinct (map fst vs)" using assms(2) by (rule bt.distinct_keys)
  then have dist: "distinct (map ?f vs)"
    by (auto simp: distinct_map inj_on_def)
  have "set (map ?f vs) \<subseteq> set (map entry (validators s))"
    using assms(3) by (force simp: power_of_Some_iff [OF assms(1)])
  then have "mset_set (set (map ?f vs)) \<subseteq># mset_set (set (map entry (validators s)))"
    by (intro subset_imp_msubset_mset_set) simp_all
  moreover have "distinct (map entry (validators s))"
    using assms(1) by (auto simp: vset_wf_def distinct_map inj_on_def)
  ultimately have "mset (map ?f vs) \<subseteq># mset (map entry (validators s))"
    using dist by (simp only: mset_set_set)
  then obtain rest where "mset (map entry (validators s)) = mset (map ?f vs) + rest"
    by (auto simp: mset_subset_eq_exists_conv)
  then have "sum_mset (image_mset snd (mset (map ?f vs)))
      \<le> sum_mset (image_mset snd (mset (map entry (validators s))))"
    by simp
  then show ?thesis
    using assms(1)
    by (simp add: vset_wf_def sum_power_def image_mset.compositionality comp_def
        sum_list_mset_map)
qed

lemma voted_power_pair:
  "b \<noteq> c \<Longrightarrow> voted_power vs b + voted_power vs c \<le> sum_list (map (\<lambda>e. snd (snd e)) vs)"
  unfolding voted_power_def by (induction vs) auto

lemma voted_power_le: "voted_power vs b \<le> sum_list (map (\<lambda>e. snd (snd e)) vs)"
  unfolding voted_power_def by (induction vs) auto

lemma voted_power_ins:
  "bt_sorted vs \<Longrightarrow> map_of vs k = None \<Longrightarrow>
    voted_power (bt_insert k (b, p) vs) c = voted_power vs c + (if b = c then p else 0)"
  using bt.sum_ins [of vs "\<lambda>e. if fst (snd e) = c then snd (snd e) else 0" k "(b, p)"]
  by (simp add: voted_power_def)

lemma voted_power_del:
  "bt_sorted vs \<Longrightarrow> map_of vs k = Some (b, p) \<Longrightarrow>
    voted_power vs c = voted_power (bt_remove k vs) c + (if b = c then p else 0)"
  using bt.sum_del [of vs "\<lambda>e. if fst (snd e) = c then snd (snd e) else 0" k]
  by (cases "b = c") (simp_all add: voted_power_def)

subsection \<open>Every operation keeps the invariant\<close>

lemma tally_wf_power_for:
  "tally_wf vset t \<Longrightarrow> power_for t bid = voted_power (voters t) bid"
  by (simp add: tally_wf_def)

lemma tally_wf_put_fresh:
  assumes "vset_wf vset" "tally_wf vset t"
    "power_of vset voter = Some p" "map_of (voters t) voter = None"
  shows "tally_wf vset (put_vote voter bid p t)"
proof -
  from assms(2) have sb: "bt_sorted (buckets t)" and sv: "bt_sorted (voters t)"
    by (simp_all add: tally_wf_def)
  have vs: "\<forall>e \<in> set (bt_insert voter (bid, p) (voters t)). power_of vset (fst e) = Some (snd (snd e))"
    using assms(2,3) by (auto simp: bt.set_ins [OF sv] tally_wf_def)
  note ins = voted_power_ins [OF sv assms(4), of bid p]
  have "voted_power (voters t) bid + p \<le> U64_MAX"
    using voters_within [OF assms(1) bt_sorted_insert [OF sv] vs] ins [of bid] assms(1)
      voted_power_le [of "bt_insert voter (bid, p) (voters t)" bid]
    by (simp add: vset_wf_def)
  then have exact: "u64_sat_add (power_for t bid) p = voted_power (voters t) bid + p"
    by (simp add: tally_wf_power_for [OF assms(2)] u64_sat_add_exact)
  moreover have "0 < p"
    using assms(1,3) by (auto simp: power_of_Some_iff vset_wf_def)
  ultimately show ?thesis
    using assms(2) sb sv vs
    by (auto simp: tally_wf_def power_for_put_vote [OF sb] ins bt_sorted_insert bt.set_ins)
qed

lemma tally_wf_drop:
  assumes "tally_wf vset t" "map_of (voters t) voter = Some (b, p)"
  shows "tally_wf vset ((remove_from_bucket b p t)\<lparr>voters := bt_remove voter (voters t)\<rparr>)"
proof -
  from assms(1) have sb: "bt_sorted (buckets t)" and sv: "bt_sorted (voters t)"
    and pos: "\<forall>bp \<in> set (buckets t). 0 < snd bp" by (simp_all add: tally_wf_def)
  let ?t = "(remove_from_bucket b p t)\<lparr>voters := bt_remove voter (voters t)\<rparr>"
  have "power_for ?t c = power_for (remove_from_bucket b p t) c" for c
    by (simp add: power_for_def)
  then have "power_for ?t c = voted_power (bt_remove voter (voters t)) c" for c
    using voted_power_del [OF sv assms(2), of c] tally_wf_power_for [OF assms(1)]
    by (cases "b = c") (simp_all add: power_for_remove [OF sb])
  then show ?thesis
    using assms(1) sorted_buckets_remove [OF sb] positive_buckets_remove [OF sb pos]
    by (simp add: tally_wf_def bt_sorted_remove bt.set_del)
qed

lemma put_after_remove:
  assumes "bt_sorted (voters t)"
  shows "put_vote voter bid p ((remove_from_bucket b q t)\<lparr>voters := bt_remove voter (voters t)\<rparr>)
    = put_vote voter bid p (remove_from_bucket b q t)"
  using bt_insert_remove [OF assms] by (simp add: put_vote_def power_for_def)

lemma tally_wf_replace:
  assumes "vset_wf vset" "tally_wf vset t" "power_of vset voter = Some p"
    "map_of (voters t) voter = Some (b, q)"
  shows "tally_wf vset (put_vote voter bid p (remove_from_bucket b q t))"
proof -
  have sv: "bt_sorted (voters t)" using assms(2) by (simp add: tally_wf_def)
  show ?thesis
    using tally_wf_put_fresh [OF assms(1) tally_wf_drop [OF assms(2,4)] assms(3), of bid]
    by (simp add: put_after_remove [OF sv] bt.get_del [OF sv])
qed

lemma add_vote_wf:
  "vset_wf vset \<Longrightarrow> tally_wf vset t \<Longrightarrow> tally_wf vset (snd (add_vote vset voter bid t))"
  by (auto simp: add_vote_def tally_wf_put_fresh tally_wf_replace split: option.splits)

lemma merge_votes_wf:
  "vset_wf vset \<Longrightarrow> tally_wf vset t \<Longrightarrow>
    \<forall>e \<in> set es. power_of vset (fst e) = Some (snd (snd e)) \<Longrightarrow> tally_wf vset (merge_votes es t)"
  by (induction es t rule: merge_votes.induct)
    (auto simp: Let_def tally_wf_put_fresh tally_wf_replace split: option.splits)

lemma tally_merge_wf:
  "vset_wf vset \<Longrightarrow> tally_wf vset t \<Longrightarrow> tally_wf vset other \<Longrightarrow> tally_wf vset (snd (tally_merge t other))"
  using merge_votes_wf [of vset t "voters other"] by (simp add: tally_merge_def tally_wf_def)

lemma tally_wf_empty:
  "buckets t = [] \<Longrightarrow> voters t = [] \<Longrightarrow> tally_wf vset t"
  by (simp add: tally_wf_def power_for_def voted_power_def)

lemma tally_clear_wf: "tally_wf vset (tally_clear t)"
  by (simp add: tally_wf_empty tally_clear_def)

lemma add_votes_simps [simp]:
  "add_votes vset [] t = t"
  "add_votes vset ((voter, bid) # vs) t = add_votes vset vs (snd (add_vote vset voter bid t))"
  by (simp_all add: add_votes_def)

lemma add_votes_wf:
  "vset_wf vset \<Longrightarrow> tally_wf vset t \<Longrightarrow> tally_wf vset (add_votes vset vs t)"
  by (induction vs arbitrary: t) (auto simp: add_vote_wf)

lemma tally_new_empty:
  "tally_new prom cfg = Ok t \<Longrightarrow> buckets t = [] \<and> voters t = [] \<and> t_config t = cfg"
  by (auto simp: tally_new_def split: option.splits)

subsection \<open>Which vote of a validator counts\<close>

lemma add_vote_voters:
  assumes "bt_sorted (voters t)"
  shows "map_of (voters (snd (add_vote vset voter bid t))) k =
    (if k = voter \<and> power_of vset voter \<noteq> None \<and>
        (allow_duplicate_votes (t_config t) \<or> map_of (voters t) voter = None)
     then Some (bid, the (power_of vset voter)) else map_of (voters t) k)"
  using assms by (auto simp: add_vote_def bt.get_ins split: option.splits)

lemma add_vote_config [simp]: "t_config (snd (add_vote vset voter bid t)) = t_config t"
  by (auto simp: add_vote_def split: option.splits)

lemma add_votes_config [simp]: "t_config (add_votes vset vs t) = t_config t"
  by (induction vs arbitrary: t) auto

lemma add_votes_voters_first:
  assumes "vset_wf vset" "tally_wf vset t" "\<not> allow_duplicate_votes (t_config t)"
  shows "map_of (voters (add_votes vset vs t)) k =
    (case map_of (voters t) k of Some e \<Rightarrow> Some e
     | None \<Rightarrow> (case power_of vset k of None \<Rightarrow> None | Some p \<Rightarrow> map_option (\<lambda>b. (b, p)) (map_of vs k)))"
  using assms
proof (induction vs arbitrary: t)
  case (Cons v vs)
  obtain voter bid where v: "v = (voter, bid)" by (cases v)
  have "bt_sorted (voters t)" using Cons.prems(2) by (simp add: tally_wf_def)
  then show ?case
    using Cons.IH [of "snd (add_vote vset voter bid t)"] Cons.prems
    by (auto simp: v add_vote_wf add_vote_voters split: option.splits)
qed (simp split: option.splits)

lemma add_votes_voters_last:
  assumes "vset_wf vset" "tally_wf vset t" "allow_duplicate_votes (t_config t)"
  shows "map_of (voters (add_votes vset vs t)) k =
    (case (map_of (rev vs) k, power_of vset k) of
       (Some b, Some p) \<Rightarrow> Some (b, p) | _ \<Rightarrow> map_of (voters t) k)"
  using assms
proof (induction vs arbitrary: t)
  case (Cons v vs)
  obtain voter bid where v: "v = (voter, bid)" by (cases v)
  have "bt_sorted (voters t)" using Cons.prems(2) by (simp add: tally_wf_def)
  then show ?case
    using Cons.IH [of "snd (add_vote vset voter bid t)"] Cons.prems
    by (auto simp: v add_vote_wf add_vote_voters map_add_def split: option.splits)
qed simp

subsection \<open>Buckets as weights of key sets\<close>

lemma key_weight_sum:
  assumes "vset_wf s"
  shows "key_weight s A = (\<Sum>k \<in> pk ` set (validators s) \<inter> A. the (power_of s k))"
proof -
  have d: "distinct (map pk (validators s))" using assms by (simp add: vset_wf_def)
  then have inj: "inj_on pk (set (validators s))" by (simp add: distinct_map)
  have pw: "the (power_of s (pk v)) = vpower v" if "v \<in> set (validators s)" for v
    using that power_of_Some_iff [OF assms, of "pk v" "vpower v"] by auto
  have "key_weight s A = (\<Sum>v \<in> set (validators s). if pk v \<in> A then vpower v else 0)"
    using d by (simp add: key_weight_def sum_list_distinct_conv_sum_set distinct_map)
  also have "\<dots> = (\<Sum>v \<in> set (validators s). if pk v \<in> A then the (power_of s (pk v)) else 0)"
    by (intro sum.cong) (simp_all add: pw)
  also have "\<dots> = (\<Sum>k \<in> pk ` set (validators s). if k \<in> A then the (power_of s k) else 0)"
    by (simp add: sum.reindex [OF inj])
  finally show ?thesis by (simp add: sum.inter_restrict)
qed

lemma key_weight_cong:
  assumes "vset_wf s" "\<And>k p. power_of s k = Some p \<Longrightarrow> k \<in> A \<longleftrightarrow> k \<in> B"
  shows "key_weight s A = key_weight s B"
proof -
  have "\<exists>p. power_of s (pk v) = Some p" if "v \<in> set (validators s)" for v
    using that power_of_Some_iff [OF assms(1), of "pk v" "vpower v"] by auto
  then have "pk ` set (validators s) \<inter> A = pk ` set (validators s) \<inter> B"
    using assms(2) by blast
  then show ?thesis by (simp add: key_weight_sum [OF assms(1)])
qed

lemma voted_power_key_weight:
  assumes "vset_wf s" "tally_wf s t"
  shows "voted_power (voters t) bid = key_weight s {k. \<exists>p. map_of (voters t) k = Some (bid, p)}"
proof -
  let ?vs = "voters t" and ?K = "{k. \<exists>p. map_of (voters t) k = Some (bid, p)}"
  have sv: "bt_sorted ?vs" and pw: "\<And>e. e \<in> set ?vs \<Longrightarrow> power_of s (fst e) = Some (snd (snd e))"
    using assms(2) by (simp_all add: tally_wf_def)
  note get = bt.get_Some_iff [OF sv]
  have d: "distinct (map fst ?vs)" by (rule bt.distinct_keys [OF sv])
  then have inj: "inj_on fst (set ?vs)" by (simp add: distinct_map)
  have "voted_power ?vs bid = (\<Sum>e \<in> set ?vs. if fst (snd e) = bid then snd (snd e) else 0)"
    using d by (simp add: voted_power_def sum_list_distinct_conv_sum_set distinct_map)
  also have "\<dots> = (\<Sum>e \<in> {e \<in> set ?vs. fst (snd e) = bid}. the (power_of s (fst e)))"
    by (subst sum.inter_filter) (auto intro!: sum.cong dest: pw)
  also have "\<dots> = (\<Sum>k \<in> fst ` {e \<in> set ?vs. fst (snd e) = bid}. the (power_of s k))"
    by (subst sum.reindex) (auto intro: inj_on_subset [OF inj])
  also have "fst ` {e \<in> set ?vs. fst (snd e) = bid} = ?K"
    by (force simp: get)
  also have "?K = pk ` set (validators s) \<inter> ?K"
    using pw by (force simp: get power_of_Some_iff [OF assms(1)])
  finally show ?thesis by (simp add: key_weight_sum [OF assms(1)])
qed

subsection \<open>The best candidate\<close>

lemma fold_max_props:
  assumes "m = fold (\<lambda>y acc. if snd y < snd acc then acc else y) xs x"
  shows "m \<in> insert x (set xs) \<and> (\<forall>y \<in> insert x (set xs). snd y \<le> (snd m :: nat))"
  using assms
proof (induction xs arbitrary: x)
  case (Cons a xs)
  show ?case
  proof (cases "snd a < snd x")
    case True
    with Cons.IH [of x] Cons.prems show ?thesis by (simp, linarith)
  next
    case False
    with Cons.IH [of a] Cons.prems show ?thesis by (auto simp del: split_paired_All)
  qed
qed simp

lemma last_max_Some:
  "last_max xs = Some x \<Longrightarrow> x \<in> set xs \<and> (\<forall>y \<in> set xs. snd y \<le> snd x)"
  using fold_max_props [of x "tl xs" "hd xs"] by (cases xs) simp_all

lemma last_max_None: "last_max xs = None \<longleftrightarrow> xs = []"
  by (cases xs) simp_all

lemma bucket_power_for:
  "bt_sorted (buckets t) \<Longrightarrow> (b, p) \<in> set (buckets t) \<Longrightarrow> power_for t b = p"
  by (simp add: power_for_def bt.get_Some_iff flip: bt.get_Some_iff)

lemma two_quorums_equal:
  assumes "quorum_wf s" "tally_wf s t"
    "quorum_threshold (total_power s) \<le> power_for t b" "quorum_threshold (total_power s) \<le> power_for t c"
  shows "b = c"
proof (rule ccontr)
  assume ne: "b \<noteq> c"
  have wf: "vset_wf s" using assms(1) by (simp add: quorum_wf_def)
  have "power_for t b + power_for t c \<le> total_power s"
    using voted_power_pair [OF ne, of "voters t"] voters_within [OF wf, of "voters t"] assms(2)
    by (simp add: tally_wf_def)
  with vq.threshold_bound [OF assms(1)] assms(3,4) show False by linarith
qed

lemma tally_quorum_unique:
  assumes "quorum_wf s" "tally_wf s t"
  shows "(fst (best t) = Ok (b, p) \<and> meets_quorum p (total_power s)) \<longleftrightarrow>
    quorum_candidate t (total_power s) = Some (b, p)"
proof -
  let ?q = "quorum_threshold (total_power s)"
  have sb: "bt_sorted (buckets t)" using assms(2) by (simp add: tally_wf_def)
  note unique = two_quorums_equal [OF assms]
  have same: "x = y" if "x \<in> set (buckets t)" "y \<in> set (buckets t)" "?q \<le> snd x" "?q \<le> snd y" for x y
    using that unique bucket_power_for [OF sb] by (metis prod.collapse)
  show ?thesis
  proof
    assume l: "fst (best t) = Ok (b, p) \<and> meets_quorum p (total_power s)"
    then have bp: "(b, p) \<in> set (buckets t)" "?q \<le> p"
      using last_max_Some [of "buckets t" "(b, p)"]
      by (auto simp: best_def meets_quorum_def split: option.splits)
    then obtain x where "quorum_candidate t (total_power s) = Some x"
      by (cases "quorum_candidate t (total_power s)")
        (auto simp: quorum_candidate_def find_None_iff)
    moreover have "x \<in> set (buckets t)" "?q \<le> snd x"
      using calculation by (auto simp: quorum_candidate_def find_Some_iff)
    ultimately show "quorum_candidate t (total_power s) = Some (b, p)"
      using same [of x "(b, p)"] bp by simp
  next
    assume r: "quorum_candidate t (total_power s) = Some (b, p)"
    then have bp: "(b, p) \<in> set (buckets t)" "?q \<le> p"
      by (auto simp: quorum_candidate_def find_Some_iff) (metis snd_conv)
    then obtain x where x: "last_max (buckets t) = Some x"
      by (cases "last_max (buckets t)") (auto simp: last_max_None)
    with last_max_Some [OF x] bp have "x = (b, p)" using same [of x "(b, p)"] by force
    with x bp show "fst (best t) = Ok (b, p) \<and> meets_quorum p (total_power s)"
      by (simp add: best_def meets_quorum_def)
  qed
qed

lemma tally_power_for_weight:
  assumes "vset_wf vset" "tally_new prom cfg = Ok t"
  shows "power_for (add_votes vset vs t) bid =
    key_weight vset {k. map_of (if allow_duplicate_votes cfg then rev vs else vs) k = Some bid}"
proof -
  have t: "tally_wf vset t" "voters t = []" "t_config t = cfg"
    using tally_new_empty [OF assms(2)] by (simp_all add: tally_wf_empty)
  have wf: "tally_wf vset (add_votes vset vs t)" by (rule add_votes_wf [OF assms(1) t(1)])
  have "power_for (add_votes vset vs t) bid =
      key_weight vset {k. \<exists>p. map_of (voters (add_votes vset vs t)) k = Some (bid, p)}"
    by (simp add: tally_wf_power_for [OF wf] voted_power_key_weight [OF assms(1) wf])
  also have "\<dots> = key_weight vset
      {k. map_of (if allow_duplicate_votes cfg then rev vs else vs) k = Some bid}"
    using add_votes_voters_first [OF assms(1) t(1)] add_votes_voters_last [OF assms(1) t(1)] t(2,3)
    by (intro key_weight_cong [OF assms(1)]) (auto split: option.splits)
  finally show ?thesis .
qed

section \<open>Properties\<close>

text \<open>A set of four validators of power one, on which the witnesses evaluate.\<close>

definition four_validators :: validator_set where
  "four_validators = projr (vset_new (map (\<lambda>k. \<lparr>pk = [k], vpower = 1\<rparr>) [1, 2, 3, 4]))"

lemma four_validators_eq:
  "four_validators = \<lparr>validators = map (\<lambda>k. \<lparr>pk = [k], vpower = 1\<rparr>) [1, 2, 3, 4],
     lookup = [([1], 1), ([2], 1), ([3], 1), ([4], 1)], total_power = 4, strategy = RoundRobin,
     generation = 0, vs_metrics = zero_vset_metrics\<rparr>"
  by (simp add: four_validators_def vset_new_def new_with_config_def default_vset_config_def
      u64_sat_add_def U64_MAX_def)

lemma four_validators_wf: "vset_wf four_validators" "quorum_wf four_validators"
  by (simp_all add: four_validators_eq quorum_wf_def vset_wf_def bt_sorted_def sum_power_def
      U64_MAX_def)

text \<open>
  The threshold is the least number of votes above two thirds of the total, whenever twice
  the total fits in 64 bits.
\<close>

theorem quorum_threshold_least:
  assumes "0 < tot" "2 * tot < 2 ^ 64"
  shows "meets_quorum p tot \<longleftrightarrow> 2 * tot < 3 * p"
  using assms by (simp add: meets_quorum_def quorum_threshold_exact) linarith

theorem quorum_threshold_least_witness:
  "meets_quorum 67 100 \<and> \<not> meets_quorum 66 100"
  using quorum_threshold_least [of 100 67] quorum_threshold_least [of 100 66] by simp

text \<open>
  From a total of two to the sixty-third on, the multiplication by two wraps and the threshold
  collapses: a total of exactly two to the sixty-third gives a quorum of one.
\<close>

theorem quorum_threshold_overflow:
  "quorum_threshold (2 ^ 63) = 1 \<and> meets_quorum 1 (2 ^ 63) \<and> \<not> 2 * 2 ^ 63 < 3 * (1::nat)"
  by (simp add: meets_quorum_def quorum_threshold_def u64_mul_def u64_add_def)

text \<open>
  C23. Quorum intersection: in a well-formed validator set whose doubled total fits in 64 bits, two
  groups of validators that both reach the threshold share a validator outside any group that
  holds at most a third of the power.
\<close>

theorem quorums_intersect_honest:
  assumes "quorum_wf s"
    and "meets_quorum (key_weight s A) (total_power s)" "meets_quorum (key_weight s B) (total_power s)"
    and "3 * key_weight s F \<le> total_power s"
  shows "\<exists>k \<in> A \<inter> B. k \<notin> F"
  using vq.quorums_share_honest [OF assms(1) _ _ assms(4)] assms(2,3) by (simp add: meets_quorum_def)

theorem quorums_intersect_honest_witness:
  "\<exists>k \<in> {[1], [2], [3]} \<inter> {[2], [3], [4]}. k \<notin> {[2::u8]}"
  by (rule quorums_intersect_honest [of four_validators])
    (simp_all add: four_validators_wf, simp_all add: four_validators_eq key_weight_def
      meets_quorum_def quorum_threshold_exact)

text \<open>
  C24. A tally counts what was voted: after any sequence of votes, the power of a candidate is the
  weight, in the validator set, of the keys whose counted vote names it. The counted vote is the
  first one, or the last one when the configuration allows a vote to be replaced; votes of keys
  outside the validator set count for nothing.
\<close>

theorem tally_counts_votes:
  assumes "vset_wf vset" "tally_new prom cfg = Ok t"
  shows "power_for (add_votes vset vs t) bid =
    key_weight vset {k. map_of (if allow_duplicate_votes cfg then rev vs else vs) k = Some bid}"
  using assms by (rule tally_power_for_weight)

theorem tally_counts_votes_witness:
  "power_for (add_votes four_validators [([1], Some [7]), ([2], Some [7]), ([1], None), ([9], Some [7])]
     tally_default) (Some [7]) = 2"
  using tally_counts_votes [OF four_validators_wf(1), of None default_tally_config tally_default
      "[([1], Some [7]), ([2], Some [7]), ([1], None), ([9], Some [7])]" "Some [7]"]
  by (simp add: tally_new_def tally_default_def default_tally_config_def)
    (simp add: four_validators_eq key_weight_def)

text \<open>
  At most one candidate of a tally reaches the quorum, and the two ways the code looks for it
  agree: the greatest bucket meets the quorum exactly when it is the candidate
  \<open>quorum_candidate\<close> finds.
\<close>

theorem best_is_the_quorum_candidate:
  assumes "quorum_wf vset" "tally_new prom cfg = Ok t"
  shows "(fst (best (add_votes vset vs t)) = Ok (b, p) \<and> meets_quorum p (total_power vset)) \<longleftrightarrow>
    quorum_candidate (add_votes vset vs t) (total_power vset) = Some (b, p)"
proof -
  have "vset_wf vset" using assms(1) by (simp add: quorum_wf_def)
  moreover have "tally_wf vset t"
    using tally_new_empty [OF assms(2)] by (simp add: tally_wf_empty)
  ultimately show ?thesis by (intro tally_quorum_unique [OF assms(1)] add_votes_wf)
qed


theorem best_is_the_quorum_candidate_witness:
  "fst (best (add_votes four_validators [([1], Some [7]), ([2], Some [7]), ([3], Some [7]), ([4], None)]
     tally_default)) = Ok (Some [7], 3)"
  using best_is_the_quorum_candidate [OF four_validators_wf(2), of None default_tally_config
      tally_default "[([1], Some [7]), ([2], Some [7]), ([3], Some [7]), ([4], None)]" "Some [7]" 3]
  by (simp add: tally_new_def tally_default_def default_tally_config_def four_validators_eq
      add_vote_def power_of_def put_vote_def tracked_def power_for_def quorum_candidate_def
      quorum_threshold_exact u64_sat_add_def U64_MAX_def)

end
