(* ===== verification/Votes.thy ===== *)
theory Votes
  imports Chain_Types
begin

text \<open>
  Votes, proposals and the bytes that are signed (\<open>src/src/consensus/messages.rs\<close>).

  Global Prometheus counters, which \<open>validate\<close> bumps when they are enabled, are not modelled.
  \<open>Block::encoded_len\<close> has no definition in the sources, so the size of an encoded block is a
  parameter. \<open>Round\<close> is the \<open>u32\<close> of \<open>types.rs\<close>, so \<open>to_le_bytes\<close> gives four bytes
  for it.
\<close>

section \<open>Kinds and vote types\<close>

datatype message_kind = MK_Proposal | MK_Vote | MK_Evidence

datatype vote_type = Prevote | Precommit

datatype message_error =
    InvalidVoteType u8
  | InvalidProposalSignature
  | InvalidVoteSignature
  | ZeroBlockId
  | EmptyProposerKey
  | EmptyVoterKey
  | InvalidHeight nat
  | InvalidRound nat
  | MessageTooLarge nat nat
  | UnknownMessageKind u8
  | EmptyEvidence
  | ME_Metrics string
  | ME_Config string

fun message_kind_as_u8 :: "message_kind \<Rightarrow> u8" where
  "message_kind_as_u8 MK_Proposal = 1"
| "message_kind_as_u8 MK_Vote = 2"
| "message_kind_as_u8 MK_Evidence = 3"

definition message_kind_try_from :: "u8 \<Rightarrow> (message_error, message_kind) result" where
  "message_kind_try_from b =
     (if b = 1 then Ok MK_Proposal
      else if b = 2 then Ok MK_Vote
      else if b = 3 then Ok MK_Evidence
      else Err (UnknownMessageKind b))"

fun vote_type_as_u8 :: "vote_type \<Rightarrow> u8" where
  "vote_type_as_u8 Prevote = 0"
| "vote_type_as_u8 Precommit = 1"

definition vote_type_from_u8 :: "u8 \<Rightarrow> (message_error, vote_type) result" where
  "vote_type_from_u8 b =
     (if b = 0 then Ok Prevote else if b = 1 then Ok Precommit else Err (InvalidVoteType b))"

fun vote_type_name :: "vote_type \<Rightarrow> string" where
  "vote_type_name Prevote = ''prevote''"
| "vote_type_name Precommit = ''precommit''"

text \<open>The derived order of \<open>VoteType\<close>: declaration order.\<close>

instantiation vote_type :: linorder
begin

definition less_vote_type :: "vote_type \<Rightarrow> vote_type \<Rightarrow> bool" where
  "less_vote_type a b \<longleftrightarrow> a = Prevote \<and> b = Precommit"

definition less_eq_vote_type :: "vote_type \<Rightarrow> vote_type \<Rightarrow> bool" where
  "less_eq_vote_type a b \<longleftrightarrow> a = Prevote \<or> b = Precommit"

instance
proof
  fix x y z :: vote_type
  show "x < y \<longleftrightarrow> x \<le> y \<and> \<not> y \<le> x" "x \<le> x"
    by (cases x; cases y; simp add: less_vote_type_def less_eq_vote_type_def)+
  show "x \<le> y \<Longrightarrow> y \<le> z \<Longrightarrow> x \<le> z" "x \<le> y \<Longrightarrow> y \<le> x \<Longrightarrow> x = y" "x \<le> y \<or> y \<le> x"
    by (cases x; cases y; cases z; simp add: less_eq_vote_type_def)+
qed

end

record message_config =
  max_message_size :: nat
  msg_enable_metrics :: bool

definition MAX_MESSAGE_SIZE :: nat where "MAX_MESSAGE_SIZE = 1048576"

definition default_message_config :: message_config where
  "default_message_config = \<lparr>max_message_size = MAX_MESSAGE_SIZE, msg_enable_metrics = False\<rparr>"

definition message_config_validate :: "message_config \<Rightarrow> (message_error, unit) result" where
  "message_config_validate c =
     (if max_message_size c = 0 then Err (ME_Config ''max_message_size must be > 0'') else Ok ())"

section \<open>Signing bytes\<close>

fun to_le_bytes :: "nat \<Rightarrow> nat \<Rightarrow> bytes" where
  "to_le_bytes 0 x = []"
| "to_le_bytes (Suc n) x = of_nat x # to_le_bytes n (x div 256)"

definition proposal_sign_bytes :: "height \<Rightarrow> round \<Rightarrow> hash32 \<Rightarrow> round option \<Rightarrow> bytes" where
  "proposal_sign_bytes h r bid pol =
     to_le_bytes 8 h @ to_le_bytes 4 r @ bid @
     (case pol of Some pr \<Rightarrow> 1 # to_le_bytes 4 pr | None \<Rightarrow> [0])"

definition vote_sign_bytes :: "vote_type \<Rightarrow> height \<Rightarrow> round \<Rightarrow> hash32 option \<Rightarrow> bytes" where
  "vote_sign_bytes vt h r bid =
     vote_type_as_u8 vt # to_le_bytes 8 h @ to_le_bytes 4 r @
     (case bid of Some b \<Rightarrow> b | None \<Rightarrow> [])"

section \<open>Proposals and votes\<close>

record proposal =
  p_height :: height
  p_round :: round
  p_proposer :: bytes
  p_block_id :: hash32
  p_block :: "block option"
  p_pol_round :: "round option"
  p_signature :: bytes

definition proposal_approximate_size :: "(block \<Rightarrow> nat) \<Rightarrow> proposal \<Rightarrow> nat" where
  "proposal_approximate_size encoded_len p =
     32 + 8 + 8 + length (p_proposer p) + 32 +
     (case p_block p of Some b \<Rightarrow> encoded_len b | None \<Rightarrow> 0) +
     (case p_pol_round p of Some _ \<Rightarrow> 8 + 1 | None \<Rightarrow> 1) +
     length (p_signature p)"

definition proposal_validate_with_config ::
    "(block \<Rightarrow> nat) \<Rightarrow> message_config \<Rightarrow> proposal \<Rightarrow> (message_error, unit) result" where
  "proposal_validate_with_config encoded_len c p =
     (if p_height p = 0 then Err (InvalidHeight (p_height p))
      else if p_proposer p = [] then Err EmptyProposerKey
      else if hash_is_zero (p_block_id p) then Err ZeroBlockId
      else if p_signature p = [] then Err InvalidProposalSignature
      else let size = proposal_approximate_size encoded_len p in
        if size > max_message_size c then Err (MessageTooLarge size (max_message_size c))
        else Ok ())"

definition proposal_validate :: "(block \<Rightarrow> nat) \<Rightarrow> proposal \<Rightarrow> (message_error, unit) result" where
  "proposal_validate encoded_len p = proposal_validate_with_config encoded_len default_message_config p"

definition proposal_bytes :: "proposal \<Rightarrow> bytes" where
  "proposal_bytes p = proposal_sign_bytes (p_height p) (p_round p) (p_block_id p) (p_pol_round p)"

definition has_block :: "proposal \<Rightarrow> bool" where
  "has_block p = (p_block p \<noteq> None)"

record vote =
  v_type :: vote_type
  v_height :: height
  v_round :: round
  v_voter :: bytes
  v_block_id :: "hash32 option"
  v_signature :: bytes

definition vote_approximate_size :: "vote \<Rightarrow> nat" where
  "vote_approximate_size v =
     1 + 8 + 8 + length (v_voter v) + (case v_block_id v of Some _ \<Rightarrow> 32 | None \<Rightarrow> 0) +
     length (v_signature v)"

definition vote_validate_with_config :: "message_config \<Rightarrow> vote \<Rightarrow> (message_error, unit) result" where
  "vote_validate_with_config c v =
     (if v_height v = 0 then Err (InvalidHeight (v_height v))
      else if v_voter v = [] then Err EmptyVoterKey
      else if v_signature v = [] then Err InvalidVoteSignature
      else let size = vote_approximate_size v in
        if size > max_message_size c then Err (MessageTooLarge size (max_message_size c))
        else Ok ())"

definition vote_validate :: "vote \<Rightarrow> (message_error, unit) result" where
  "vote_validate v = vote_validate_with_config default_message_config v"

definition vote_bytes :: "vote \<Rightarrow> bytes" where
  "vote_bytes v = vote_sign_bytes (v_type v) (v_height v) (v_round v) (v_block_id v)"

definition vote_is_nil :: "vote \<Rightarrow> bool" where
  "vote_is_nil v = (v_block_id v = None)"

section \<open>Little-endian bytes\<close>

fun le_nat :: "bytes \<Rightarrow> nat" where
  "le_nat [] = 0"
| "le_nat (b # bs) = unat b + 256 * le_nat bs"

lemma length_to_le_bytes [simp]: "length (to_le_bytes n x) = n"
  by (induction n arbitrary: x) simp_all

lemma le_nat_to_le_bytes: "le_nat (to_le_bytes n x) = x mod 256 ^ n"
proof (induction n arbitrary: x)
  case (Suc n)
  have "unat (of_nat x :: u8) = x mod 256" by (simp add: unat_of_nat)
  then show ?case
    using Suc mod_mult2_eq [of x 256 "256 ^ n"] by simp
qed simp

lemma to_le_bytes_inj:
  "to_le_bytes n x = to_le_bytes n y \<Longrightarrow> x < 256 ^ n \<Longrightarrow> y < 256 ^ n \<Longrightarrow> x = y"
  by (metis le_nat_to_le_bytes mod_less)

lemma to_le_bytes_append:
  "to_le_bytes (m + n) x = to_le_bytes m x @ to_le_bytes n (x div 256 ^ m)"
  by (induction m arbitrary: x) (simp_all add: div_mult2_eq)

lemma to_le_bytes_cons: "a < 256 \<Longrightarrow> to_le_bytes (Suc n) (a + 256 * y) = of_nat a # to_le_bytes n y"
proof -
  have "(256 :: u8) = 0" by simp
  then have "(256 :: u8) * of_nat y = 0" by (metis mult_zero_left)
  moreover assume "a < 256"
  ultimately show ?thesis by simp
qed

lemma to_le_bytes_mod: "to_le_bytes n (x mod 256 ^ n) = to_le_bytes n x"
proof (induction n arbitrary: x)
  case (Suc n)
  have split: "x mod 256 ^ Suc n = x mod 256 + 256 * (x div 256 mod 256 ^ n)"
    using mod_mult2_eq [of x 256 "256 ^ n"] by simp
  have "to_le_bytes (Suc n) (x mod 256 ^ Suc n) =
      of_nat (x mod 256) # to_le_bytes n (x div 256 mod 256 ^ n)"
    by (subst split) (rule to_le_bytes_cons, simp)
  moreover have "to_le_bytes (Suc n) x = of_nat (x mod 256) # to_le_bytes n (x div 256)"
    using to_le_bytes_cons [of "x mod 256" n "x div 256"] by simp
  ultimately show ?case by (simp add: Suc)
qed simp

lemma vote_type_as_u8_inj: "vote_type_as_u8 a = vote_type_as_u8 b \<longleftrightarrow> a = b"
  by (cases a; cases b) simp_all

lemma vote_type_code: "vote_type_as_u8 vt = of_nat (if vt = Prevote then 0 else 1)"
  by (cases vt) simp_all

lemma vote_sign_bytes_determines:
  assumes "vote_sign_bytes vt h r bid = vote_sign_bytes vt' h' r' bid'"
    and "h < 2 ^ 64" "h' < 2 ^ 64" "r < 2 ^ 32" "r' < 2 ^ 32"
    and "\<And>b. bid = Some b \<Longrightarrow> length b = HASH_SIZE" "\<And>b. bid' = Some b \<Longrightarrow> length b = HASH_SIZE"
  shows "vt = vt' \<and> h = h' \<and> r = r' \<and> bid = bid'"
proof -
  have "to_le_bytes 8 h = to_le_bytes 8 h'" "to_le_bytes 4 r = to_le_bytes 4 r'"
    and vt: "vt = vt'"
    and bid: "(case bid of Some b \<Rightarrow> b | None \<Rightarrow> []) = (case bid' of Some b \<Rightarrow> b | None \<Rightarrow> [])"
    using assms(1) by (auto simp: vote_sign_bytes_def vote_type_as_u8_inj)
  then have "h = h'" "r = r'" using assms(2-5) by (auto dest!: to_le_bytes_inj)
  moreover have "bid = bid'"
    using bid assms(6,7) by (auto simp: HASH_SIZE_def split: option.splits)
  ultimately show ?thesis using vt by simp
qed

section \<open>Properties\<close>

text \<open>
  What a vote signature covers is unambiguous among votes: the signed bytes determine the vote
  type, the height, the round and the block (or nil), over the ranges of their types.
\<close>

theorem vote_sign_bytes_injective:
  "inj_on (\<lambda>(vt, h, r, bid). vote_sign_bytes vt h r bid)
     (UNIV \<times> {..<2 ^ 64} \<times> {..<2 ^ 32} \<times> {bid. pred_option (\<lambda>b. length b = HASH_SIZE) bid})"
  by (rule inj_onI) (auto simp: pred_option_def dest!: vote_sign_bytes_determines)

text \<open>
  Votes and proposals are signed without a tag that separates them: the bytes signed for a vote
  on a block whose hash ends in a zero byte are also the bytes of a proposal, for another height,
  round and block. A vote signature on such a block is therefore a valid proposal signature.
\<close>

theorem vote_signature_is_proposal_signature:
  assumes "h < 2 ^ 64" "r < 2 ^ 32" "length b = HASH_SIZE" "last b = 0"
  shows "\<exists>h' r' b'. h' < 2 ^ 64 \<and> r' < 2 ^ 32 \<and> length b' = HASH_SIZE \<and>
    vote_sign_bytes vt h r (Some b) = proposal_sign_bytes h' r' b' None"
proof -
  let ?t = "if vt = Prevote then 0 else 1 :: nat"
  define h' r' b' where "h' = ?t + 256 * (h mod 256 ^ 7)"
    and "r' = h div 256 ^ 7 + 256 * (r mod 256 ^ 3)" and "b' = of_nat (r div 256 ^ 3) # butlast b"
  have hi: "h div 256 ^ 7 < 256" using assms(1) by (simp add: less_mult_imp_div_less)
  have hb: "to_le_bytes 8 h' = vote_type_as_u8 vt # to_le_bytes 7 h"
    using to_le_bytes_cons [of ?t 7 "h mod 256 ^ 7"] unfolding h'_def vote_type_code
    by (simp only: to_le_bytes_mod) simp
  have rb: "to_le_bytes 4 r' = of_nat (h div 256 ^ 7) # to_le_bytes 3 r"
    using to_le_bytes_cons [OF hi, of 3 "r mod 256 ^ 3"] unfolding r'_def
    by (simp only: to_le_bytes_mod) simp
  have "b = butlast b @ [0]"
    using assms(3,4) by (metis HASH_SIZE_def append_butlast_last_id list.size(3) zero_neq_numeral)
  moreover have "to_le_bytes 8 h = to_le_bytes 7 h @ [of_nat (h div 256 ^ 7)]"
    using to_le_bytes_append [of 7 1 h] by simp
  moreover have "to_le_bytes 4 r = to_le_bytes 3 r @ [of_nat (r div 256 ^ 3)]"
    using to_le_bytes_append [of 3 1 r] by simp
  ultimately have "vote_sign_bytes vt h r (Some b) = proposal_sign_bytes h' r' b' None"
    unfolding vote_sign_bytes_def proposal_sign_bytes_def hb rb b'_def by simp
  moreover have "h' < 2 ^ 64" "r' < 2 ^ 32" "length b' = HASH_SIZE"
    using hi assms(3) mod_less_divisor [of "256 ^ 7" h] mod_less_divisor [of "256 ^ 3" r]
    by (auto simp: h'_def r'_def b'_def HASH_SIZE_def)
  ultimately show ?thesis by blast
qed

theorem vote_signature_is_proposal_signature_witness:
  "\<exists>h' r' b'. h' < 2 ^ 64 \<and> r' < 2 ^ 32 \<and> length b' = HASH_SIZE \<and>
    vote_sign_bytes Precommit 5 1 (Some (replicate 31 7 @ [0])) = proposal_sign_bytes h' r' b' None"
  by (rule vote_signature_is_proposal_signature) (simp_all add: HASH_SIZE_def)

end
