(* ===== verification/Evidence.thy ===== *)
theory Evidence
  imports Votes
begin

text \<open>
  Evidence of misbehaviour and its stateless validation (\<open>src/src/evidence.rs\<close>).

  The two struct variants keep the order of their fields in the source. Votes and proposals are
  compared field by field, as a derived \<open>PartialEq\<close> compares them. A signature error carries
  the \<open>CryptoError\<close> of the verifier, which is a parameter.
\<close>

section \<open>Types\<close>

record evidence_config =
  max_age :: height
  slash_fraction_double_vote :: nat
  slash_fraction_double_proposal :: nat
  tombstone_period :: height
  verify_signatures :: bool
  allow_nil_equivocation :: bool

definition default_evidence_config :: evidence_config where
  "default_evidence_config =
     \<lparr>max_age = 100000, slash_fraction_double_vote = 20, slash_fraction_double_proposal = 20,
      tombstone_period = 1000000, verify_signatures = True, allow_nil_equivocation = True\<rparr>"

definition evidence_config_validate :: "evidence_config \<Rightarrow> (string, unit) result" where
  "evidence_config_validate c =
     (if max_age c = 0 then Err ''max_age must be > 0''
      else if slash_fraction_double_vote c = 0 then Err ''slash_fraction_double_vote must be > 0''
      else if slash_fraction_double_proposal c = 0 then Err ''slash_fraction_double_proposal must be > 0''
      else if tombstone_period c = 0 then Err ''tombstone_period must be > 0''
      else Ok ())"

definition with_verify :: "evidence_config \<Rightarrow> bool \<Rightarrow> evidence_config" where
  "with_verify c b = c\<lparr>verify_signatures := b\<rparr>"

datatype evidence_error =
    DuplicateMessages
  | HeightMismatch height height
  | RoundMismatch round round
  | VoteTypeMismatch vote_type vote_type
  | OffenderMismatch
  | EE_InvalidSignature crypto_error
  | SameBlock
  | SameProposal
  | StaleEvidence height height
  | EE_ValidatorNotFound
  | AlreadyTombstoned
  | AlreadyProcessed
  | IncompleteEvidence
  | EE_Internal string

text \<open>\<open>DoubleVote voter height round vote_type a b vote_a vote_b\<close> and
  \<open>DoubleProposal proposer height round a b proposal_a proposal_b\<close>.\<close>

datatype evidence =
    DoubleVote bytes height round vote_type "hash32 option" "hash32 option" vote vote
  | DoubleProposal bytes height round "hash32 option" "hash32 option"
      "proposal option" "proposal option"

datatype evidence_type = ET_DoubleVote | ET_DoubleProposal

record evidence_id =
  ei_offender :: bytes
  ei_height :: height
  ei_round :: round
  ev_type :: evidence_type

fun offender :: "evidence \<Rightarrow> bytes" where
  "offender (DoubleVote voter _ _ _ _ _ _ _) = voter"
| "offender (DoubleProposal proposer _ _ _ _ _ _) = proposer"

fun evidence_height :: "evidence \<Rightarrow> height" where
  "evidence_height (DoubleVote _ h _ _ _ _ _ _) = h"
| "evidence_height (DoubleProposal _ h _ _ _ _ _) = h"

fun evidence_round :: "evidence \<Rightarrow> round" where
  "evidence_round (DoubleVote _ _ r _ _ _ _ _) = r"
| "evidence_round (DoubleProposal _ _ r _ _ _ _) = r"

fun slash_fraction :: "evidence \<Rightarrow> evidence_config \<Rightarrow> nat" where
  "slash_fraction (DoubleVote _ _ _ _ _ _ _ _) c = slash_fraction_double_vote c"
| "slash_fraction (DoubleProposal _ _ _ _ _ _ _) c = slash_fraction_double_proposal c"

fun evidence_type_of :: "evidence \<Rightarrow> evidence_type" where
  "evidence_type_of (DoubleVote _ _ _ _ _ _ _ _) = ET_DoubleVote"
| "evidence_type_of (DoubleProposal _ _ _ _ _ _ _) = ET_DoubleProposal"

definition is_fresh :: "evidence \<Rightarrow> height \<Rightarrow> height \<Rightarrow> bool" where
  "is_fresh ev current_height age =
     (height_saturating_sub current_height (evidence_height ev) \<le> age)"

definition evidence_id_of :: "evidence \<Rightarrow> evidence_id" where
  "evidence_id_of ev = \<lparr>ei_offender = offender ev, ei_height = evidence_height ev,
     ei_round = evidence_round ev, ev_type = evidence_type_of ev\<rparr>"

section \<open>Validation\<close>

text \<open>Two calls of \<open>verify\<close>, the first error of which is returned.\<close>

definition verify_both ::
    "verifier \<Rightarrow> bytes \<Rightarrow> bytes \<Rightarrow> bytes \<Rightarrow> bytes \<Rightarrow> bytes \<Rightarrow> (evidence_error, unit) result" where
  "verify_both verify key msg_a sig_a msg_b sig_b =
     (case verify key msg_a sig_a of
        Inl e \<Rightarrow> Err (EE_InvalidSignature e)
      | Inr _ \<Rightarrow>
          (case verify key msg_b sig_b of
             Inl e \<Rightarrow> Err (EE_InvalidSignature e)
           | Inr _ \<Rightarrow> Ok ()))"

fun evidence_validate :: "verifier \<Rightarrow> evidence_config \<Rightarrow> evidence \<Rightarrow> (evidence_error, unit) result" where
  "evidence_validate verify c (DoubleVote voter h r vt a b vote_a vote_b) =
     (if v_voter vote_a \<noteq> voter \<or> v_voter vote_b \<noteq> voter then Err OffenderMismatch
      else if v_height vote_a \<noteq> h \<or> v_height vote_b \<noteq> h then Err (HeightMismatch h (v_height vote_a))
      else if v_round vote_a \<noteq> r \<or> v_round vote_b \<noteq> r then Err (RoundMismatch r (v_round vote_a))
      else if v_type vote_a \<noteq> vt \<or> v_type vote_b \<noteq> vt then Err (VoteTypeMismatch vt (v_type vote_a))
      else if vote_a = vote_b then Err DuplicateMessages
      else if a = b then Err SameBlock
      else if \<not> allow_nil_equivocation c \<and> (a = None \<or> b = None)
        then Err (EE_Internal ''nil equivocation not allowed'')
      else if verify_signatures c then
        verify_both verify voter
          (vote_sign_bytes vt h r (v_block_id vote_a)) (v_signature vote_a)
          (vote_sign_bytes vt h r (v_block_id vote_b)) (v_signature vote_b)
      else Ok ())"
| "evidence_validate verify c (DoubleProposal proposer h r a b proposal_a proposal_b) =
     (case (proposal_a, proposal_b) of
        (Some prop_a, Some prop_b) \<Rightarrow>
          if p_proposer prop_a \<noteq> proposer \<or> p_proposer prop_b \<noteq> proposer then Err OffenderMismatch
          else if p_height prop_a \<noteq> h \<or> p_height prop_b \<noteq> h
            then Err (HeightMismatch h (p_height prop_a))
          else if p_round prop_a \<noteq> r \<or> p_round prop_b \<noteq> r
            then Err (RoundMismatch r (p_round prop_a))
          else if prop_a = prop_b then Err DuplicateMessages
          else if a = b then Err SameProposal
          else if verify_signatures c then
            verify_both verify proposer
              (proposal_sign_bytes h r (p_block_id prop_a) (p_pol_round prop_a)) (p_signature prop_a)
              (proposal_sign_bytes h r (p_block_id prop_b) (p_pol_round prop_b)) (p_signature prop_b)
          else Ok ()
      | _ \<Rightarrow> Err IncompleteEvidence)"

section \<open>What validated evidence shows\<close>

lemma verify_both_ok:
  "verify_both verify key ma sa mb sb = Ok u \<longleftrightarrow>
    verify key ma sa = Ok () \<and> verify key mb sb = Ok ()"
  by (auto simp: verify_both_def split: sum.splits)

lemma vote_eqI:
  "v_type v = v_type w \<Longrightarrow> v_height v = v_height w \<Longrightarrow> v_round v = v_round w \<Longrightarrow>
    v_voter v = v_voter w \<Longrightarrow> v_block_id v = v_block_id w \<Longrightarrow> v_signature v = v_signature w \<Longrightarrow>
    (v :: vote) = w"
  by (rule vote.equality) simp_all

text \<open>
  Validated double-vote evidence is sound when the verifier accepts only one signature for a
  key and a message: the offender signed two votes of the same type, height and round for two
  different blocks.
\<close>

theorem double_vote_evidence_sound:
  assumes "evidence_validate verify c (DoubleVote voter h r vt a b vote_a vote_b) = Ok u"
    and "verify_signatures c"
    and "\<And>m s s'. verify voter m s = Ok () \<Longrightarrow> verify voter m s' = Ok () \<Longrightarrow> s = s'"
  shows "v_block_id vote_a \<noteq> v_block_id vote_b \<and>
    verify voter (vote_sign_bytes vt h r (v_block_id vote_a)) (v_signature vote_a) = Ok () \<and>
    verify voter (vote_sign_bytes vt h r (v_block_id vote_b)) (v_signature vote_b) = Ok ()"
proof -
  have ok: "verify voter (vote_sign_bytes vt h r (v_block_id vote_a)) (v_signature vote_a) = Ok ()"
    "verify voter (vote_sign_bytes vt h r (v_block_id vote_b)) (v_signature vote_b) = Ok ()"
    and ne: "vote_a \<noteq> vote_b"
    and same: "v_voter vote_a = v_voter vote_b" "v_height vote_a = v_height vote_b"
      "v_round vote_a = v_round vote_b" "v_type vote_a = v_type vote_b"
    using assms(1,2) by (auto simp: verify_both_ok split: if_splits)
  have "v_block_id vote_a \<noteq> v_block_id vote_b"
    using ne ok assms(3) same vote_eqI by metis
  with ok show ?thesis by simp
qed

text \<open>A verifier with one signature per message, for the witnesses: the signature repeats the
  message and the key.\<close>

definition echo_verify :: verifier where
  "echo_verify key msg sig = (if sig = key @ msg then Ok () else Err CE_InvalidSignature)"

definition echo_vote :: "bytes \<Rightarrow> hash32 option \<Rightarrow> vote" where
  "echo_vote key bid = \<lparr>v_type = Prevote, v_height = 4, v_round = 0, v_voter = key,
     v_block_id = bid, v_signature = key @ vote_sign_bytes Prevote 4 0 bid\<rparr>"

theorem double_vote_evidence_sound_witness:
  "v_block_id (echo_vote [9] (Some [1])) \<noteq> v_block_id (echo_vote [9] None) \<and>
   echo_verify [9] (vote_sign_bytes Prevote 4 0 (v_block_id (echo_vote [9] (Some [1]))))
     (v_signature (echo_vote [9] (Some [1]))) = Ok () \<and>
   echo_verify [9] (vote_sign_bytes Prevote 4 0 (v_block_id (echo_vote [9] None)))
     (v_signature (echo_vote [9] None)) = Ok ()"
  by (rule double_vote_evidence_sound [where c = default_evidence_config
        and a = "Some [1]" and b = None and u = "()"])
    (auto simp: echo_verify_def echo_vote_def verify_both_def default_evidence_config_def
      vote_sign_bytes_def split: if_splits)

text \<open>
  Double-proposal evidence does not show equivocation: from one proposal with a correct
  signature, anybody can build evidence that validates, by pairing it with a copy whose unsigned
  block field differs and filling the unchecked hashes \<open>a\<close> and \<open>b\<close>.
\<close>

theorem single_proposal_gives_evidence:
  assumes "verify (p_proposer p) (proposal_bytes p) (p_signature p) = Ok ()"
    and "p_block p = Some blk" "x \<noteq> y"
  shows "evidence_validate verify c (DoubleProposal (p_proposer p) (p_height p) (p_round p)
    (Some x) (Some y) (Some p) (Some (p\<lparr>p_block := None\<rparr>))) = Ok ()"
proof -
  have "p \<noteq> p\<lparr>p_block := None\<rparr>" using assms(2) by (metis option.distinct(1) proposal.select_convs(5)
      proposal.surjective proposal.update_convs(5))
  then show ?thesis using assms(1,3) by (simp add: proposal_bytes_def verify_both_ok)
qed

definition empty_header :: block_header where
  "empty_header = \<lparr>bh_height = 4, bh_round = 0, parent_id = hash_zero, state_root = hash_zero,
     bh_tx_root = hash_zero, proposer_pk = replicate 32 9, proposer_addr = ''iona1'', base_fee = 1,
     gas_used = 0, gas_limit = MIN_GAS_LIMIT, timestamp_ms = 0,
     bh_coherence = DEFAULT_PROTOCOL_COHERENCE\<rparr>"

definition echo_proposal :: proposal where
  "echo_proposal = \<lparr>p_height = 4, p_round = 0, p_proposer = [9], p_block_id = [1],
     p_block = Some \<lparr>header = empty_header, txs = [], b_coherence = DEFAULT_PROTOCOL_COHERENCE\<rparr>,
     p_pol_round = None, p_signature = [9] @ proposal_sign_bytes 4 0 [1] None\<rparr>"

theorem single_proposal_gives_evidence_witness:
  "evidence_validate echo_verify default_evidence_config (DoubleProposal [9] 4 0 (Some [1]) (Some [2])
     (Some echo_proposal) (Some (echo_proposal\<lparr>p_block := None\<rparr>))) = Ok ()"
  using single_proposal_gives_evidence [of echo_verify echo_proposal
      "\<lparr>header = empty_header, txs = [], b_coherence = DEFAULT_PROTOCOL_COHERENCE\<rparr>" "[1]" "[2]"
      default_evidence_config]
  by (simp add: echo_proposal_def echo_verify_def proposal_bytes_def)

end
