(* ===== verification/Messages.thy ===== *)
theory Messages
  imports Evidence
begin

text \<open>
  The gossip messages and their wire format (\<open>ConsensusMsg\<close> of
  \<open>src/src/consensus/messages.rs\<close>).

  A message is one kind byte followed by the \<open>postcard\<close> encoding of its payload; the encoder and
  decoder of each payload type are parameters, in a record. \<open>Evidence::is_empty\<close> and
  \<open>Evidence::encoded_len\<close> are called by the code and not defined in the sources, so they are
  parameters as well.
\<close>

datatype consensus_msg = Msg_Proposal proposal | Msg_Vote vote | Msg_Evidence evidence

fun msg_kind :: "consensus_msg \<Rightarrow> message_kind" where
  "msg_kind (Msg_Proposal _) = MK_Proposal"
| "msg_kind (Msg_Vote _) = MK_Vote"
| "msg_kind (Msg_Evidence _) = MK_Evidence"

fun msg_height :: "consensus_msg \<Rightarrow> height option" where
  "msg_height (Msg_Proposal p) = Some (p_height p)"
| "msg_height (Msg_Vote v) = Some (v_height v)"
| "msg_height (Msg_Evidence e) = Some (evidence_height e)"

fun msg_round :: "consensus_msg \<Rightarrow> round option" where
  "msg_round (Msg_Proposal p) = Some (p_round p)"
| "msg_round (Msg_Vote v) = Some (v_round v)"
| "msg_round (Msg_Evidence _) = None"

fun msg_block_id :: "consensus_msg \<Rightarrow> hash32 option" where
  "msg_block_id (Msg_Proposal p) = Some (p_block_id p)"
| "msg_block_id (Msg_Vote v) = v_block_id v"
| "msg_block_id (Msg_Evidence _) = None"

fun signer_key :: "consensus_msg \<Rightarrow> bytes option" where
  "signer_key (Msg_Proposal p) = Some (p_proposer p)"
| "signer_key (Msg_Vote v) = Some (v_voter v)"
| "signer_key (Msg_Evidence _) = None"

fun msg_signature :: "consensus_msg \<Rightarrow> bytes option" where
  "msg_signature (Msg_Proposal p) = Some (p_signature p)"
| "msg_signature (Msg_Vote v) = Some (v_signature v)"
| "msg_signature (Msg_Evidence _) = None"

fun msg_sign_bytes :: "consensus_msg \<Rightarrow> bytes option" where
  "msg_sign_bytes (Msg_Proposal p) = Some (proposal_bytes p)"
| "msg_sign_bytes (Msg_Vote v) = Some (vote_bytes v)"
| "msg_sign_bytes (Msg_Evidence _) = None"

fun msg_is_nil :: "consensus_msg \<Rightarrow> bool" where
  "msg_is_nil (Msg_Vote v) = vote_is_nil v"
| "msg_is_nil _ = False"

record msg_sizes =
  block_encoded_len :: "block \<Rightarrow> nat"
  evidence_encoded_len :: "evidence \<Rightarrow> nat"
  evidence_is_empty :: "evidence \<Rightarrow> bool"

fun msg_approximate_size :: "msg_sizes \<Rightarrow> consensus_msg \<Rightarrow> nat" where
  "msg_approximate_size z (Msg_Proposal p) = proposal_approximate_size (block_encoded_len z) p"
| "msg_approximate_size z (Msg_Vote v) = vote_approximate_size v"
| "msg_approximate_size z (Msg_Evidence e) = evidence_encoded_len z e"

fun msg_validate_with_config ::
    "msg_sizes \<Rightarrow> message_config \<Rightarrow> consensus_msg \<Rightarrow> (message_error, unit) result" where
  "msg_validate_with_config z c (Msg_Proposal p) = proposal_validate_with_config (block_encoded_len z) c p"
| "msg_validate_with_config z c (Msg_Vote v) = vote_validate_with_config c v"
| "msg_validate_with_config z c (Msg_Evidence e) =
     (if evidence_is_empty z e then Err EmptyEvidence
      else let size = evidence_encoded_len z e in
        if size > max_message_size c then Err (MessageTooLarge size (max_message_size c))
        else Ok ())"

definition msg_validate :: "msg_sizes \<Rightarrow> consensus_msg \<Rightarrow> (message_error, unit) result" where
  "msg_validate z msg = msg_validate_with_config z default_message_config msg"

section \<open>Wire format\<close>

record codec =
  ser_proposal :: "proposal \<Rightarrow> bytes option"
  de_proposal :: "bytes \<Rightarrow> proposal option"
  ser_vote :: "vote \<Rightarrow> bytes option"
  de_vote :: "bytes \<Rightarrow> vote option"
  ser_evidence :: "evidence \<Rightarrow> bytes option"
  de_evidence :: "bytes \<Rightarrow> evidence option"

definition unwrap_or_default :: "bytes option \<Rightarrow> bytes" where
  "unwrap_or_default x = (case x of Some b \<Rightarrow> b | None \<Rightarrow> [])"

fun msg_payload :: "codec \<Rightarrow> consensus_msg \<Rightarrow> bytes option" where
  "msg_payload k (Msg_Proposal p) = ser_proposal k p"
| "msg_payload k (Msg_Vote v) = ser_vote k v"
| "msg_payload k (Msg_Evidence e) = ser_evidence k e"

definition msg_into_bytes :: "codec \<Rightarrow> consensus_msg \<Rightarrow> bytes" where
  "msg_into_bytes k msg = message_kind_as_u8 (msg_kind msg) # unwrap_or_default (msg_payload k msg)"

text \<open>A decoding failure is reported as an unknown kind, with the kind byte.\<close>

definition try_from_with_config ::
    "codec \<Rightarrow> bytes \<Rightarrow> message_config \<Rightarrow> (message_error, consensus_msg) result" where
  "try_from_with_config k bytes c =
     (if length bytes > max_message_size c
      then Err (MessageTooLarge (length bytes) (max_message_size c))
      else
        case bytes of
          [] \<Rightarrow> Err (UnknownMessageKind 0)
        | kind # payload \<Rightarrow>
            if kind = 1 then
              (case de_proposal k payload of None \<Rightarrow> Err (UnknownMessageKind kind) | Some p \<Rightarrow> Ok (Msg_Proposal p))
            else if kind = 2 then
              (case de_vote k payload of None \<Rightarrow> Err (UnknownMessageKind kind) | Some v \<Rightarrow> Ok (Msg_Vote v))
            else if kind = 3 then
              (case de_evidence k payload of None \<Rightarrow> Err (UnknownMessageKind kind) | Some e \<Rightarrow> Ok (Msg_Evidence e))
            else Err (UnknownMessageKind kind))"

definition msg_try_from :: "codec \<Rightarrow> bytes \<Rightarrow> (message_error, consensus_msg) result" where
  "msg_try_from k bytes = try_from_with_config k bytes default_message_config"

text \<open>What \<open>postcard\<close> promises: decoding what was encoded gives it back.\<close>

definition codec_round_trips :: "codec \<Rightarrow> bool" where
  "codec_round_trips k \<longleftrightarrow>
     (\<forall>p b. ser_proposal k p = Some b \<longrightarrow> de_proposal k b = Some p) \<and>
     (\<forall>v b. ser_vote k v = Some b \<longrightarrow> de_vote k b = Some v) \<and>
     (\<forall>e b. ser_evidence k e = Some b \<longrightarrow> de_evidence k b = Some e)"

section \<open>Properties\<close>

text \<open>
  The wire format round-trips: a message that serialises within the size limit is read back as
  itself, with its kind.
\<close>

theorem message_round_trip:
  assumes "codec_round_trips k" "msg_payload k msg = Some b"
    and "length b < max_message_size c"
  shows "try_from_with_config k (msg_into_bytes k msg) c = Ok msg \<and>
    message_kind_try_from (hd (msg_into_bytes k msg)) = Ok (msg_kind msg)"
  using assms
  by (cases msg) (auto simp: try_from_with_config_def msg_into_bytes_def unwrap_or_default_def
      codec_round_trips_def message_kind_try_from_def)

definition one_vote_codec :: codec where
  "one_vote_codec = \<lparr>ser_proposal = (\<lambda>_. None), de_proposal = (\<lambda>_. None),
     ser_vote = (\<lambda>v. if v = echo_vote [9] None then Some [7] else None),
     de_vote = (\<lambda>b. if b = [7] then Some (echo_vote [9] None) else None),
     ser_evidence = (\<lambda>_. None), de_evidence = (\<lambda>_. None)\<rparr>"

theorem message_round_trip_witness:
  "try_from_with_config one_vote_codec [2, 7] default_message_config = Ok (Msg_Vote (echo_vote [9] None))
    \<and> message_kind_try_from 2 = Ok MK_Vote"
  using message_round_trip [of one_vote_codec "Msg_Vote (echo_vote [9] None)" "[7]" default_message_config]
  by (simp add: codec_round_trips_def one_vote_codec_def default_message_config_def MAX_MESSAGE_SIZE_def
      msg_into_bytes_def unwrap_or_default_def)

end
