(* ===== verification/Slashing.thy ===== *)
theory Slashing
  imports Ordered_Map Evidence
begin

text \<open>
  The stake ledger (\<open>src/src/slashing.rs\<close>): \<open>StakeLedger\<close>, \<open>SlashingManager\<close> and the
  global functions kept for old callers.

  A slash divides by a configured denominator, so \<open>apply_evidence\<close> and \<open>slash_downtime\<close> return
  \<open>None\<close> where the division by zero panics; \<open>SlashingConfig::validate\<close> excludes it. The
  atomic counters are a record that the operations return beside the ledger. \<open>serde_json\<close> is a
  parameter of \<open>deserialize\<close>.
\<close>

section \<open>Configuration, errors, records\<close>

record slashing_config =
  slash_double_vote :: nat
  slash_double_proposal :: nat
  slash_downtime_den :: nat
  min_stake_after_slash :: nat
  unjail_delay :: height
  downtime_window :: nat
  min_signed :: nat
  tombstone_after_repeated :: bool

definition default_slashing_config :: slashing_config where
  "default_slashing_config =
     \<lparr>slash_double_vote = 20, slash_double_proposal = 20, slash_downtime_den = 100,
      min_stake_after_slash = 1, unjail_delay = 1000, downtime_window = 200, min_signed = 100,
      tombstone_after_repeated = True\<rparr>"

definition slashing_config_validate :: "slashing_config \<Rightarrow> (string, unit) result" where
  "slashing_config_validate c =
     (if slash_double_vote c = 0 then Err ''slash_double_vote must be > 0''
      else if slash_double_proposal c = 0 then Err ''slash_double_proposal must be > 0''
      else if slash_downtime_den c = 0 then Err ''slash_downtime must be > 0''
      else if min_stake_after_slash c = 0 then Err ''min_stake_after_slash must be > 0''
      else if unjail_delay c = 0 then Err ''unjail_delay must be > 0''
      else if downtime_window c = 0 then Err ''downtime_window must be > 0''
      else if min_signed c = 0 then Err ''min_signed must be > 0''
      else Ok ())"

datatype slashing_error =
    SE_ValidatorNotFound
  | AlreadyActive
  | SE_Tombstoned
  | UnjailDelayNotElapsed height
  | StakeTooLow nat
  | InvalidEvidence string
  | SE_Internal string

text \<open>\<open>Jailed since_height slash_count\<close>.\<close>

datatype validator_status = Active | Jailed height nat | Tombstoned

record validator_record =
  stake :: nat
  slashed_total :: nat
  status :: validator_status
  jailed_at :: "height option"

definition record_new :: "nat \<Rightarrow> validator_record" where
  "record_new s = \<lparr>stake = s, slashed_total = 0, status = Active, jailed_at = None\<rparr>"

definition is_active :: "validator_record \<Rightarrow> bool" where
  "is_active r = (status r = Active)"

definition is_jailed :: "validator_record \<Rightarrow> bool" where
  "is_jailed r = (case status r of Jailed _ _ \<Rightarrow> True | _ \<Rightarrow> False)"

definition is_tombstoned :: "validator_record \<Rightarrow> bool" where
  "is_tombstoned r = (status r = Tombstoned)"

definition can_unjail :: "validator_record \<Rightarrow> height \<Rightarrow> height \<Rightarrow> bool" where
  "can_unjail r current_height delay =
     (case status r of
        Jailed since _ \<Rightarrow> current_height \<ge> u64_add since delay
      | _ \<Rightarrow> False)"

record slashing_metrics =
  slashes_applied :: nat
  m_slash_double_vote :: nat
  m_slash_double_proposal :: nat
  m_slash_downtime :: nat
  m_total_slashed :: nat
  validators_jailed :: nat
  validators_tombstoned :: nat
  unjails :: nat
  m_community_pool :: nat

definition zero_slashing_metrics :: slashing_metrics where
  "zero_slashing_metrics = \<lparr>slashes_applied = 0, m_slash_double_vote = 0,
     m_slash_double_proposal = 0, m_slash_downtime = 0, m_total_slashed = 0, validators_jailed = 0,
     validators_tombstoned = 0, unjails = 0, m_community_pool = 0\<rparr>"

definition inc_slash :: "string \<Rightarrow> nat \<Rightarrow> slashing_metrics \<Rightarrow> slashing_metrics" where
  "inc_slash et amount m =
     (let m1 = m\<lparr>slashes_applied := u64_add (slashes_applied m) 1,
                 m_total_slashed := u64_add (m_total_slashed m) amount\<rparr> in
      if et = ''double_vote'' then m1\<lparr>m_slash_double_vote := u64_add (m_slash_double_vote m) 1\<rparr>
      else if et = ''double_proposal''
        then m1\<lparr>m_slash_double_proposal := u64_add (m_slash_double_proposal m) 1\<rparr>
      else if et = ''downtime'' then m1\<lparr>m_slash_downtime := u64_add (m_slash_downtime m) 1\<rparr>
      else m1)"

definition inc_jailed :: "slashing_metrics \<Rightarrow> slashing_metrics" where
  "inc_jailed m = m\<lparr>validators_jailed := u64_add (validators_jailed m) 1\<rparr>"

definition inc_tombstoned :: "slashing_metrics \<Rightarrow> slashing_metrics" where
  "inc_tombstoned m = m\<lparr>validators_tombstoned := u64_add (validators_tombstoned m) 1\<rparr>"

definition inc_unjail :: "slashing_metrics \<Rightarrow> slashing_metrics" where
  "inc_unjail m = m\<lparr>unjails := u64_add (unjails m) 1\<rparr>"

definition set_community_pool :: "nat \<Rightarrow> slashing_metrics \<Rightarrow> slashing_metrics" where
  "set_community_pool amount m = m\<lparr>m_community_pool := amount\<rparr>"

section \<open>The ledger\<close>

record stake_ledger =
  l_validators :: "(bytes, validator_record) btree_map"
  community_pool :: nat
  current_height :: height
  l_config :: slashing_config

definition ledger_new :: "slashing_config \<Rightarrow> stake_ledger" where
  "ledger_new c = \<lparr>l_validators = [], community_pool = 0, current_height = 0, l_config = c\<rparr>"

definition ledger_default :: stake_ledger where
  "ledger_default = ledger_new default_slashing_config"

definition ledger_add_validator ::
    "bytes \<Rightarrow> nat \<Rightarrow> stake_ledger \<Rightarrow> (slashing_error, unit) result \<times> stake_ledger" where
  "ledger_add_validator k s l =
     (if bt_get (l_validators l) k \<noteq> None
      then (Err (SE_Internal ''validator already exists''), l)
      else (Ok (), l\<lparr>l_validators := bt_insert k (record_new s) (l_validators l)\<rparr>))"

definition ledger_remove_validator ::
    "bytes \<Rightarrow> stake_ledger \<Rightarrow> validator_record option \<times> stake_ledger" where
  "ledger_remove_validator k l =
     (bt_get (l_validators l) k, l\<lparr>l_validators := bt_remove k (l_validators l)\<rparr>)"

definition get_stake :: "stake_ledger \<Rightarrow> bytes \<Rightarrow> nat" where
  "get_stake l k = (case bt_get (l_validators l) k of Some r \<Rightarrow> stake r | None \<Rightarrow> 0)"

definition get_slashed :: "stake_ledger \<Rightarrow> bytes \<Rightarrow> nat" where
  "get_slashed l k = (case bt_get (l_validators l) k of Some r \<Rightarrow> slashed_total r | None \<Rightarrow> 0)"

definition set_height :: "height \<Rightarrow> stake_ledger \<Rightarrow> stake_ledger" where
  "set_height h l = l\<lparr>current_height := h\<rparr>"

definition set_config :: "slashing_config \<Rightarrow> stake_ledger \<Rightarrow> stake_ledger" where
  "set_config c l = l\<lparr>l_config := c\<rparr>"

definition active_validators :: "stake_ledger \<Rightarrow> (bytes \<times> validator_record) list" where
  "active_validators l = filter (\<lambda>e. is_active (snd e)) (l_validators l)"

definition jailed_validators :: "stake_ledger \<Rightarrow> (bytes \<times> validator_record) list" where
  "jailed_validators l = filter (\<lambda>e. is_jailed (snd e)) (l_validators l)"

definition tombstoned_validators :: "stake_ledger \<Rightarrow> (bytes \<times> validator_record) list" where
  "tombstoned_validators l = filter (\<lambda>e. is_tombstoned (snd e)) (l_validators l)"

definition ledger_total_power :: "stake_ledger \<Rightarrow> nat" where
  "ledger_total_power l = fold (\<lambda>e acc. u64_add acc (stake (snd e))) (active_validators l) 0"

fun evidence_fraction :: "slashing_config \<Rightarrow> evidence \<Rightarrow> nat \<times> string" where
  "evidence_fraction c (DoubleVote _ _ _ _ _ _ _ _) = (slash_double_vote c, ''double_vote'')"
| "evidence_fraction c (DoubleProposal _ _ _ _ _ _ _) = (slash_double_proposal c, ''double_proposal'')"

text \<open>A slash of \<open>stake / fraction\<close>, at least one unit; \<open>None\<close> where the division panics.\<close>

definition slash_amount_of :: "nat \<Rightarrow> nat \<Rightarrow> nat option" where
  "slash_amount_of s fraction = (if fraction = 0 then None else Some (max (s div fraction) 1))"

definition ledger_apply_evidence ::
    "evidence \<Rightarrow> stake_ledger \<Rightarrow> slashing_metrics \<Rightarrow>
      ((slashing_error, unit) result \<times> stake_ledger \<times> slashing_metrics) option" where
  "ledger_apply_evidence ev l m =
     (let k = offender ev in
      case bt_get (l_validators l) k of
        None \<Rightarrow> Some (Err SE_ValidatorNotFound, l, m)
      | Some r \<Rightarrow>
          if is_tombstoned r then Some (Err SE_Tombstoned, l, m)
          else
            (let (fraction, et) = evidence_fraction (l_config l) ev in
             case slash_amount_of (stake r) fraction of
               None \<Rightarrow> None
             | Some amount \<Rightarrow>
                 if amount = 0 then Some (Err (StakeTooLow (stake r)), l, m)
                 else
                   let new_stake = u64_sat_sub (stake r) amount;
                       r1 = r\<lparr>slashed_total := u64_add (slashed_total r) amount\<rparr>;
                       pool = u64_add (community_pool l) amount;
                       m1 = set_community_pool pool m;
                       slash_count = (case status r of Jailed _ n \<Rightarrow> u32_add n 1 | _ \<Rightarrow> 1);
                       (r2, m2) =
                         (if tombstone_after_repeated (l_config l) \<and> slash_count \<ge> 2
                          then (r1\<lparr>status := Tombstoned, stake := 0\<rparr>, inc_tombstoned m1)
                          else if new_stake < min_stake_after_slash (l_config l)
                          then (r1\<lparr>status := Tombstoned, stake := 0\<rparr>, inc_tombstoned m1)
                          else (r1\<lparr>status := Jailed (current_height l) slash_count,
                                   stake := new_stake,
                                   jailed_at := Some (current_height l)\<rparr>, inc_jailed m1))
                   in Some (Ok (), l\<lparr>l_validators := bt_insert k r2 (l_validators l),
                                    community_pool := pool\<rparr>, inc_slash et amount m2)))"

definition ledger_unjail ::
    "bytes \<Rightarrow> stake_ledger \<Rightarrow> slashing_metrics \<Rightarrow>
      (slashing_error, unit) result \<times> stake_ledger \<times> slashing_metrics" where
  "ledger_unjail k l m =
     (case bt_get (l_validators l) k of
        None \<Rightarrow> (Err SE_ValidatorNotFound, l, m)
      | Some r \<Rightarrow>
          (case status r of
             Tombstoned \<Rightarrow> (Err SE_Tombstoned, l, m)
           | Active \<Rightarrow> (Err AlreadyActive, l, m)
           | Jailed since _ \<Rightarrow>
               let remaining = u64_sat_sub (u64_add since (unjail_delay (l_config l))) (current_height l) in
               if remaining > 0 then (Err (UnjailDelayNotElapsed remaining), l, m)
               else (Ok (), l\<lparr>l_validators :=
                       bt_insert k (r\<lparr>status := Active, jailed_at := None\<rparr>) (l_validators l)\<rparr>,
                     inc_unjail m)))"

definition ledger_slash_downtime ::
    "bytes \<Rightarrow> stake_ledger \<Rightarrow> slashing_metrics \<Rightarrow>
      ((slashing_error, unit) result \<times> stake_ledger \<times> slashing_metrics) option" where
  "ledger_slash_downtime k l m =
     (case bt_get (l_validators l) k of
        None \<Rightarrow> Some (Err SE_ValidatorNotFound, l, m)
      | Some r \<Rightarrow>
          if \<not> is_active r then Some (Err (SE_Internal ''validator not active''), l, m)
          else
            (case slash_amount_of (stake r) (slash_downtime_den (l_config l)) of
               None \<Rightarrow> None
             | Some amount \<Rightarrow>
                 let new_stake = u64_sat_sub (stake r) amount;
                     r1 = r\<lparr>slashed_total := u64_add (slashed_total r) amount\<rparr>;
                     pool = u64_add (community_pool l) amount;
                     m1 = set_community_pool pool m;
                     (r2, m2) =
                       (if new_stake < min_stake_after_slash (l_config l)
                        then (r1\<lparr>status := Tombstoned, stake := 0\<rparr>, inc_tombstoned m1)
                        else (r1\<lparr>status := Jailed (current_height l) 1, stake := new_stake,
                                 jailed_at := Some (current_height l)\<rparr>, inc_jailed m1))
                 in Some (Ok (), l\<lparr>l_validators := bt_insert k r2 (l_validators l),
                                  community_pool := pool\<rparr>, inc_slash ''downtime'' amount m2)))"

fun ledger_apply_evidence_batch ::
    "evidence list \<Rightarrow> stake_ledger \<Rightarrow> slashing_metrics \<Rightarrow>
      ((slashing_error, unit) result list \<times> stake_ledger \<times> slashing_metrics) option" where
  "ledger_apply_evidence_batch [] l m = Some ([], l, m)"
| "ledger_apply_evidence_batch (ev # evs) l m =
     (case ledger_apply_evidence ev l m of
        None \<Rightarrow> None
      | Some (r, l1, m1) \<Rightarrow>
          map_option (\<lambda>(rs, l2, m2). (r # rs, l2, m2)) (ledger_apply_evidence_batch evs l1 m1))"

section \<open>The manager and the global functions\<close>

record slashing_manager =
  sm_ledger :: stake_ledger
  sm_metrics :: slashing_metrics
  sm_initialised :: bool

text \<open>\<open>new\<close> panics on an invalid configuration.\<close>

definition slashing_manager_new :: "slashing_config \<Rightarrow> slashing_manager option" where
  "slashing_manager_new c =
     (case slashing_config_validate c of
        Inl _ \<Rightarrow> None
      | Inr _ \<Rightarrow> Some \<lparr>sm_ledger = ledger_new c, sm_metrics = zero_slashing_metrics,
                       sm_initialised = False\<rparr>)"

definition slashing_manager_init :: "slashing_manager \<Rightarrow> slashing_manager" where
  "slashing_manager_init g = g\<lparr>sm_initialised := True\<rparr>"

definition manager_add_validator ::
    "bytes \<Rightarrow> nat \<Rightarrow> slashing_manager \<Rightarrow> (slashing_error, unit) result \<times> slashing_manager" where
  "manager_add_validator k s g =
     (let (r, l) = ledger_add_validator k s (sm_ledger g) in (r, g\<lparr>sm_ledger := l\<rparr>))"

definition manager_remove_validator ::
    "bytes \<Rightarrow> slashing_manager \<Rightarrow> validator_record option \<times> slashing_manager" where
  "manager_remove_validator k g =
     (let (r, l) = ledger_remove_validator k (sm_ledger g) in (r, g\<lparr>sm_ledger := l\<rparr>))"

definition manager_set_height :: "height \<Rightarrow> slashing_manager \<Rightarrow> slashing_manager" where
  "manager_set_height h g = g\<lparr>sm_ledger := set_height h (sm_ledger g)\<rparr>"

definition manager_apply_evidence ::
    "evidence \<Rightarrow> slashing_manager \<Rightarrow> ((slashing_error, unit) result \<times> slashing_manager) option" where
  "manager_apply_evidence ev g =
     map_option (\<lambda>(r, l, m). (r, g\<lparr>sm_ledger := l, sm_metrics := m\<rparr>))
       (ledger_apply_evidence ev (sm_ledger g) (sm_metrics g))"

definition manager_unjail ::
    "bytes \<Rightarrow> slashing_manager \<Rightarrow> (slashing_error, unit) result \<times> slashing_manager" where
  "manager_unjail k g =
     (let (r, l, m) = ledger_unjail k (sm_ledger g) (sm_metrics g)
      in (r, g\<lparr>sm_ledger := l, sm_metrics := m\<rparr>))"

definition manager_slash_downtime ::
    "bytes \<Rightarrow> slashing_manager \<Rightarrow> ((slashing_error, unit) result \<times> slashing_manager) option" where
  "manager_slash_downtime k g =
     map_option (\<lambda>(r, l, m). (r, g\<lparr>sm_ledger := l, sm_metrics := m\<rparr>))
       (ledger_slash_downtime k (sm_ledger g) (sm_metrics g))"

definition manager_apply_evidence_batch ::
    "evidence list \<Rightarrow> slashing_manager \<Rightarrow>
      ((slashing_error, unit) result list \<times> slashing_manager) option" where
  "manager_apply_evidence_batch evs g =
     map_option (\<lambda>(rs, l, m). (rs, g\<lparr>sm_ledger := l, sm_metrics := m\<rparr>))
       (ledger_apply_evidence_batch evs (sm_ledger g) (sm_metrics g))"

definition slashing_reset_metrics :: "slashing_manager \<Rightarrow> slashing_manager" where
  "slashing_reset_metrics g = g\<lparr>sm_metrics := zero_slashing_metrics\<rparr>"

definition slashing_deserialize ::
    "(bytes \<Rightarrow> (string, stake_ledger) result) \<Rightarrow> bytes \<Rightarrow> slashing_manager \<Rightarrow>
      (string, unit) result \<times> slashing_manager" where
  "slashing_deserialize from_json data g =
     (case from_json data of
        Inl e \<Rightarrow> (Err e, g)
      | Inr l \<Rightarrow>
          let l1 = set_config (l_config (sm_ledger g)) l
          in (Ok (), g\<lparr>sm_ledger := set_height (current_height l1) l1\<rparr>))"

text \<open>Each of the global functions declares its own static manager, created on first use.\<close>

record legacy_slashing =
  lg_add :: "slashing_manager option"
  lg_apply :: "slashing_manager option"
  lg_unjail :: "slashing_manager option"
  lg_stake :: "slashing_manager option"
  lg_pool :: "slashing_manager option"

definition legacy_start :: legacy_slashing where
  "legacy_start = \<lparr>lg_add = None, lg_apply = None, lg_unjail = None, lg_stake = None, lg_pool = None\<rparr>"

definition default_manager :: slashing_manager where
  "default_manager = \<lparr>sm_ledger = ledger_default, sm_metrics = zero_slashing_metrics,
     sm_initialised = False\<rparr>"

definition or_default :: "slashing_manager option \<Rightarrow> slashing_manager" where
  "or_default g = (case g of Some x \<Rightarrow> x | None \<Rightarrow> default_manager)"

definition legacy_add_validator ::
    "bytes \<Rightarrow> nat \<Rightarrow> legacy_slashing \<Rightarrow> (slashing_error, unit) result \<times> legacy_slashing" where
  "legacy_add_validator k s g =
     (let (r, x) = manager_add_validator k s (or_default (lg_add g)) in (r, g\<lparr>lg_add := Some x\<rparr>))"

definition legacy_apply_evidence ::
    "evidence \<Rightarrow> legacy_slashing \<Rightarrow> ((slashing_error, unit) result \<times> legacy_slashing) option" where
  "legacy_apply_evidence ev g =
     map_option (\<lambda>(r, x). (r, g\<lparr>lg_apply := Some x\<rparr>)) (manager_apply_evidence ev (or_default (lg_apply g)))"

definition legacy_unjail ::
    "bytes \<Rightarrow> legacy_slashing \<Rightarrow> (slashing_error, unit) result \<times> legacy_slashing" where
  "legacy_unjail k g =
     (let (r, x) = manager_unjail k (or_default (lg_unjail g)) in (r, g\<lparr>lg_unjail := Some x\<rparr>))"

definition legacy_get_stake :: "bytes \<Rightarrow> legacy_slashing \<Rightarrow> nat" where
  "legacy_get_stake k g = (case lg_stake g of Some x \<Rightarrow> get_stake (sm_ledger x) k | None \<Rightarrow> 0)"

definition legacy_community_pool :: "legacy_slashing \<Rightarrow> nat" where
  "legacy_community_pool g = (case lg_pool g of Some x \<Rightarrow> community_pool (sm_ledger x) | None \<Rightarrow> 0)"

section \<open>Histories\<close>

datatype ledger_op =
    LAdd bytes nat
  | LRemove bytes
  | LEvidence evidence
  | LUnjail bytes
  | LDowntime bytes
  | LSetHeight height
  | LSetConfig slashing_config

fun ledger_step :: "ledger_op \<Rightarrow> stake_ledger \<times> slashing_metrics \<Rightarrow> (stake_ledger \<times> slashing_metrics) option" where
  "ledger_step (LAdd k s) (l, m) = Some (snd (ledger_add_validator k s l), m)"
| "ledger_step (LRemove k) (l, m) = Some (snd (ledger_remove_validator k l), m)"
| "ledger_step (LEvidence ev) (l, m) = map_option snd (ledger_apply_evidence ev l m)"
| "ledger_step (LUnjail k) (l, m) = Some (snd (ledger_unjail k l m))"
| "ledger_step (LDowntime k) (l, m) = map_option snd (ledger_slash_downtime k l m)"
| "ledger_step (LSetHeight h) (l, m) = Some (set_height h l, m)"
| "ledger_step (LSetConfig c) (l, m) = Some (set_config c l, m)"

fun ledger_run :: "ledger_op list \<Rightarrow> stake_ledger \<times> slashing_metrics \<Rightarrow> (stake_ledger \<times> slashing_metrics) option" where
  "ledger_run [] s = Some s"
| "ledger_run (op # ops) s = (case ledger_step op s of None \<Rightarrow> None | Some s1 \<Rightarrow> ledger_run ops s1)"

section \<open>One slash\<close>

text \<open>What a slash leaves: the record of the offender and the pool change, nothing else.\<close>

definition slash_outcome :: "validator_record \<Rightarrow> nat \<Rightarrow> validator_record \<Rightarrow> bool" where
  "slash_outcome r amount r' \<longleftrightarrow>
     slashed_total r' = u64_add (slashed_total r) amount \<and>
     (is_tombstoned r' \<and> stake r' = 0 \<or> is_jailed r' \<and> stake r' = stake r - amount)"

lemma apply_evidence_ok:
  assumes "ledger_apply_evidence ev l m = Some (Ok u, l', m')"
  obtains r amount r' where "bt_get (l_validators l) (offender ev) = Some r" "\<not> is_tombstoned r"
    "slash_amount_of (stake r) (fst (evidence_fraction (l_config l) ev)) = Some amount"
    "l' = l\<lparr>l_validators := bt_insert (offender ev) r' (l_validators l),
           community_pool := u64_add (community_pool l) amount\<rparr>"
    "slash_outcome r amount r'"
  using assms that
  by (auto simp: ledger_apply_evidence_def Let_def slash_outcome_def is_tombstoned_def is_jailed_def
      u64_sat_sub_def split: option.splits if_splits prod.splits)

lemma apply_evidence_err:
  "ledger_apply_evidence ev l m = Some (Err e, l', m') \<Longrightarrow> l' = l"
  by (auto simp: ledger_apply_evidence_def Let_def split: option.splits if_splits prod.splits)

lemma apply_evidence_proceeds:
  assumes "bt_get (l_validators l) (offender ev) = Some r" "\<not> is_tombstoned r"
    "slash_amount_of (stake r) (fst (evidence_fraction (l_config l) ev)) = Some a"
  shows "\<exists>l' m'. ledger_apply_evidence ev l m = Some (Ok (), l', m')"
proof -
  have "0 < a" using assms(3) by (auto simp: slash_amount_of_def split: if_splits)
  then show ?thesis using assms by (simp add: ledger_apply_evidence_def split_def Let_def)
qed

lemma slash_downtime_ok:
  assumes "ledger_slash_downtime k l m = Some (Ok u, l', m')"
  obtains r amount r' where "bt_get (l_validators l) k = Some r" "is_active r"
    "slash_amount_of (stake r) (slash_downtime_den (l_config l)) = Some amount"
    "l' = l\<lparr>l_validators := bt_insert k r' (l_validators l),
           community_pool := u64_add (community_pool l) amount\<rparr>"
    "slash_outcome r amount r'"
  using assms that
  by (auto simp: ledger_slash_downtime_def Let_def slash_outcome_def is_tombstoned_def is_jailed_def
      u64_sat_sub_def split: option.splits if_splits prod.splits)

lemma slash_downtime_err:
  "ledger_slash_downtime k l m = Some (Err e, l', m') \<Longrightarrow> l' = l"
  by (auto simp: ledger_slash_downtime_def Let_def split: option.splits if_splits prod.splits)

section \<open>Accounting\<close>

definition staked :: "stake_ledger \<Rightarrow> nat" where
  "staked l = sum_list (map (\<lambda>e. stake (snd e)) (l_validators l))"

definition ledger_value :: "stake_ledger \<Rightarrow> nat" where
  "ledger_value l = staked l + community_pool l"

lemma staked_replace:
  assumes "bt_sorted (l_validators l)" "bt_get (l_validators l) k = Some r"
  shows "staked (l\<lparr>l_validators := bt_insert k r' (l_validators l), community_pool := p\<rparr>) + stake r =
    staked l + stake r'"
  using bt.sum_ins [OF assms(1), of "\<lambda>e. stake (snd e)" k r'] assms(2) by (simp add: staked_def)

lemma slash_amount_bounds:
  "slash_amount_of s f = Some a \<Longrightarrow> 0 < s \<Longrightarrow> 0 < a \<and> a \<le> s"
  by (auto simp: slash_amount_of_def max_def split: if_splits)

lemma slash_value:
  assumes "bt_sorted (l_validators l)" "bt_get (l_validators l) k = Some r"
    "slash_amount_of (stake r) f = Some a" "slash_outcome r a r'"
    "0 < stake r" "community_pool l + stake r < 2 ^ 64"
    "l' = l\<lparr>l_validators := bt_insert k r' (l_validators l),
           community_pool := u64_add (community_pool l) a\<rparr>"
  shows "ledger_value l' + (if is_tombstoned r' then stake r - a else 0) = ledger_value l
    \<and> community_pool l' = community_pool l + a"
proof -
  have a: "0 < a" "a \<le> stake r" using slash_amount_bounds [OF assms(3,5)] by simp_all
  then have pool: "u64_add (community_pool l) a = community_pool l + a"
    using assms(6) by (intro u64_add_exact) simp
  have "staked l' + stake r = staked l + stake r'"
    unfolding assms(7) by (rule staked_replace [OF assms(1,2)])
  moreover have "stake r' = (if is_tombstoned r' then 0 else stake r - a)"
    using assms(4) by (auto simp: slash_outcome_def is_tombstoned_def is_jailed_def)
  ultimately show ?thesis
    using a by (auto simp: ledger_value_def assms(7) pool split: if_splits)
qed

section \<open>Tombstones\<close>

lemma ledger_step_sorted:
  assumes "ledger_step op s = Some s'" "bt_sorted (l_validators (fst s))"
  shows "bt_sorted (l_validators (fst s'))"
proof -
  obtain l m where s: "s = (l, m)" by (cases s)
  have ev: "bt_sorted (l_validators l')" if "ledger_apply_evidence ev l m = Some (res, l', m')"
    for ev res l' m'
    using that assms(2) apply_evidence_err [of ev l m _ l' m']
    by (cases res) (auto simp: s bt_sorted_insert elim!: apply_evidence_ok)
  have dt: "bt_sorted (l_validators l')" if "ledger_slash_downtime k l m = Some (res, l', m')"
    for k res l' m'
    using that assms(2) slash_downtime_err [of k l m _ l' m']
    by (cases res) (auto simp: s bt_sorted_insert elim!: slash_downtime_ok)
  show ?thesis
    using assms ev dt
    by (cases op) (auto simp: s ledger_add_validator_def ledger_remove_validator_def ledger_unjail_def
        set_height_def set_config_def Let_def bt_sorted_insert bt_sorted_remove
        split: option.splits validator_status.splits)
qed

lemma tombstone_step:
  assumes "ledger_step op s = Some s'" "bt_sorted (l_validators (fst s))" "op \<noteq> LRemove k"
    "bt_get (l_validators (fst s)) k = Some r" "is_tombstoned r"
  shows "bt_get (l_validators (fst s')) k = Some r"
proof -
  obtain l m where s: "s = (l, m)" by (cases s)
  have st: "bt_sorted (l_validators l)" using assms(2) s by simp
  have ev: "bt_get (l_validators l') k = Some r" if "ledger_apply_evidence ev l m = Some (res, l', m')"
    for ev res l' m'
    using that assms(4,5) apply_evidence_err [of ev l m _ l' m']
    by (cases res) (auto simp: s bt.get_ins [OF st] elim!: apply_evidence_ok)
  have dt: "bt_get (l_validators l') k = Some r"
    if "ledger_slash_downtime k' l m = Some (res, l', m')" for k' res l' m'
    using that assms(4,5) slash_downtime_err [of k' l m _ l' m']
    by (cases res) (auto simp: s bt.get_ins [OF st] is_active_def is_tombstoned_def
        elim!: slash_downtime_ok)
  show ?thesis
    using assms ev dt
    by (cases op) (auto simp: s ledger_add_validator_def ledger_remove_validator_def ledger_unjail_def
        set_height_def set_config_def Let_def is_tombstoned_def bt.get_ins bt.get_del
        split: option.splits validator_status.splits)
qed

lemma tombstone_run:
  "ledger_run ops s = Some s' \<Longrightarrow> bt_sorted (l_validators (fst s)) \<Longrightarrow> LRemove k \<notin> set ops \<Longrightarrow>
    bt_get (l_validators (fst s)) k = Some r \<Longrightarrow> is_tombstoned r \<Longrightarrow>
    bt_get (l_validators (fst s')) k = Some r"
proof (induction ops arbitrary: s)
  case (Cons op ops)
  then obtain s1 where s1: "ledger_step op s = Some s1" "ledger_run ops s1 = Some s'"
    by (auto split: option.splits)
  show ?case
    using Cons.prems s1 ledger_step_sorted [OF s1(1)] tombstone_step [OF s1(1)]
    by (intro Cons.IH [OF s1(2)]) auto
qed simp

section \<open>The global functions do not share state\<close>

lemma default_manager_new: "slashing_manager_new default_slashing_config = Some default_manager"
  by (simp add: slashing_manager_new_def slashing_config_validate_def default_slashing_config_def
      default_manager_def ledger_default_def)

text \<open>The calls of the global functions, and that the manager \<open>apply_evidence\<close> uses never
  receives a validator.\<close>

datatype legacy_op = GAdd bytes nat | GApply evidence | GUnjail bytes

fun legacy_step :: "legacy_op \<Rightarrow> legacy_slashing \<Rightarrow> legacy_slashing option" where
  "legacy_step (GAdd k s) g = Some (snd (legacy_add_validator k s g))"
| "legacy_step (GApply ev) g = map_option snd (legacy_apply_evidence ev g)"
| "legacy_step (GUnjail k) g = Some (snd (legacy_unjail k g))"

fun legacy_run :: "legacy_op list \<Rightarrow> legacy_slashing \<Rightarrow> legacy_slashing option" where
  "legacy_run [] g = Some g"
| "legacy_run (op # ops) g = (case legacy_step op g of None \<Rightarrow> None | Some g1 \<Rightarrow> legacy_run ops g1)"

definition apply_side_empty :: "legacy_slashing \<Rightarrow> bool" where
  "apply_side_empty g \<longleftrightarrow> l_validators (sm_ledger (or_default (lg_apply g))) = []"

lemma legacy_apply_empty:
  "apply_side_empty g \<Longrightarrow> legacy_apply_evidence ev g =
     Some (Err SE_ValidatorNotFound, g\<lparr>lg_apply := Some (or_default (lg_apply g))\<rparr>)"
  by (simp add: apply_side_empty_def legacy_apply_evidence_def manager_apply_evidence_def
      ledger_apply_evidence_def)

lemma legacy_step_empty:
  "apply_side_empty g \<Longrightarrow> \<exists>g'. legacy_step op g = Some g' \<and> apply_side_empty g'"
  by (cases op)
    (auto simp: legacy_apply_empty legacy_add_validator_def legacy_unjail_def apply_side_empty_def
      or_default_def split: prod.splits)

lemma legacy_run_empty:
  "apply_side_empty g \<Longrightarrow> \<exists>g'. legacy_run ops g = Some g' \<and> apply_side_empty g'"
proof (induction ops arbitrary: g)
  case (Cons op ops)
  from legacy_step_empty [OF Cons.prems] obtain g1
    where "legacy_step op g = Some g1" "apply_side_empty g1" by blast
  with Cons.IH [of g1] show ?case by simp
qed simp

lemma legacy_start_empty: "apply_side_empty legacy_start"
  by (simp add: apply_side_empty_def legacy_start_def or_default_def default_manager_def
      ledger_default_def ledger_new_def)

section \<open>Properties\<close>

text \<open>
  A slash moves value and never creates it: for an offender with a positive stake, what leaves
  the stakes goes to the community pool, except that a tombstoned validator also loses the rest of
  its stake, which goes nowhere.
\<close>

theorem slash_accounts_for_stake:
  assumes "ledger_apply_evidence ev l m = Some (Ok (), l', m')"
    and "bt_sorted (l_validators l)" "0 < get_stake l (offender ev)"
    and "community_pool l + get_stake l (offender ev) < 2 ^ 64"
  shows "\<exists>r'. bt_get (l_validators l') (offender ev) = Some r' \<and>
    ledger_value l' + (if is_tombstoned r'
        then get_stake l (offender ev) - (community_pool l' - community_pool l) else 0)
      = ledger_value l"
proof -
  from assms(1) obtain r a r' where r: "bt_get (l_validators l) (offender ev) = Some r"
    and a: "slash_amount_of (stake r) (fst (evidence_fraction (l_config l) ev)) = Some a"
    and l': "l' = l\<lparr>l_validators := bt_insert (offender ev) r' (l_validators l),
           community_pool := u64_add (community_pool l) a\<rparr>"
    and out: "slash_outcome r a r'"
    by (rule apply_evidence_ok)
  have st: "get_stake l (offender ev) = stake r" by (simp add: get_stake_def r)
  have "bt_get (l_validators l') (offender ev) = Some r'"
    by (simp add: l' bt.get_ins [OF assms(2)])
  with slash_value [OF assms(2) r a out _ _ l'] assms(3,4) show ?thesis by (auto simp: st)
qed

text \<open>
  C26. Tombstoning is permanent: the record of a tombstoned validator is unchanged by any history of
  additions, evidence, unjail requests, downtime slashes and height or configuration changes that
  does not remove the validator.
\<close>

theorem tombstone_is_permanent:
  assumes "ledger_run ops (l, m) = Some (l', m')" "bt_sorted (l_validators l)"
    and "LRemove k \<notin> set ops" "bt_get (l_validators l) k = Some r" "is_tombstoned r"
  shows "bt_get (l_validators l') k = Some r"
  using tombstone_run [OF assms(1)] assms(2-5) by simp

text \<open>
  A validator leaves jail exactly when it is jailed and its delay has elapsed, the test that
  \<open>can_unjail\<close> makes.
\<close>

theorem unjail_iff_can_unjail:
  "fst (ledger_unjail k l m) = Ok () \<longleftrightarrow>
    (\<exists>r. bt_get (l_validators l) k = Some r \<and>
      can_unjail r (current_height l) (unjail_delay (l_config l)))"
  by (auto simp: ledger_unjail_def can_unjail_def Let_def u64_sat_sub_def
      split: option.splits validator_status.splits)

text \<open>
  Slashing a validator whose stake is zero mints a unit: the amount is raised to one, the pool
  receives it, and no stake pays for it.
\<close>

theorem zero_stake_slash_mints:
  assumes "bt_sorted (l_validators l)" "bt_get (l_validators l) (offender ev) = Some r"
    and "stake r = 0" "\<not> is_tombstoned r" "slashing_config_validate (l_config l) = Ok ()"
    and "community_pool l + 1 < 2 ^ 64"
  shows "\<exists>l' m'. ledger_apply_evidence ev l m = Some (Ok (), l', m') \<and>
    ledger_value l' = ledger_value l + 1"
proof -
  let ?f = "fst (evidence_fraction (l_config l) ev)"
  have f: "0 < ?f"
    using assms(5) by (cases ev) (auto simp: slashing_config_validate_def split: if_splits)
  then have amount: "slash_amount_of (stake r) ?f = Some 1"
    by (simp add: slash_amount_of_def assms(3))
  then obtain l' m' where ok: "ledger_apply_evidence ev l m = Some (Ok (), l', m')"
    using apply_evidence_proceeds [OF assms(2,4)] by blast
  from ok obtain r' where l': "l' = l\<lparr>l_validators := bt_insert (offender ev) r' (l_validators l),
           community_pool := u64_add (community_pool l) 1\<rparr>" and "slash_outcome r 1 r'"
    using assms(2) amount by (auto elim!: apply_evidence_ok)
  then have "stake r' = 0" using assms(3) by (auto simp: slash_outcome_def)
  then have "staked l' = staked l"
    using staked_replace [OF assms(1,2), where r' = r'] assms(3) by (simp add: l')
  then show ?thesis
    using ok assms(6) by (simp add: ledger_value_def l' u64_add_exact)
qed

text \<open>
  The global functions kept for old callers do not work together: whatever validators were added
  through \<open>add_validator\<close>, the global \<open>apply_evidence\<close> finds none of them, because every function
  has a manager of its own.
\<close>

theorem legacy_apply_never_slashes:
  "\<exists>g g'. legacy_run ops legacy_start = Some g \<and>
    legacy_apply_evidence ev g = Some (Err SE_ValidatorNotFound, g')"
  using legacy_run_empty [OF legacy_start_empty, of ops] legacy_apply_empty by blast

section \<open>Witnesses\<close>

definition sample_evidence :: evidence where
  "sample_evidence = DoubleVote [9] 4 0 Prevote (Some [1]) None (echo_vote [9] (Some [1])) (echo_vote [9] None)"

definition sample_ledger :: "nat \<Rightarrow> stake_ledger" where
  "sample_ledger s = snd (ledger_add_validator [9] s (snd (ledger_add_validator [8] 50 ledger_default)))"

lemma sample_ledger_eq:
  "sample_ledger s = \<lparr>l_validators = [([8], record_new 50), ([9], record_new s)], community_pool = 0,
     current_height = 0, l_config = default_slashing_config\<rparr>"
  by (simp add: sample_ledger_def ledger_default_def ledger_new_def ledger_add_validator_def)

lemma sample_slash:
  "ledger_apply_evidence sample_evidence (sample_ledger 100) zero_slashing_metrics =
    Some (Ok (), \<lparr>l_validators = [([8], record_new 50),
        ([9], \<lparr>stake = 95, slashed_total = 5, status = Jailed 0 1, jailed_at = Some 0\<rparr>)],
      community_pool = 5, current_height = 0, l_config = default_slashing_config\<rparr>,
      inc_slash ''double_vote'' 5 (inc_jailed (set_community_pool 5 zero_slashing_metrics)))"
  by (simp add: ledger_apply_evidence_def sample_ledger_eq sample_evidence_def record_new_def
      is_tombstoned_def default_slashing_config_def slash_amount_of_def u64_add_def u64_sat_sub_def)

theorem slash_accounts_for_stake_witness:
  "\<exists>l' m' r'. ledger_apply_evidence sample_evidence (sample_ledger 100) zero_slashing_metrics =
      Some (Ok (), l', m') \<and> bt_get (l_validators l') [9] = Some r' \<and>
    ledger_value l' + (if is_tombstoned r' then 100 - (community_pool l' - 0) else 0) = 150"
  using slash_accounts_for_stake [OF sample_slash]
  by (auto simp: sample_slash) (simp_all add: sample_ledger_eq sample_evidence_def get_stake_def
      record_new_def bt_sorted_def ledger_value_def staked_def is_tombstoned_def)

theorem tombstone_is_permanent_witness:
  "\<exists>l' m'. ledger_run [LEvidence sample_evidence, LUnjail [9], LAdd [9] 7]
      ((sample_ledger 100)\<lparr>l_validators := [([9], (record_new 0)\<lparr>status := Tombstoned\<rparr>)]\<rparr>,
       zero_slashing_metrics) = Some (l', m') \<and>
    bt_get (l_validators l') [9] = Some ((record_new 0)\<lparr>status := Tombstoned\<rparr>)"
proof -
  let ?l = "(sample_ledger 100)\<lparr>l_validators := [([9], (record_new 0)\<lparr>status := Tombstoned\<rparr>)]\<rparr>"
  obtain l' m' where run: "ledger_run [LEvidence sample_evidence, LUnjail [9], LAdd [9] 7]
      (?l, zero_slashing_metrics) = Some (l', m')"
    by (simp add: ledger_apply_evidence_def sample_evidence_def is_tombstoned_def ledger_unjail_def)
  have "bt_get (l_validators l') [9] = Some ((record_new 0)\<lparr>status := Tombstoned\<rparr>)"
    by (rule tombstone_is_permanent [OF run]) (simp_all add: bt_sorted_def is_tombstoned_def)
  with run show ?thesis by blast
qed

theorem zero_stake_slash_mints_witness:
  "\<exists>l' m'. ledger_apply_evidence sample_evidence (sample_ledger 0) zero_slashing_metrics =
      Some (Ok (), l', m') \<and> ledger_value l' = ledger_value (sample_ledger 0) + 1"
  by (rule zero_stake_slash_mints [where r = "record_new 0"])
    (simp_all add: sample_ledger_eq sample_evidence_def record_new_def bt_sorted_def is_tombstoned_def
      slashing_config_validate_def default_slashing_config_def)

end
