(* ===== verification/Double_Sign.thy ===== *)
theory Double_Sign
  imports Votes
begin

text \<open>
  The double-sign guard (\<open>src/src/consensus/double_sign.rs\<close>).

  The set of signed keys is a \<open>BTreeSet\<close>, here the strictly ascending list of its elements, so
  that the eviction of the first element is what the code does. The guard persists itself through
  IONAFS and \<open>postcard\<close>: reading and writing a path and encoding and decoding the set are the
  environment \<open>ds_env\<close>, with the file system as a state of its own; the operations take and return
  the pair of guard and file system. Prometheus is not modelled, the atomic counters are.
\<close>

section \<open>Signed keys\<close>

datatype signed_key =
    SK_Proposal height round hash32
  | SK_Vote u8 height round "hash32 option"

fun sk_height_round :: "signed_key \<Rightarrow> height \<times> round" where
  "sk_height_round (SK_Proposal h r _) = (h, r)"
| "sk_height_round (SK_Vote _ h r _) = (h, r)"

fun sk_block_hash :: "signed_key \<Rightarrow> hash32 option" where
  "sk_block_hash (SK_Proposal _ _ b) = Some b"
| "sk_block_hash (SK_Vote _ _ _ b) = b"

fun sk_height :: "signed_key \<Rightarrow> height" where
  "sk_height (SK_Proposal h _ _) = h"
| "sk_height (SK_Vote _ h _ _) = h"

text \<open>The derived order: proposals before votes, then the fields from left to right.\<close>

fun sk_rank :: "signed_key \<Rightarrow> nat \<times> nat \<times> height \<times> round \<times> hash32 option" where
  "sk_rank (SK_Proposal h r b) = (0, 0, h, r, Some b)"
| "sk_rank (SK_Vote vt h r b) = (1, unat vt, h, r, b)"

lemma sk_rank_inj: "sk_rank a = sk_rank b \<longleftrightarrow> a = b"
  by (cases a; cases b) (auto dest: unsigned_word_eqI)

instantiation signed_key :: linorder
begin

definition less_signed_key :: "signed_key \<Rightarrow> signed_key \<Rightarrow> bool" where
  "less_signed_key a b \<longleftrightarrow> sk_rank a < sk_rank b"

definition less_eq_signed_key :: "signed_key \<Rightarrow> signed_key \<Rightarrow> bool" where
  "less_eq_signed_key a b \<longleftrightarrow> sk_rank a \<le> sk_rank b"

instance
  by standard (auto simp: less_signed_key_def less_eq_signed_key_def less_le_not_le sk_rank_inj
      intro: order_trans dest: order_antisym)

end

section \<open>The guard\<close>

record ds_config =
  ds_persist :: bool
  max_entries :: nat
  prune_below :: nat
  verbose_logging :: bool
  ds_enable_metrics :: bool

definition default_ds_config :: ds_config where
  "default_ds_config = \<lparr>ds_persist = True, max_entries = 10000, prune_below = 1000,
     verbose_logging = False, ds_enable_metrics = False\<rparr>"

datatype ds_error =
    Conflict height round
  | Io string
  | Serialization string
  | DS_Config string
  | DS_Metrics string
  | IntegerOverflow

record ds_metrics =
  ds_checks :: nat
  ds_conflicts :: nat
  ds_records :: nat
  ds_loads :: nat
  ds_persists :: nat
  ds_pruned :: nat

definition zero_ds_metrics :: ds_metrics where
  "zero_ds_metrics = \<lparr>ds_checks = 0, ds_conflicts = 0, ds_records = 0, ds_loads = 0,
     ds_persists = 0, ds_pruned = 0\<rparr>"

record ds_guard =
  signed_set :: "signed_key list"
  ds_path :: string
  ds_cfg :: ds_config
  ds_counters :: ds_metrics
  highest_height :: height

definition inc_checks :: "ds_guard \<Rightarrow> ds_guard" where
  "inc_checks g = g\<lparr>ds_counters := (ds_counters g)\<lparr>ds_checks := u64_add (ds_checks (ds_counters g)) 1\<rparr>\<rparr>"

definition inc_conflicts :: "ds_guard \<Rightarrow> ds_guard" where
  "inc_conflicts g =
     g\<lparr>ds_counters := (ds_counters g)\<lparr>ds_conflicts := u64_add (ds_conflicts (ds_counters g)) 1\<rparr>\<rparr>"

definition inc_records :: "ds_guard \<Rightarrow> ds_guard" where
  "inc_records g =
     g\<lparr>ds_counters := (ds_counters g)\<lparr>ds_records := u64_add (ds_records (ds_counters g)) 1\<rparr>\<rparr>"

definition inc_loads :: "ds_guard \<Rightarrow> ds_guard" where
  "inc_loads g = g\<lparr>ds_counters := (ds_counters g)\<lparr>ds_loads := u64_add (ds_loads (ds_counters g)) 1\<rparr>\<rparr>"

definition inc_persists :: "ds_guard \<Rightarrow> ds_guard" where
  "inc_persists g =
     g\<lparr>ds_counters := (ds_counters g)\<lparr>ds_persists := u64_add (ds_persists (ds_counters g)) 1\<rparr>\<rparr>"

definition inc_pruned :: "nat \<Rightarrow> ds_guard \<Rightarrow> ds_guard" where
  "inc_pruned n g =
     g\<lparr>ds_counters := (ds_counters g)\<lparr>ds_pruned := u64_add (ds_pruned (ds_counters g)) n\<rparr>\<rparr>"

record 'fs ds_env =
  env_read :: "'fs \<Rightarrow> string \<Rightarrow> bytes option"
  env_write :: "'fs \<Rightarrow> string \<Rightarrow> bytes \<Rightarrow> 'fs"
  env_ser :: "signed_key list \<Rightarrow> (string, bytes) result"
  env_de :: "bytes \<Rightarrow> (string, signed_key list) result"

type_synonym 'fs guarded = "ds_guard \<times> 'fs"

definition ds_load :: "'fs ds_env \<Rightarrow> 'fs guarded \<Rightarrow> (ds_error, unit) result \<times> 'fs guarded" where
  "ds_load env s =
     (let (g, fs) = s in
      case env_read env fs (ds_path g) of
        None \<Rightarrow> (Ok (), g, fs)
      | Some data \<Rightarrow>
          (case env_de env data of
             Inl e \<Rightarrow> (Err (Serialization e), g, fs)
           | Inr keys \<Rightarrow>
               let g1 = inc_loads (g\<lparr>signed_set := keys\<rparr>) in
               (Ok (), if keys = [] then g1 else g1\<lparr>highest_height := sk_height (last keys)\<rparr>, fs)))"

definition ds_persist_state :: "'fs ds_env \<Rightarrow> 'fs guarded \<Rightarrow> (ds_error, unit) result \<times> 'fs guarded" where
  "ds_persist_state env s =
     (let (g, fs) = s in
      if \<not> ds_persist (ds_cfg g) then (Ok (), g, fs)
      else
        case env_ser env (signed_set g) of
          Inl e \<Rightarrow> (Err (Serialization e), g, fs)
        | Inr data \<Rightarrow> (Ok (), inc_persists g, env_write env fs (ds_path g) data))"

definition ds_with_config :: "'fs ds_env \<Rightarrow> string \<Rightarrow> ds_config \<Rightarrow> 'fs \<Rightarrow> 'fs guarded" where
  "ds_with_config env path cfg fs =
     (let g = \<lparr>signed_set = [], ds_path = path, ds_cfg = cfg, ds_counters = zero_ds_metrics,
               highest_height = 0\<rparr>
      in if ds_persist cfg then snd (ds_load env (g, fs)) else (g, fs))"

definition ds_new :: "'fs ds_env \<Rightarrow> string \<Rightarrow> 'fs \<Rightarrow> 'fs guarded" where
  "ds_new env path fs = ds_with_config env path default_ds_config fs"

definition ds_reload :: "'fs ds_env \<Rightarrow> 'fs guarded \<Rightarrow> (ds_error, unit) result \<times> 'fs guarded" where
  "ds_reload env s = ds_load env s"

definition entry_count :: "ds_guard \<Rightarrow> nat" where
  "entry_count g = length (signed_set g)"

definition ds_prune :: "'fs ds_env \<Rightarrow> height \<Rightarrow> 'fs guarded \<Rightarrow> nat \<times> 'fs guarded" where
  "ds_prune env now s =
     (let (g, fs) = s in
      if prune_below (ds_cfg g) = 0 then (0, g, fs)
      else
        let threshold = u64_sat_sub now (prune_below (ds_cfg g));
            kept = filter (\<lambda>k. sk_height k \<ge> threshold) (signed_set g);
            pruned = length (signed_set g) - length kept;
            g1 = g\<lparr>signed_set := kept\<rparr>
        in if pruned > 0 then
             (let g2 = inc_pruned pruned g1 in
              (pruned, if ds_persist (ds_cfg g2) then snd (ds_persist_state env (g2, fs)) else (g2, fs)))
           else (pruned, g1, fs))"

fun evict_to :: "nat \<Rightarrow> signed_key list \<Rightarrow> signed_key list" where
  "evict_to n [] = []"
| "evict_to n (k # ks) = (if length (k # ks) > n then evict_to n ks else k # ks)"

definition enforce_max_entries :: "ds_guard \<Rightarrow> ds_guard" where
  "enforce_max_entries g =
     (if max_entries (ds_cfg g) = 0 then g
      else g\<lparr>signed_set := evict_to (max_entries (ds_cfg g)) (signed_set g)\<rparr>)"

text \<open>The height bookkeeping at the start of both checks.\<close>

definition note_height :: "'fs ds_env \<Rightarrow> height \<Rightarrow> 'fs guarded \<Rightarrow> 'fs guarded" where
  "note_height env h s =
     (let (g, fs) = s in
      if h > highest_height g then
        (let g1 = g\<lparr>highest_height := h\<rparr> in
         if prune_below (ds_cfg g1) > 0 then snd (ds_prune env h (g1, fs)) else (g1, fs))
      else (g, fs))"

fun conflicting_proposal :: "height \<Rightarrow> round \<Rightarrow> hash32 \<Rightarrow> signed_key \<Rightarrow> bool" where
  "conflicting_proposal h r b (SK_Proposal h' r' b') = (h' = h \<and> r' = r \<and> b' \<noteq> b)"
| "conflicting_proposal h r b (SK_Vote _ _ _ _) = False"

fun conflicting_vote :: "vote_type \<Rightarrow> height \<Rightarrow> round \<Rightarrow> hash32 option \<Rightarrow> signed_key \<Rightarrow> bool" where
  "conflicting_vote vt h r b (SK_Proposal _ _ _) = False"
| "conflicting_vote vt h r b (SK_Vote vt' h' r' b') =
     (vt' = vote_type_as_u8 vt \<and> h' = h \<and> r' = r \<and> b' \<noteq> b)"

definition check_proposal ::
    "'fs ds_env \<Rightarrow> height \<Rightarrow> round \<Rightarrow> hash32 \<Rightarrow> 'fs guarded \<Rightarrow> (ds_error, unit) result \<times> 'fs guarded" where
  "check_proposal env h r b s =
     (let (g, fs) = note_height env h (inc_checks (fst s), snd s) in
      if list_ex (conflicting_proposal h r b) (signed_set g) then (Err (Conflict h r), inc_conflicts g, fs)
      else (Ok (), g, fs))"

definition check_vote ::
    "'fs ds_env \<Rightarrow> vote_type \<Rightarrow> height \<Rightarrow> round \<Rightarrow> hash32 option \<Rightarrow> 'fs guarded \<Rightarrow>
      (ds_error, unit) result \<times> 'fs guarded" where
  "check_vote env vt h r b s =
     (let (g, fs) = note_height env h (inc_checks (fst s), snd s) in
      if list_ex (conflicting_vote vt h r b) (signed_set g) then (Err (Conflict h r), inc_conflicts g, fs)
      else (Ok (), g, fs))"

definition record_key :: "'fs ds_env \<Rightarrow> signed_key \<Rightarrow> 'fs guarded \<Rightarrow> (ds_error, unit) result \<times> 'fs guarded" where
  "record_key env k s =
     (let (g, fs) = s;
          g1 = enforce_max_entries (inc_records (g\<lparr>signed_set := insort_insert k (signed_set g)\<rparr>))
      in if ds_persist (ds_cfg g1) then ds_persist_state env (g1, fs) else (Ok (), g1, fs))"

definition record_proposal ::
    "'fs ds_env \<Rightarrow> height \<Rightarrow> round \<Rightarrow> hash32 \<Rightarrow> 'fs guarded \<Rightarrow> (ds_error, unit) result \<times> 'fs guarded" where
  "record_proposal env h r b s = record_key env (SK_Proposal h r b) s"

definition record_vote ::
    "'fs ds_env \<Rightarrow> vote_type \<Rightarrow> height \<Rightarrow> round \<Rightarrow> hash32 option \<Rightarrow> 'fs guarded \<Rightarrow>
      (ds_error, unit) result \<times> 'fs guarded" where
  "record_vote env vt h r b s = record_key env (SK_Vote (vote_type_as_u8 vt) h r b) s"

definition ds_reset :: "'fs ds_env \<Rightarrow> 'fs guarded \<Rightarrow> (ds_error, unit) result \<times> 'fs guarded" where
  "ds_reset env s =
     (let (g, fs) = s; g1 = g\<lparr>signed_set := [], highest_height := 0\<rparr>
      in if ds_persist (ds_cfg g1) then ds_persist_state env (g1, fs) else (Ok (), g1, fs))"

definition has_proposal :: "ds_guard \<Rightarrow> height \<Rightarrow> round \<Rightarrow> bool" where
  "has_proposal g h r =
     list_ex (\<lambda>k. case k of SK_Proposal h' r' _ \<Rightarrow> h' = h \<and> r' = r | _ \<Rightarrow> False) (signed_set g)"

definition has_vote :: "ds_guard \<Rightarrow> vote_type \<Rightarrow> height \<Rightarrow> round \<Rightarrow> bool" where
  "has_vote g vt h r =
     list_ex (\<lambda>k. case k of SK_Vote vt' h' r' _ \<Rightarrow> vt' = vote_type_as_u8 vt \<and> h' = h \<and> r' = r | _ \<Rightarrow> False)
       (signed_set g)"

fun find_map :: "('a \<Rightarrow> 'b option) \<Rightarrow> 'a list \<Rightarrow> 'b option" where
  "find_map f [] = None"
| "find_map f (x # xs) = (case f x of Some y \<Rightarrow> Some y | None \<Rightarrow> find_map f xs)"

definition proposal_block :: "ds_guard \<Rightarrow> height \<Rightarrow> round \<Rightarrow> hash32 option" where
  "proposal_block g h r =
     find_map (\<lambda>k. case k of SK_Proposal h' r' b \<Rightarrow> if h' = h \<and> r' = r then Some b else None | _ \<Rightarrow> None)
       (signed_set g)"

definition vote_block :: "ds_guard \<Rightarrow> vote_type \<Rightarrow> height \<Rightarrow> round \<Rightarrow> hash32 option option" where
  "vote_block g vt h r =
     find_map (\<lambda>k. case k of
         SK_Vote vt' h' r' b \<Rightarrow> if vt' = vote_type_as_u8 vt \<and> h' = h \<and> r' = r then Some b else None
       | _ \<Rightarrow> None) (signed_set g)"

definition export_state :: "'fs ds_env \<Rightarrow> ds_guard \<Rightarrow> (ds_error, bytes) result" where
  "export_state env g =
     (case env_ser env (signed_set g) of Inl e \<Rightarrow> Err (Serialization e) | Inr d \<Rightarrow> Ok d)"

definition import_state :: "'fs ds_env \<Rightarrow> bytes \<Rightarrow> 'fs guarded \<Rightarrow> (ds_error, unit) result \<times> 'fs guarded" where
  "import_state env data s =
     (let (g, fs) = s in
      case env_de env data of
        Inl e \<Rightarrow> (Err (Serialization e), g, fs)
      | Inr keys \<Rightarrow>
          let g1 = g\<lparr>signed_set := keys\<rparr>
          in if ds_persist (ds_cfg g1) then ds_persist_state env (g1, fs) else (Ok (), g1, fs))"

section \<open>Signing under the guard\<close>

text \<open>The calling convention: check, sign, record. A request is signed when the check passes;
  the result of recording does not take a signature back.\<close>

datatype sign_request = Req_Proposal height round hash32 | Req_Vote vote_type height round "hash32 option"

fun req_key :: "sign_request \<Rightarrow> signed_key" where
  "req_key (Req_Proposal h r b) = SK_Proposal h r b"
| "req_key (Req_Vote vt h r b) = SK_Vote (vote_type_as_u8 vt) h r b"

fun check_request :: "'fs ds_env \<Rightarrow> sign_request \<Rightarrow> 'fs guarded \<Rightarrow> (ds_error, unit) result \<times> 'fs guarded" where
  "check_request env (Req_Proposal h r b) s = check_proposal env h r b s"
| "check_request env (Req_Vote vt h r b) s = check_vote env vt h r b s"

fun record_request :: "'fs ds_env \<Rightarrow> sign_request \<Rightarrow> 'fs guarded \<Rightarrow> (ds_error, unit) result \<times> 'fs guarded" where
  "record_request env (Req_Proposal h r b) s = record_proposal env h r b s"
| "record_request env (Req_Vote vt h r b) s = record_vote env vt h r b s"

fun sign_all :: "'fs ds_env \<Rightarrow> sign_request list \<Rightarrow> 'fs guarded \<Rightarrow> sign_request list" where
  "sign_all env [] s = []"
| "sign_all env (q # qs) s =
     (let (c, s1) = check_request env q s in
      if is_ok c then q # sign_all env qs (snd (record_request env q s1)) else sign_all env qs s1)"

fun keys_conflict :: "signed_key \<Rightarrow> signed_key \<Rightarrow> bool" where
  "keys_conflict (SK_Proposal h r b) (SK_Proposal h' r' b') = (h = h' \<and> r = r' \<and> b \<noteq> b')"
| "keys_conflict (SK_Vote vt h r b) (SK_Vote vt' h' r' b') = (vt = vt' \<and> h = h' \<and> r = r' \<and> b \<noteq> b')"
| "keys_conflict _ _ = False"

lemma keys_conflict_sym: "keys_conflict a b = keys_conflict b a"
  by (cases a; cases b) auto

lemma keys_conflict_height: "keys_conflict a b \<Longrightarrow> sk_height a = sk_height b"
  by (cases a; cases b) auto

lemma not_keys_conflict_same [simp]: "\<not> keys_conflict a a"
  by (cases a) auto

subsection \<open>What the operations do to the set\<close>

lemma counters_keep [simp]:
  "signed_set (inc_checks g) = signed_set g" "highest_height (inc_checks g) = highest_height g"
  "signed_set (inc_conflicts g) = signed_set g" "highest_height (inc_conflicts g) = highest_height g"
  "signed_set (inc_records g) = signed_set g" "highest_height (inc_records g) = highest_height g"
  "signed_set (inc_persists g) = signed_set g" "highest_height (inc_persists g) = highest_height g"
  "signed_set (inc_pruned n g) = signed_set g" "highest_height (inc_pruned n g) = highest_height g"
  "ds_cfg (inc_checks g) = ds_cfg g" "ds_cfg (inc_conflicts g) = ds_cfg g" "ds_cfg (inc_records g) = ds_cfg g"
  "ds_cfg (inc_persists g) = ds_cfg g" "ds_cfg (inc_pruned n g) = ds_cfg g"
  by (simp_all add: inc_checks_def inc_conflicts_def inc_records_def inc_persists_def inc_pruned_def)

lemma persist_keeps [simp]:
  "signed_set (fst (snd (ds_persist_state env s))) = signed_set (fst s)"
  "highest_height (fst (snd (ds_persist_state env s))) = highest_height (fst s)"
  "ds_cfg (fst (snd (ds_persist_state env s))) = ds_cfg (fst s)"
  by (cases s; simp add: ds_persist_state_def split: sum.splits)+

lemma prune_effect:
  "signed_set (fst (snd (ds_prune env now s))) =
     (if prune_below (ds_cfg (fst s)) = 0 then signed_set (fst s)
      else filter (\<lambda>k. sk_height k \<ge> u64_sat_sub now (prune_below (ds_cfg (fst s)))) (signed_set (fst s)))"
  "highest_height (fst (snd (ds_prune env now s))) = highest_height (fst s)"
  "ds_cfg (fst (snd (ds_prune env now s))) = ds_cfg (fst s)"
  by (cases s; simp add: ds_prune_def Let_def)+

lemma note_height_effect:
  "highest_height (fst (note_height env h s)) = max h (highest_height (fst s))"
  "ds_cfg (fst (note_height env h s)) = ds_cfg (fst s)"
  by (cases s; simp add: note_height_def prune_effect Let_def max_def)+

lemma note_height_low: "h \<le> highest_height (fst s) \<Longrightarrow> note_height env h s = s"
  by (cases s) (simp add: note_height_def)

lemma check_request_effect:
  assumes "sk_height (req_key q) = h"
  shows "signed_set (fst (snd (check_request env q s))) =
      signed_set (fst (note_height env h (inc_checks (fst s), snd s)))"
    "highest_height (fst (snd (check_request env q s))) = max h (highest_height (fst s))"
    "ds_cfg (fst (snd (check_request env q s))) = ds_cfg (fst s)"
  using assms note_height_effect [of env h "(inc_checks (fst s), snd s)"]
  by (cases q; simp add: check_proposal_def check_vote_def split_def Let_def)+

lemma check_request_ok:
  "is_ok (fst (check_request env q s)) \<longleftrightarrow>
    (\<forall>k \<in> set (signed_set (fst (snd (check_request env q s)))). \<not> keys_conflict (req_key q) k)"
proof (cases q)
  case (Req_Proposal h r b)
  have "conflicting_proposal h r b k = keys_conflict (SK_Proposal h r b) k" for k by (cases k) auto
  then show ?thesis by (simp add: Req_Proposal check_proposal_def split_def Let_def list_ex_iff)
next
  case (Req_Vote vt h r b)
  have "conflicting_vote vt h r b k = keys_conflict (SK_Vote (vote_type_as_u8 vt) h r b) k" for k
    by (cases k) auto
  then show ?thesis by (simp add: Req_Vote check_vote_def split_def Let_def list_ex_iff)
qed

lemma record_request_key: "record_request env q s = record_key env (req_key q) s"
  by (cases q) (simp_all add: record_proposal_def record_vote_def)

lemma enforce_keeps [simp]:
  "highest_height (enforce_max_entries g) = highest_height g" "ds_cfg (enforce_max_entries g) = ds_cfg g"
  by (simp_all add: enforce_max_entries_def)

lemma record_key_effect:
  "signed_set (fst (snd (record_key env k s))) =
     (if max_entries (ds_cfg (fst s)) = 0 then insort_insert k (signed_set (fst s))
      else evict_to (max_entries (ds_cfg (fst s))) (insort_insert k (signed_set (fst s))))"
  "highest_height (fst (snd (record_key env k s))) = highest_height (fst s)"
  "ds_cfg (fst (snd (record_key env k s))) = ds_cfg (fst s)"
  by (cases s; simp add: record_key_def Let_def; simp add: enforce_max_entries_def)+

subsection \<open>No double signing\<close>

text \<open>The keys signed so far, none above the highest height, and those at it still in the set.\<close>

definition covers :: "signed_key set \<Rightarrow> ds_guard \<Rightarrow> bool" where
  "covers hist g \<longleftrightarrow> max_entries (ds_cfg g) = 0 \<and> (\<forall>k \<in> hist. sk_height k \<le> highest_height g) \<and>
     (\<forall>k \<in> hist. sk_height k = highest_height g \<longrightarrow> k \<in> set (signed_set g))"

lemma covers_check:
  assumes "covers hist (fst s)" "highest_height (fst s) \<le> sk_height (req_key q)"
  shows "covers hist (fst (snd (check_request env q s)))"
proof (cases "sk_height (req_key q) = highest_height (fst s)")
  case True
  then have "note_height env (sk_height (req_key q)) (inc_checks (fst s), snd s) = (inc_checks (fst s), snd s)"
    by (intro note_height_low) simp
  then show ?thesis
    using assms check_request_effect [of q "sk_height (req_key q)" env s] True by (simp add: covers_def)
next
  case False
  with assms(2) have "highest_height (fst s) < sk_height (req_key q)" by simp
  then show ?thesis
    using assms(1) check_request_effect [of q "sk_height (req_key q)" env s]
    by (fastforce simp: covers_def)
qed

lemma covers_record:
  assumes "covers hist (fst s)" "sk_height k = highest_height (fst s)"
  shows "covers (insert k hist) (fst (snd (record_key env k s)))"
  using assms by (auto simp: covers_def record_key_effect set_insort_insert)

lemma sign_all_sound:
  assumes "covers hist (fst s)" "sorted (map (\<lambda>q. sk_height (req_key q)) qs)"
    "\<forall>q \<in> set qs. highest_height (fst s) \<le> sk_height (req_key q)"
  shows "(\<forall>q \<in> set (sign_all env qs s). \<forall>k \<in> hist. \<not> keys_conflict (req_key q) k) \<and>
    (\<forall>q \<in> set (sign_all env qs s). \<forall>q' \<in> set (sign_all env qs s). \<not> keys_conflict (req_key q) (req_key q'))"
  using assms
proof (induction qs arbitrary: hist s)
  case (Cons q qs)
  let ?h = "sk_height (req_key q)" and ?s1 = "snd (check_request env q s)"
  have cov: "covers hist (fst ?s1)" by (rule covers_check) (use Cons.prems in auto)
  have high: "highest_height (fst ?s1) = ?h"
    using check_request_effect(2) [of q ?h env s] Cons.prems(3) by simp
  have later: "\<forall>q \<in> set qs. ?h \<le> sk_height (req_key q)" "sorted (map (\<lambda>q. sk_height (req_key q)) qs)"
    using Cons.prems(2) by auto
  show ?case
  proof (cases "is_ok (fst (check_request env q s))")
    case True
    have noconf: "\<not> keys_conflict (req_key q) k" if "k \<in> hist" for k
    proof
      assume c: "keys_conflict (req_key q) k"
      then have "k \<in> set (signed_set (fst ?s1))"
        using cov that high keys_conflict_height [OF c] by (simp add: covers_def)
      with True c show False by (simp add: check_request_ok)
    qed
    let ?s2 = "snd (record_request env q ?s1)"
    have "covers (insert (req_key q) hist) (fst ?s2)"
      unfolding record_request_key by (rule covers_record [OF cov]) (simp add: high)
    moreover have "highest_height (fst ?s2) = ?h" by (simp add: record_request_key record_key_effect high)
    ultimately have IH: "(\<forall>q' \<in> set (sign_all env qs ?s2). \<forall>k \<in> insert (req_key q) hist. \<not> keys_conflict (req_key q') k) \<and>
        (\<forall>a \<in> set (sign_all env qs ?s2). \<forall>b \<in> set (sign_all env qs ?s2). \<not> keys_conflict (req_key a) (req_key b))"
      using later by (intro Cons.IH) auto
    have "sign_all env (q # qs) s = q # sign_all env qs ?s2"
      using True by (simp add: split_def)
    then show ?thesis using IH noconf keys_conflict_sym by auto
  next
    case False
    then have "sign_all env (q # qs) s = sign_all env qs ?s1" by (simp add: split_def)
    moreover have "(\<forall>q \<in> set (sign_all env qs ?s1). \<forall>k \<in> hist. \<not> keys_conflict (req_key q) k) \<and>
        (\<forall>a \<in> set (sign_all env qs ?s1). \<forall>b \<in> set (sign_all env qs ?s1). \<not> keys_conflict (req_key a) (req_key b))"
      using later high by (intro Cons.IH [OF cov]) auto
    ultimately show ?thesis by simp
  qed
qed simp

definition conflict_free :: "signed_key set \<Rightarrow> bool" where
  "conflict_free ks \<longleftrightarrow> (\<forall>k \<in> ks. \<forall>k' \<in> ks. \<not> keys_conflict k k')"

text \<open>The keys a guard holds, up to its highest height.\<close>

definition held :: "ds_guard \<Rightarrow> signed_key set" where
  "held g = {k \<in> set (signed_set g). sk_height k \<le> highest_height g}"

subsection \<open>Eviction\<close>

lemma evict_to_drop: "evict_to n ks = drop (length ks - n) ks"
  by (induction ks) (auto simp: Suc_diff_le not_less)

lemma proposal_before_vote: "SK_Proposal h r b < SK_Vote vt h' r' b'"
  by (simp add: less_signed_key_def)

lemma insort_proposal_votes:
  assumes "\<forall>k \<in> set ks. \<exists>vt h r b. k = SK_Vote vt h r b"
  shows "insort_insert (SK_Proposal h r b) ks = SK_Proposal h r b # ks"
proof -
  have "SK_Proposal h r b \<notin> set ks" using assms by force
  moreover have "\<forall>k \<in> set ks. SK_Proposal h r b \<le> k"
    using assms proposal_before_vote by (metis less_imp_le)
  ultimately show ?thesis
    by (cases ks) (auto simp: insort_insert_key_def)
qed

section \<open>Properties\<close>

text \<open>
  With an unbounded set and requests in order of height, the guard prevents double signing: the
  messages it lets through never conflict with each other nor with those it already held, whatever
  is pruned and whatever the file system does.
\<close>

theorem guard_prevents_double_sign:
  assumes "max_entries (ds_cfg (fst s)) = 0" "conflict_free (held (fst s))"
    and "sorted (highest_height (fst s) # map (\<lambda>q. sk_height (req_key q)) qs)"
  shows "conflict_free (held (fst s) \<union> req_key ` set (sign_all env qs s))"
proof -
  have cov: "covers (held (fst s)) (fst s)" using assms(1) by (auto simp: covers_def held_def)
  have "\<forall>q \<in> set qs. highest_height (fst s) \<le> sk_height (req_key q)"
    "sorted (map (\<lambda>q. sk_height (req_key q)) qs)"
    using assms(3) by auto
  then show ?thesis
    using sign_all_sound [OF cov, of qs env] assms(2) keys_conflict_sym
    unfolding conflict_free_def by auto
qed

text \<open>
  A bounded set loses proposals first: when the set is full of votes, recording a proposal evicts
  that very proposal, and a conflicting proposal for the same height and round passes the check.
\<close>

theorem full_guard_forgets_proposal:
  assumes "\<forall>k \<in> set (signed_set g). \<exists>vt h r b. k = SK_Vote vt h r b"
    and "length (signed_set g) = max_entries (ds_cfg g)" "0 < max_entries (ds_cfg g)"
    and "h \<le> highest_height g"
  shows "fst (check_proposal env h r b' (snd (record_proposal env h r b (g, fs)))) = Ok ()"
proof -
  let ?s = "snd (record_proposal env h r b (g, fs))"
  have "signed_set (fst ?s) = signed_set g"
    using assms(2,3) by (simp add: record_proposal_def record_key_effect evict_to_drop
        insort_proposal_votes [OF assms(1)])
  then have votes: "\<forall>k \<in> set (signed_set (fst ?s)). \<not> conflicting_proposal h r b' k"
    using assms(1) by force
  have "highest_height (fst ?s) = highest_height g" by (simp add: record_proposal_def record_key_effect)
  then have "note_height env h (inc_checks (fst ?s), snd ?s) = (inc_checks (fst ?s), snd ?s)"
    using assms(4) by (intro note_height_low) simp
  then show ?thesis using votes by (auto simp: check_proposal_def list_ex_iff)
qed

section \<open>Witnesses\<close>

text \<open>A file system of one file, and an encoding of two sets.\<close>

definition one_file_env :: "(bytes option) ds_env" where
  "one_file_env = \<lparr>env_read = (\<lambda>fs p. fs), env_write = (\<lambda>fs p d. Some d),
     env_ser = (\<lambda>ks. if ks = [] then Inr [0] else if ks = [SK_Proposal 5 0 [1]] then Inr [1] else Inl ''size''),
     env_de = (\<lambda>d. if d = [0] then Inr [] else if d = [1] then Inr [SK_Proposal 5 0 [1]] else Inl ''bytes'')\<rparr>"

definition sample_guard :: "bool \<Rightarrow> nat \<Rightarrow> ds_guard" where
  "sample_guard p n = \<lparr>signed_set = [], ds_path = ''guard'',
     ds_cfg = default_ds_config\<lparr>ds_persist := p, max_entries := n\<rparr>,
     ds_counters = zero_ds_metrics, highest_height = 0\<rparr>"

theorem guard_prevents_double_sign_witness:
  "conflict_free (held (sample_guard True 0) \<union> req_key ` set (sign_all one_file_env
     [Req_Vote Prevote 5 0 (Some [1]), Req_Vote Prevote 5 0 None, Req_Proposal 5 0 [1]]
     (sample_guard True 0, None)))"
  using guard_prevents_double_sign [of "(sample_guard True 0, None)"
      "[Req_Vote Prevote 5 0 (Some [1]), Req_Vote Prevote 5 0 None, Req_Proposal 5 0 [1]]" one_file_env]
  by (simp add: sample_guard_def conflict_free_def held_def)

theorem full_guard_forgets_proposal_witness:
  "fst (check_proposal one_file_env 5 0 [2] (snd (record_proposal one_file_env 5 0 [1]
     ((sample_guard False 1)\<lparr>signed_set := [SK_Vote 0 5 0 (Some [1])], highest_height := 5\<rparr>, None)))) = Ok ()"
  by (rule full_guard_forgets_proposal) (simp_all add: sample_guard_def)

end
