(* ===== verification/Engine.thy ===== *)
theory Engine
  imports Quorum Messages Slashing Double_Sign
begin

text \<open>
  The consensus engine (\<open>src/src/consensus/engine.rs\<close>).

  An engine lives in a \<open>world\<close>: the engine itself, the block store, the messages handed to the
  outbox so far, and the file system the double-sign guard writes to. What the engine takes from
  elsewhere is the environment \<open>engine_env\<close>: the signature verifier and the signer, the block
  store's \<open>get\<close> and \<open>put\<close>, block identifiers, the address derivation, \<open>build_block\<close> and
  \<open>verify_block_with_vset\<close> of the execution layer and \<open>next_base_fee\<close>. The application state
  is opaque. \<open>mempool_drain\<close> is a function argument, as in the code.

  Readings of calls whose types do not match their definitions: \<open>proposer_for(..).pk\<close> compares the
  key of the proposer when there is one; \<open>tally.best()\<close> gives an option, \<open>None\<close> for no votes;
  \<open>power_of\<close> of a member is its power; the guard's methods update the guard;
  \<open>stakes.apply_evidence\<close> is the ledger's operation with the engine's slashing metrics and its result
  ignored. \<open>ConsensusError::Config\<close> is a constructor of the error type. A panic of the ledger's
  division is \<open>None\<close> in \<open>on_vote\<close> and \<open>on_message\<close>. Logging and Prometheus are not modelled.
\<close>

section \<open>Errors, steps, certificates, configuration\<close>

datatype consensus_error =
    BadSignature
  | UnknownValidator
  | BadStep
  | Execution string
  | DoubleSignConflict
  | QuorumNotReached
  | MaxRoundsExceeded
  | NoProposer
  | Con_Io string
  | Con_Metrics string
  | Con_IntegerOverflow
  | Con_Config string

datatype step = S_Propose | S_Prevote | S_Precommit | S_Commit

record commit_certificate =
  cc_height :: height
  cc_block_id :: hash32
  precommits :: "vote list"

fun verify_precommits ::
    "verifier \<Rightarrow> validator_set \<Rightarrow> vote list \<Rightarrow> nat \<Rightarrow> (consensus_error, nat) result" where
  "verify_precommits verify vset [] p = Ok p"
| "verify_precommits verify vset (v # vs) p =
     (if \<not> contains vset (v_voter v) then Err UnknownValidator
      else
        case verify (v_voter v) (vote_sign_bytes (v_type v) (v_height v) (v_round v) (v_block_id v)) (v_signature v) of
          Inl _ \<Rightarrow> Err BadSignature
        | Inr _ \<Rightarrow> verify_precommits verify vset vs
            (u64_sat_add p (case power_of vset (v_voter v) of Some w \<Rightarrow> w | None \<Rightarrow> 0)))"

definition certificate_verify ::
    "verifier \<Rightarrow> validator_set \<Rightarrow> commit_certificate \<Rightarrow> (consensus_error, unit) result" where
  "certificate_verify verify vset cert =
     (let q = quorum_threshold (total_power vset) in
      case verify_precommits verify vset (precommits cert) 0 of
        Inl e \<Rightarrow> Err e
      | Inr p \<Rightarrow> if p < q then Err QuorumNotReached else Ok ())"

record engine_config =
  propose_timeout_ms :: nat
  prevote_timeout_ms :: nat
  precommit_timeout_ms :: nat
  max_rounds :: nat
  max_txs_per_block :: nat
  gas_target :: nat
  initial_base_fee_per_gas :: nat
  include_block_in_proposal :: bool
  fast_quorum :: bool
  ec_enable_metrics :: bool

definition default_engine_config :: engine_config where
  "default_engine_config =
     \<lparr>propose_timeout_ms = 300, prevote_timeout_ms = 200, precommit_timeout_ms = 200, max_rounds = 50,
      max_txs_per_block = 4096, gas_target = 43000000, initial_base_fee_per_gas = 1,
      include_block_in_proposal = True, fast_quorum = True, ec_enable_metrics = False\<rparr>"

definition engine_config_validate :: "engine_config \<Rightarrow> (string, unit) result" where
  "engine_config_validate c =
     (if propose_timeout_ms c = 0 then Err ''propose_timeout_ms must be > 0''
      else if prevote_timeout_ms c = 0 then Err ''prevote_timeout_ms must be > 0''
      else if precommit_timeout_ms c = 0 then Err ''precommit_timeout_ms must be > 0''
      else if max_rounds c = 0 then Err ''max_rounds must be > 0''
      else if max_txs_per_block c = 0 then Err ''max_txs_per_block must be > 0''
      else if gas_target c = 0 then Err ''gas_target must be > 0''
      else if initial_base_fee_per_gas c = 0 then Err ''initial_base_fee_per_gas must be > 0''
      else Ok ())"

section \<open>State\<close>

type_synonym vote_table = "(round, (vote_type, (bytes, vote) btree_map) btree_map) btree_map"
type_synonym vote_key = "bytes \<times> height \<times> round \<times> vote_type"

record consensus_state =
  cs_height :: height
  cs_round :: round
  cs_step :: step
  locked_round :: "round option"
  locked_value :: "hash32 option"
  valid_round :: "round option"
  valid_value :: "hash32 option"
  cs_proposal :: "proposal option"
  cs_proposal_block :: "block option"
  votes :: vote_table
  vote_index :: "(vote_key, hash32 option \<times> vote) btree_map"
  decided :: "commit_certificate option"

definition state_new :: "height \<Rightarrow> consensus_state" where
  "state_new h =
     \<lparr>cs_height = h, cs_round = 0, cs_step = S_Propose, locked_round = None, locked_value = None,
      valid_round = None, valid_value = None, cs_proposal = None, cs_proposal_block = None,
      votes = [], vote_index = [], decided = None\<rparr>"

definition state_reset :: "height \<Rightarrow> consensus_state \<Rightarrow> consensus_state" where
  "state_reset h s = state_new h"

definition state_advance_round :: "consensus_state \<Rightarrow> consensus_state" where
  "state_advance_round s =
     s\<lparr>cs_round := u32_sat_add (cs_round s) 1, cs_proposal := None, cs_proposal_block := None,
       cs_step := S_Propose\<rparr>"

record consensus_metrics =
  proposals_broadcast :: nat
  proposals_received :: nat
  votes_broadcast :: nat
  votes_received :: nat
  blocks_committed :: nat
  round_advancements :: nat
  double_sign_evidence :: nat
  block_requests :: nat

definition zero_consensus_metrics :: consensus_metrics where
  "zero_consensus_metrics = \<lparr>proposals_broadcast = 0, proposals_received = 0, votes_broadcast = 0,
     votes_received = 0, blocks_committed = 0, round_advancements = 0, double_sign_evidence = 0,
     block_requests = 0\<rparr>"

record 'kv engine =
  e_cfg :: engine_config
  e_vset :: validator_set
  e_state :: consensus_state
  prev_block_id :: hash32
  app_state :: 'kv
  stakes :: stake_ledger
  base_fee_per_gas :: nat
  e_guard :: "ds_guard option"
  step_elapsed_ms :: nat
  e_metrics :: consensus_metrics
  e_slash_metrics :: slashing_metrics

datatype 'kv out_event =
    Broadcast consensus_msg
  | RequestBlock hash32
  | OnCommit commit_certificate block 'kv nat "receipt list"

record ('kv, 'st, 'fs) world =
  w_engine :: "'kv engine"
  w_store :: 'st
  w_out :: "'kv out_event list"
  w_fs :: 'fs

record ('kv, 'st, 'fs) engine_env =
  ee_verify :: verifier
  ee_public_key :: bytes
  ee_sign :: "bytes \<Rightarrow> bytes"
  ee_ds :: "'fs ds_env"
  ee_get :: "'st \<Rightarrow> hash32 \<Rightarrow> block option"
  ee_put :: "'st \<Rightarrow> block \<Rightarrow> 'st"
  ee_block_id :: "block \<Rightarrow> hash32"
  ee_derive_address :: "bytes \<Rightarrow> string"
  ee_build_block :: "height \<Rightarrow> round \<Rightarrow> hash32 \<Rightarrow> bytes \<Rightarrow> string \<Rightarrow> 'kv \<Rightarrow> nat \<Rightarrow> raw_tx list \<Rightarrow> block"
  ee_verify_block :: "'kv \<Rightarrow> block \<Rightarrow> string \<Rightarrow> bytes \<Rightarrow> ('kv \<times> receipt list) option"
  ee_next_base_fee :: "nat \<Rightarrow> nat \<Rightarrow> nat \<Rightarrow> nat"

definition engine_new ::
    "string option \<Rightarrow> engine_config \<Rightarrow> validator_set \<Rightarrow> height \<Rightarrow> hash32 \<Rightarrow> 'kv \<Rightarrow> stake_ledger \<Rightarrow>
      ds_guard option \<Rightarrow> (consensus_error, 'kv engine) result" where
  "engine_new prom cfg vset h prev app l guard =
     (case engine_config_validate cfg of
        Inl e \<Rightarrow> Err (Con_Config e)
      | Inr _ \<Rightarrow>
          (case (if ec_enable_metrics cfg then prom else None) of
             Some e \<Rightarrow> Err (Con_Metrics e)
           | None \<Rightarrow>
               Ok \<lparr>e_cfg = cfg, e_vset = vset, e_state = state_new h, prev_block_id = prev, app_state = app,
                   stakes = l, base_fee_per_gas = initial_base_fee_per_gas cfg, e_guard = guard,
                   step_elapsed_ms = 0, e_metrics = zero_consensus_metrics,
                   e_slash_metrics = zero_slashing_metrics\<rparr>))"

text \<open>Updating parts of the world.\<close>

definition on_engine :: "('kv engine \<Rightarrow> 'kv engine) \<Rightarrow> ('kv, 'st, 'fs) world \<Rightarrow> ('kv, 'st, 'fs) world" where
  "on_engine f w = w\<lparr>w_engine := f (w_engine w)\<rparr>"

definition on_state :: "(consensus_state \<Rightarrow> consensus_state) \<Rightarrow> ('kv, 'st, 'fs) world \<Rightarrow> ('kv, 'st, 'fs) world" where
  "on_state f = on_engine (\<lambda>e. e\<lparr>e_state := f (e_state e)\<rparr>)"

definition on_metrics :: "(consensus_metrics \<Rightarrow> consensus_metrics) \<Rightarrow> ('kv, 'st, 'fs) world \<Rightarrow> ('kv, 'st, 'fs) world" where
  "on_metrics f = on_engine (\<lambda>e. e\<lparr>e_metrics := f (e_metrics e)\<rparr>)"

definition set_elapsed :: "nat \<Rightarrow> ('kv, 'st, 'fs) world \<Rightarrow> ('kv, 'st, 'fs) world" where
  "set_elapsed t = on_engine (\<lambda>e. e\<lparr>step_elapsed_ms := t\<rparr>)"

definition emit :: "'kv out_event \<Rightarrow> ('kv, 'st, 'fs) world \<Rightarrow> ('kv, 'st, 'fs) world" where
  "emit ev w = w\<lparr>w_out := w_out w @ [ev]\<rparr>"

definition put_block :: "('kv, 'st, 'fs) engine_env \<Rightarrow> block \<Rightarrow> ('kv, 'st, 'fs) world \<Rightarrow> ('kv, 'st, 'fs) world" where
  "put_block env b w = w\<lparr>w_store := ee_put env (w_store w) b\<rparr>"

abbreviation wstate :: "('kv, 'st, 'fs) world \<Rightarrow> consensus_state" where
  "wstate w \<equiv> e_state (w_engine w)"

text \<open>A call of the guard, when there is one: whether it succeeded, and the world after it.\<close>

definition guard_call ::
    "('fs guarded \<Rightarrow> (ds_error, unit) result \<times> 'fs guarded) \<Rightarrow> ('kv, 'st, 'fs) world \<Rightarrow>
      bool \<times> ('kv, 'st, 'fs) world" where
  "guard_call f w =
     (case e_guard (w_engine w) of
        None \<Rightarrow> (True, w)
      | Some g \<Rightarrow>
          let (r, g1, fs1) = f (g, w_fs w)
          in (is_ok r, w\<lparr>w_engine := (w_engine w)\<lparr>e_guard := Some g1\<rparr>, w_fs := fs1\<rparr>))"

section \<open>Operations\<close>

definition is_proposer :: "'kv engine \<Rightarrow> bytes \<Rightarrow> bool" where
  "is_proposer e k =
     (case proposer_for (e_vset e) (cs_height (e_state e)) (cs_round (e_state e)) of
        Some v \<Rightarrow> pk v = k
      | None \<Rightarrow> False)"

definition broadcast_vote ::
    "('kv, 'st, 'fs) engine_env \<Rightarrow> vote_type \<Rightarrow> hash32 option \<Rightarrow> ('kv, 'st, 'fs) world \<Rightarrow> ('kv, 'st, 'fs) world" where
  "broadcast_vote env vt bid w =
     (let h = cs_height (wstate w); r = cs_round (wstate w);
          (ok, w1) = guard_call (check_vote (ee_ds env) vt h r bid) w in
      if \<not> ok then w1
      else
        let sig = ee_sign env (vote_sign_bytes vt h r bid);
            (ok2, w2) = guard_call (record_vote (ee_ds env) vt h r bid) w1
        in if \<not> ok2 then w2
           else on_metrics (\<lambda>m. m\<lparr>votes_broadcast := u64_add (votes_broadcast m) 1\<rparr>)
             (emit (Broadcast (Msg_Vote \<lparr>v_type = vt, v_height = h, v_round = r,
                v_voter = ee_public_key env, v_block_id = bid, v_signature = sig\<rparr>)) w2))"

definition maybe_propose ::
    "('kv, 'st, 'fs) engine_env \<Rightarrow> (nat \<Rightarrow> raw_tx list) \<Rightarrow> ('kv, 'st, 'fs) world \<Rightarrow> ('kv, 'st, 'fs) world" where
  "maybe_propose env drain w =
     (let e = w_engine w; s = e_state e; k = ee_public_key env in
      if cs_proposal s \<noteq> None then w
      else if \<not> is_proposer e k then w
      else
        let ts = drain (max_txs_per_block (e_cfg e));
            blk = ee_build_block env (cs_height s) (cs_round s) (prev_block_id e) k
                    (ee_derive_address env k) (app_state e) (base_fee_per_gas e) ts;
            bid = ee_block_id env blk;
            w1 = put_block env blk w;
            (ok, w2) = guard_call (check_proposal (ee_ds env) (cs_height s) (cs_round s) bid) w1
        in if \<not> ok then w2
           else
             let sig = ee_sign env (proposal_sign_bytes (cs_height s) (cs_round s) bid (valid_round s));
                 (ok2, w3) = guard_call (record_proposal (ee_ds env) (cs_height s) (cs_round s) bid) w2
             in if \<not> ok2 then w3
                else
                  let prop = \<lparr>p_height = cs_height s, p_round = cs_round s, p_proposer = k, p_block_id = bid,
                              p_block = (if include_block_in_proposal (e_cfg e) then Some blk else None),
                              p_pol_round = valid_round s, p_signature = sig\<rparr>
                  in on_metrics (\<lambda>m. m\<lparr>proposals_broadcast := u64_add (proposals_broadcast m) 1\<rparr>)
                      (emit (Broadcast (Msg_Proposal prop))
                        (on_state (\<lambda>s. s\<lparr>cs_proposal := Some prop, cs_proposal_block := Some blk\<rparr>) w3)))"

definition advance_round :: "('kv, 'st, 'fs) engine_env \<Rightarrow> ('kv, 'st, 'fs) world \<Rightarrow> ('kv, 'st, 'fs) world" where
  "advance_round env w =
     (if u32_add (cs_round (wstate w)) 1 \<ge> max_rounds (e_cfg (w_engine w)) then w
      else maybe_propose env (\<lambda>_. [])
        (on_metrics (\<lambda>m. m\<lparr>round_advancements := u64_add (round_advancements m) 1\<rparr>)
          (set_elapsed 0 (on_state state_advance_round w))))"

definition tick ::
    "('kv, 'st, 'fs) engine_env \<Rightarrow> nat \<Rightarrow> (nat \<Rightarrow> raw_tx list) \<Rightarrow> ('kv, 'st, 'fs) world \<Rightarrow> ('kv, 'st, 'fs) world" where
  "tick env dt_ms drain w =
     (if decided (wstate w) \<noteq> None then w
      else
        let w1 = set_elapsed (u64_sat_add (step_elapsed_ms (w_engine w)) dt_ms) w;
            elapsed = step_elapsed_ms (w_engine w1); cfg = e_cfg (w_engine w1)
        in case cs_step (wstate w1) of
             S_Propose \<Rightarrow>
               let first_tick = (elapsed = dt_ms);
                   w2 = (if first_tick \<and> cs_proposal (wstate w1) = None then maybe_propose env drain w1 else w1);
                   has_valid = (fast_quorum cfg \<and> cs_proposal (wstate w2) \<noteq> None \<and>
                                cs_proposal_block (wstate w2) \<noteq> None)
               in if has_valid \<or> step_elapsed_ms (w_engine w2) \<ge> propose_timeout_ms cfg then
                    (let w3 = set_elapsed 0 (on_state (\<lambda>s. s\<lparr>cs_step := S_Prevote\<rparr>) w2);
                         vote_block = (case cs_proposal (wstate w3) of
                             Some p \<Rightarrow> if cs_proposal_block (wstate w3) \<noteq> None then Some (p_block_id p) else None
                           | None \<Rightarrow> None)
                     in broadcast_vote env Prevote vote_block w3)
                  else w2
           | S_Prevote \<Rightarrow> if elapsed \<ge> prevote_timeout_ms cfg then advance_round env w1 else w1
           | S_Precommit \<Rightarrow> if elapsed \<ge> precommit_timeout_ms cfg then advance_round env w1 else w1
           | S_Commit \<Rightarrow> w1)"

definition verify_proposal ::
    "('kv, 'st, 'fs) engine_env \<Rightarrow> 'kv engine \<Rightarrow> proposal \<Rightarrow> (consensus_error, unit) result" where
  "verify_proposal env e p =
     (if \<not> contains (e_vset e) (p_proposer p) then Err UnknownValidator
      else if map_option pk (proposer_for (e_vset e) (p_height p) (p_round p)) \<noteq> Some (p_proposer p)
        then Err UnknownValidator
      else if p_height p \<noteq> cs_height (e_state e) \<or> p_round p \<noteq> cs_round (e_state e) then Err BadStep
      else
        case ee_verify env (p_proposer p)
            (proposal_sign_bytes (p_height p) (p_round p) (p_block_id p) (p_pol_round p)) (p_signature p) of
          Inl _ \<Rightarrow> Err BadSignature
        | Inr _ \<Rightarrow> Ok ())"

definition verify_vote ::
    "('kv, 'st, 'fs) engine_env \<Rightarrow> 'kv engine \<Rightarrow> vote \<Rightarrow> (consensus_error, unit) result" where
  "verify_vote env e v =
     (if \<not> contains (e_vset e) (v_voter v) then Err UnknownValidator
      else if v_height v \<noteq> cs_height (e_state e) \<or> v_round v \<noteq> cs_round (e_state e) then Err BadStep
      else
        case ee_verify env (v_voter v)
            (vote_sign_bytes (v_type v) (v_height v) (v_round v) (v_block_id v)) (v_signature v) of
          Inl _ \<Rightarrow> Err BadSignature
        | Inr _ \<Rightarrow> Ok ())"

definition prevote_choice :: "consensus_state \<Rightarrow> hash32 \<Rightarrow> hash32 option" where
  "prevote_choice s proposal_id =
     (case locked_value s of
        Some locked \<Rightarrow> if locked \<noteq> proposal_id then None else Some proposal_id
      | None \<Rightarrow> Some proposal_id)"

definition enter_prevote :: "('kv, 'st, 'fs) world \<Rightarrow> ('kv, 'st, 'fs) world" where
  "enter_prevote w = set_elapsed 0 (on_state (\<lambda>s. s\<lparr>cs_step := S_Prevote\<rparr>) w)"

definition request_block :: "hash32 \<Rightarrow> ('kv, 'st, 'fs) world \<Rightarrow> ('kv, 'st, 'fs) world" where
  "request_block bid w =
     on_metrics (\<lambda>m. m\<lparr>block_requests := u64_add (block_requests m) 1\<rparr>) (emit (RequestBlock bid) w)"

definition on_proposal ::
    "('kv, 'st, 'fs) engine_env \<Rightarrow> proposal \<Rightarrow> ('kv, 'st, 'fs) world \<Rightarrow>
      (consensus_error, unit) result \<times> ('kv, 'st, 'fs) world" where
  "on_proposal env p w =
     (if decided (wstate w) \<noteq> None then (Ok (), w)
      else
        case verify_proposal env (w_engine w) p of
          Inl err \<Rightarrow> (Err err, w)
        | Inr _ \<Rightarrow>
            let w1 = (case p_block p of Some b \<Rightarrow> put_block env b w | None \<Rightarrow> w) in
            case ee_get env (w_store w1) (p_block_id p) of
              None \<Rightarrow>
                let w2 = broadcast_vote env Prevote None (enter_prevote (request_block (p_block_id p) w1))
                in (Ok (), on_state (\<lambda>s. s\<lparr>cs_proposal := Some p, cs_proposal_block := None\<rparr>) w2)
            | Some blk \<Rightarrow>
                if ee_verify_block env (app_state (w_engine w1)) blk
                     (ee_derive_address env (p_proposer p)) (p_proposer p) = None
                then (Ok (), broadcast_vote env Prevote None (enter_prevote w1))
                else
                  let w2 = enter_prevote (on_state (\<lambda>s. s\<lparr>cs_proposal := Some p,
                             cs_proposal_block := Some blk\<rparr>) w1)
                  in (Ok (), broadcast_vote env Prevote (prevote_choice (wstate w2) (p_block_id p)) w2))"

definition record_vote_and_detect_evidence :: "vote \<Rightarrow> consensus_state \<Rightarrow> evidence option \<times> consensus_state" where
  "record_vote_and_detect_evidence v s =
     (let key = (v_voter v, v_height v, v_round v, v_type v) in
      case bt_get (vote_index s) key of
        Some (prev_bid, prev_vote) \<Rightarrow>
          if prev_bid \<noteq> v_block_id v then
            (Some (DoubleVote (v_voter v) (v_height v) (v_round v) (v_type v) prev_bid (v_block_id v)
               prev_vote v), s)
          else (None, s)
      | None \<Rightarrow> (None, s\<lparr>vote_index := bt_insert key (v_block_id v, v) (vote_index s)\<rparr>))"

text \<open>\<open>votes.entry(round).or_default().entry(vote_type).or_default().insert(voter, vote)\<close>.\<close>

definition store_vote :: "vote \<Rightarrow> vote_table \<Rightarrow> vote_table" where
  "store_vote v t =
     (let rt = (case bt_get t (v_round v) of Some x \<Rightarrow> x | None \<Rightarrow> []);
          vt = (case bt_get rt (v_type v) of Some x \<Rightarrow> x | None \<Rightarrow> [])
      in bt_insert (v_round v) (bt_insert (v_type v) (bt_insert (v_voter v) v vt) rt) t)"

definition votes_for :: "vote_table \<Rightarrow> round \<Rightarrow> vote_type \<Rightarrow> (bytes, vote) btree_map option" where
  "votes_for t r vt = (case bt_get t r of Some rt \<Rightarrow> bt_get rt vt | None \<Rightarrow> None)"

definition tally :: "'kv engine \<Rightarrow> round \<Rightarrow> vote_type \<Rightarrow> (hash32 option \<times> nat) option" where
  "tally e r vt =
     (case votes_for (votes (e_state e)) r vt of
        None \<Rightarrow> None
      | Some vs \<Rightarrow>
          (case fst (best (add_votes (e_vset e) (map (\<lambda>(voter, v). (voter, v_block_id v)) vs) tally_default)) of
             Inl _ \<Rightarrow> None
           | Inr bp \<Rightarrow> Some bp))"

definition collect_votes :: "'kv engine \<Rightarrow> round \<Rightarrow> vote_type \<Rightarrow> hash32 option \<Rightarrow> vote list" where
  "collect_votes e r vt target =
     (case votes_for (votes (e_state e)) r vt of
        None \<Rightarrow> []
      | Some vs \<Rightarrow>
          filter (\<lambda>v. case (target, v_block_id v) of
              (Some t, Some b) \<Rightarrow> t = b
            | (None, None) \<Rightarrow> True
            | _ \<Rightarrow> False) (map snd vs))"

text \<open>The ledger call of the engine; \<open>None\<close> is its panic.\<close>

definition apply_stakes :: "evidence \<Rightarrow> ('kv, 'st, 'fs) world \<Rightarrow> ('kv, 'st, 'fs) world option" where
  "apply_stakes ev w =
     map_option (\<lambda>(_, l, m). on_engine (\<lambda>e. e\<lparr>stakes := l, e_slash_metrics := m\<rparr>) w)
       (ledger_apply_evidence ev (stakes (w_engine w)) (e_slash_metrics (w_engine w)))"

text \<open>The two quorum branches of \<open>on_vote\<close>.\<close>

definition on_prevote_quorum ::
    "('kv, 'st, 'fs) engine_env \<Rightarrow> hash32 option \<Rightarrow> ('kv, 'st, 'fs) world \<Rightarrow> ('kv, 'st, 'fs) world" where
  "on_prevote_quorum env bid_opt w =
     (case bid_opt of
        Some bid \<Rightarrow>
          broadcast_vote env Precommit (Some bid)
            (set_elapsed 0 (on_state (\<lambda>s. s\<lparr>valid_round := Some (cs_round s), valid_value := Some bid,
               locked_round := Some (cs_round s), locked_value := Some bid, cs_step := S_Precommit\<rparr>) w))
      | None \<Rightarrow> advance_round env w)"

definition on_precommit_quorum ::
    "('kv, 'st, 'fs) engine_env \<Rightarrow> round \<Rightarrow> hash32 option \<Rightarrow> ('kv, 'st, 'fs) world \<Rightarrow>
      ((consensus_error, unit) result \<times> ('kv, 'st, 'fs) world) option" where
  "on_precommit_quorum env r bid_opt w =
     (case bid_opt of
        None \<Rightarrow> Some (Ok (), advance_round env w)
      | Some bid \<Rightarrow>
          (case ee_get env (w_store w) bid of
             None \<Rightarrow> Some (Ok (), request_block bid w)
           | Some blk \<Rightarrow>
               let e = w_engine w; h = cs_height (e_state e) in
               case proposer_for (e_vset e) h r of
                 None \<Rightarrow> None
               | Some expected \<Rightarrow>
                   (case ee_verify_block env (app_state e) blk
                           (ee_derive_address env (proposer_pk (header blk))) (pk expected) of
                      None \<Rightarrow> Some (Err (Execution ''block execution failed''), w)
                    | Some (new_state, receipts) \<Rightarrow>
                        let cert = \<lparr>cc_height = h, cc_block_id = bid,
                                    precommits = collect_votes e r Precommit (Some bid)\<rparr>;
                            new_base = ee_next_base_fee env (base_fee_per_gas e) (gas_used (header blk))
                                         (gas_target (e_cfg e));
                            w1 = on_state (\<lambda>s. s\<lparr>decided := Some cert, cs_step := S_Commit\<rparr>) w;
                            w2 = on_engine (\<lambda>e. e\<lparr>step_elapsed_ms := 0, app_state := new_state,
                                   prev_block_id := bid, base_fee_per_gas := new_base\<rparr>) w1;
                            w3 = on_metrics (\<lambda>m. m\<lparr>blocks_committed := u64_add (blocks_committed m) 1\<rparr>) w2
                        in Some (Ok (), emit (OnCommit cert blk new_state new_base receipts) w3))))"

definition on_vote ::
    "('kv, 'st, 'fs) engine_env \<Rightarrow> vote \<Rightarrow> ('kv, 'st, 'fs) world \<Rightarrow>
      ((consensus_error, unit) result \<times> ('kv, 'st, 'fs) world) option" where
  "on_vote env v w =
     (if decided (wstate w) \<noteq> None then Some (Ok (), w)
      else
        case verify_vote env (w_engine w) v of
          Inl err \<Rightarrow> Some (Err err, w)
        | Inr _ \<Rightarrow>
            let (ev_opt, s1) = record_vote_and_detect_evidence v (wstate w);
                w1 = on_state (\<lambda>_. s1) w
            in case (case ev_opt of
                       None \<Rightarrow> Some w1
                     | Some ev \<Rightarrow>
                         map_option (emit (Broadcast (Msg_Evidence ev)))
                           (apply_stakes ev
                             (on_metrics (\<lambda>m. m\<lparr>double_sign_evidence := u64_add (double_sign_evidence m) 1\<rparr>) w1))) of
                 None \<Rightarrow> None
               | Some w2 \<Rightarrow>
                   let w3 = on_state (\<lambda>s. s\<lparr>votes := store_vote v (votes s)\<rparr>) w2;
                       q = quorum_threshold (total_power (e_vset (w_engine w3)))
                   in case v_type v of
                        Prevote \<Rightarrow>
                          if cs_step (wstate w3) = S_Prevote then
                            (case tally (w_engine w3) (v_round v) Prevote of
                               Some (bid_opt, p) \<Rightarrow>
                                 if p \<ge> q then Some (Ok (), on_prevote_quorum env bid_opt w3) else Some (Ok (), w3)
                             | None \<Rightarrow> Some (Ok (), w3))
                          else Some (Ok (), w3)
                      | Precommit \<Rightarrow>
                          if cs_step (wstate w3) = S_Precommit then
                            (case tally (w_engine w3) (v_round v) Precommit of
                               Some (bid_opt, p) \<Rightarrow>
                                 if p \<ge> q then on_precommit_quorum env (v_round v) bid_opt w3 else Some (Ok (), w3)
                             | None \<Rightarrow> Some (Ok (), w3))
                          else Some (Ok (), w3))"

definition on_message ::
    "('kv, 'st, 'fs) engine_env \<Rightarrow> consensus_msg \<Rightarrow> ('kv, 'st, 'fs) world \<Rightarrow>
      ((consensus_error, unit) result \<times> ('kv, 'st, 'fs) world) option" where
  "on_message env msg w =
     (case msg of
        Msg_Proposal p \<Rightarrow>
          Some (on_proposal env p
            (on_metrics (\<lambda>m. m\<lparr>proposals_received := u64_add (proposals_received m) 1\<rparr>) w))
      | Msg_Vote v \<Rightarrow>
          on_vote env v (on_metrics (\<lambda>m. m\<lparr>votes_received := u64_add (votes_received m) 1\<rparr>) w)
      | Msg_Evidence ev \<Rightarrow>
          map_option (\<lambda>w1. (Ok (), w1))
            (apply_stakes ev
              (on_metrics (\<lambda>m. m\<lparr>double_sign_evidence := u64_add (double_sign_evidence m) 1\<rparr>) w)))"

definition on_block_received ::
    "('kv, 'st, 'fs) engine_env \<Rightarrow> block \<Rightarrow> ('kv, 'st, 'fs) world \<Rightarrow>
      (consensus_error, unit) result \<times> ('kv, 'st, 'fs) world" where
  "on_block_received env blk w =
     (let w1 = put_block env blk w in
      case cs_proposal (wstate w1) of
        None \<Rightarrow> (Ok (), w1)
      | Some p \<Rightarrow>
          if p_block_id p = ee_block_id env blk \<and> cs_proposal_block (wstate w1) = None then
            let w2 = on_state (\<lambda>s. s\<lparr>cs_proposal_block := Some blk\<rparr>) w1
            in (Ok (),
                if cs_step (wstate w2) = S_Prevote
                then broadcast_vote env Prevote (prevote_choice (wstate w2) (p_block_id p)) w2
                else w2)
          else (Ok (), w1))"

definition next_height :: "('kv, 'st, 'fs) engine_env \<Rightarrow> ('kv, 'st, 'fs) world \<Rightarrow> ('kv, 'st, 'fs) world" where
  "next_height env w =
     maybe_propose env (\<lambda>_. [])
       (set_elapsed 0 (on_state (\<lambda>s. (state_new (u64_add (cs_height s) 1))\<lparr>cs_step := S_Propose\<rparr>) w))"

text \<open>The inputs of an engine, as a step relation: a step is a call of one public operation.\<close>

datatype engine_input = In_Tick nat "nat \<Rightarrow> raw_tx list" | In_Msg consensus_msg | In_Block block | In_Next

inductive engine_step ::
    "('kv, 'st, 'fs) engine_env \<Rightarrow> engine_input \<Rightarrow> ('kv, 'st, 'fs) world \<Rightarrow> ('kv, 'st, 'fs) world \<Rightarrow> bool"
  for env :: "('kv, 'st, 'fs) engine_env" where
  step_tick: "engine_step env (In_Tick dt drain) w (tick env dt drain w)"
| step_msg: "on_message env msg w = Some (r, w') \<Longrightarrow> engine_step env (In_Msg msg) w w'"
| step_block: "on_block_received env blk w = (r, w') \<Longrightarrow> engine_step env (In_Block blk) w w'"
| step_next: "engine_step env In_Next w (next_height env w)"

inductive engine_run ::
    "('kv, 'st, 'fs) engine_env \<Rightarrow> engine_input list \<Rightarrow> ('kv, 'st, 'fs) world \<Rightarrow> ('kv, 'st, 'fs) world \<Rightarrow> bool"
  for env :: "('kv, 'st, 'fs) engine_env" where
  run_nil: "engine_run env [] w w"
| run_snoc: "engine_run env ins w w1 \<Longrightarrow> engine_step env i w1 w2 \<Longrightarrow> engine_run env (ins @ [i]) w w2"

inductive_cases engine_stepE [elim!]:
  "engine_step env (In_Tick dt drain) w w'" "engine_step env (In_Msg msg) w w'"
  "engine_step env (In_Block blk) w w'" "engine_step env In_Next w w'"

end
