(* ===== verification/Engine_Frame.thy ===== *)
theory Engine_Frame
  imports Engine
begin

text \<open>
  What the engine's operations leave alone. Broadcasting a vote touches the guard, the file system,
  the outbox and the metrics; proposing also touches the store and the proposal fields; these two
  facts, in the collection \<open>frame\<close>, carry the invariants of the other theories through the handlers.
\<close>

named_theorems frame \<open>selectors over worlds after an operation\<close>

lemma on_sel [frame, simp]:
  "w_engine (on_engine f w) = f (w_engine w)" "w_store (on_engine f w) = w_store w"
  "w_out (on_engine f w) = w_out w" "w_fs (on_engine f w) = w_fs w"
  by (simp_all add: on_engine_def)

lemma on_state_sel [frame, simp]:
  "w_engine (on_state f w) = (w_engine w)\<lparr>e_state := f (wstate w)\<rparr>" "w_store (on_state f w) = w_store w"
  "w_out (on_state f w) = w_out w" "w_fs (on_state f w) = w_fs w"
  by (simp_all add: on_state_def)

lemma on_metrics_sel [frame, simp]:
  "w_engine (on_metrics f w) = (w_engine w)\<lparr>e_metrics := f (e_metrics (w_engine w))\<rparr>"
  "w_store (on_metrics f w) = w_store w" "w_out (on_metrics f w) = w_out w" "w_fs (on_metrics f w) = w_fs w"
  by (simp_all add: on_metrics_def)

lemma set_elapsed_sel [frame, simp]:
  "w_engine (set_elapsed t w) = (w_engine w)\<lparr>step_elapsed_ms := t\<rparr>"
  "w_store (set_elapsed t w) = w_store w" "w_out (set_elapsed t w) = w_out w" "w_fs (set_elapsed t w) = w_fs w"
  by (simp_all add: set_elapsed_def)

lemma emit_sel [frame, simp]:
  "w_engine (emit ev w) = w_engine w" "w_store (emit ev w) = w_store w"
  "w_out (emit ev w) = w_out w @ [ev]" "w_fs (emit ev w) = w_fs w"
  by (simp_all add: emit_def)

lemma put_block_sel [frame, simp]:
  "w_engine (put_block env b w) = w_engine w" "w_out (put_block env b w) = w_out w"
  "w_fs (put_block env b w) = w_fs w"
  by (simp_all add: put_block_def)

lemma request_block_sel [frame, simp]:
  "w_engine (request_block b w) = (w_engine w)\<lparr>e_metrics := (e_metrics (w_engine w))
      \<lparr>block_requests := u64_add (block_requests (e_metrics (w_engine w))) 1\<rparr>\<rparr>"
  "w_store (request_block b w) = w_store w" "w_out (request_block b w) = w_out w @ [RequestBlock b]"
  "w_fs (request_block b w) = w_fs w"
  by (simp_all add: request_block_def)

lemma enter_prevote_sel [frame, simp]:
  "w_engine (enter_prevote w) =
     (w_engine w)\<lparr>e_state := (wstate w)\<lparr>cs_step := S_Prevote\<rparr>, step_elapsed_ms := 0\<rparr>"
  "w_store (enter_prevote w) = w_store w" "w_out (enter_prevote w) = w_out w" "w_fs (enter_prevote w) = w_fs w"
  by (simp_all add: enter_prevote_def)

section \<open>The guard, votes, proposals\<close>

text \<open>An engine without its guard and metrics, and a state without its proposal.\<close>

definition frozen :: "'kv engine \<Rightarrow> 'kv engine" where
  "frozen e = e\<lparr>e_guard := None, e_metrics := zero_consensus_metrics\<rparr>"

definition unproposed :: "'kv engine \<Rightarrow> 'kv engine" where
  "unproposed e = frozen (e\<lparr>e_state := (e_state e)\<lparr>cs_proposal := None, cs_proposal_block := None\<rparr>\<rparr>)"

lemma frozen_upd [simp]:
  "frozen (e\<lparr>e_guard := g\<rparr>) = frozen e" "frozen (e\<lparr>e_metrics := m\<rparr>) = frozen e"
  by (simp_all add: frozen_def)

lemma unproposed_frozen: "frozen e = frozen e' \<Longrightarrow> unproposed e = unproposed e'"
proof -
  have "unproposed e = (frozen e)\<lparr>e_state := (e_state (frozen e))\<lparr>cs_proposal := None, cs_proposal_block := None\<rparr>\<rparr>"
    for e :: "'a engine" by (simp add: unproposed_def frozen_def)
  then show "frozen e = frozen e' \<Longrightarrow> unproposed e = unproposed e'" by simp
qed

lemma guard_call_frozen [simp]: "frozen (w_engine (snd (guard_call f w))) = frozen (w_engine w)"
  by (simp add: guard_call_def split_def Let_def split: option.splits)

lemma guard_call_sel [frame]:
  "w_store (snd (guard_call f w)) = w_store w" "w_out (snd (guard_call f w)) = w_out w"
  by (simp_all add: guard_call_def split_def Let_def split: option.splits)

lemma broadcast_vote_frozen: "frozen (w_engine (broadcast_vote env vt bid w)) = frozen (w_engine w)"
  by (simp add: broadcast_vote_def split_def Let_def)

lemma broadcast_vote_sel [frame, simp]:
  "e_state (w_engine (broadcast_vote env vt bid w)) = wstate w"
  "e_cfg (w_engine (broadcast_vote env vt bid w)) = e_cfg (w_engine w)"
  "e_vset (w_engine (broadcast_vote env vt bid w)) = e_vset (w_engine w)"
  "stakes (w_engine (broadcast_vote env vt bid w)) = stakes (w_engine w)"
  "app_state (w_engine (broadcast_vote env vt bid w)) = app_state (w_engine w)"
  using broadcast_vote_frozen [of env vt bid w, THEN arg_cong, of e_state]
    broadcast_vote_frozen [of env vt bid w, THEN arg_cong, of e_cfg]
    broadcast_vote_frozen [of env vt bid w, THEN arg_cong, of e_vset]
    broadcast_vote_frozen [of env vt bid w, THEN arg_cong, of stakes]
    broadcast_vote_frozen [of env vt bid w, THEN arg_cong, of app_state]
  by (simp_all add: frozen_def)

lemma broadcast_vote_store [frame, simp]: "w_store (broadcast_vote env vt bid w) = w_store w"
  by (simp add: broadcast_vote_def split_def Let_def guard_call_sel)

lemma maybe_propose_unproposed: "unproposed (w_engine (maybe_propose env drain w)) = unproposed (w_engine w)"
proof -
  have state: "unproposed (e\<lparr>e_state := (e_state e)\<lparr>cs_proposal := p, cs_proposal_block := b\<rparr>\<rparr>) = unproposed e"
    "unproposed (e\<lparr>e_metrics := m\<rparr>) = unproposed e" for e :: "'a engine" and p b m
    by (simp_all add: unproposed_def frozen_def)
  have guard: "unproposed (w_engine (snd (guard_call f w))) = unproposed (w_engine w)"
    for f and w :: "('a, 'b, 'c) world"
    by (rule unproposed_frozen) simp
  show ?thesis by (simp add: maybe_propose_def split_def Let_def state guard)
qed

lemma maybe_propose_sel [frame, simp]:
  "e_cfg (w_engine (maybe_propose env drain w)) = e_cfg (w_engine w)"
  "e_vset (w_engine (maybe_propose env drain w)) = e_vset (w_engine w)"
  "stakes (w_engine (maybe_propose env drain w)) = stakes (w_engine w)"
  "app_state (w_engine (maybe_propose env drain w)) = app_state (w_engine w)"
  "step_elapsed_ms (w_engine (maybe_propose env drain w)) = step_elapsed_ms (w_engine w)"
  "cs_height (wstate (maybe_propose env drain w)) = cs_height (wstate w)"
  "cs_round (wstate (maybe_propose env drain w)) = cs_round (wstate w)"
  "cs_step (wstate (maybe_propose env drain w)) = cs_step (wstate w)"
  "locked_value (wstate (maybe_propose env drain w)) = locked_value (wstate w)"
  "votes (wstate (maybe_propose env drain w)) = votes (wstate w)"
  "vote_index (wstate (maybe_propose env drain w)) = vote_index (wstate w)"
  "decided (wstate (maybe_propose env drain w)) = decided (wstate w)"
  using maybe_propose_unproposed [of env drain w, THEN arg_cong, of e_cfg]
    maybe_propose_unproposed [of env drain w, THEN arg_cong, of e_vset]
    maybe_propose_unproposed [of env drain w, THEN arg_cong, of stakes]
    maybe_propose_unproposed [of env drain w, THEN arg_cong, of app_state]
    maybe_propose_unproposed [of env drain w, THEN arg_cong, of step_elapsed_ms]
    maybe_propose_unproposed [of env drain w, THEN arg_cong, of "\<lambda>e. cs_height (e_state e)"]
    maybe_propose_unproposed [of env drain w, THEN arg_cong, of "\<lambda>e. cs_round (e_state e)"]
    maybe_propose_unproposed [of env drain w, THEN arg_cong, of "\<lambda>e. cs_step (e_state e)"]
    maybe_propose_unproposed [of env drain w, THEN arg_cong, of "\<lambda>e. locked_value (e_state e)"]
    maybe_propose_unproposed [of env drain w, THEN arg_cong, of "\<lambda>e. votes (e_state e)"]
    maybe_propose_unproposed [of env drain w, THEN arg_cong, of "\<lambda>e. vote_index (e_state e)"]
    maybe_propose_unproposed [of env drain w, THEN arg_cong, of "\<lambda>e. decided (e_state e)"]
  by (simp_all add: unproposed_def frozen_def)

lemma engine_new_sel:
  "engine_new prom cfg vset h prev app l guard = Ok e \<Longrightarrow> e_guard e = guard \<and> e_state e = state_new h \<and>
    e_vset e = vset \<and> e_cfg e = cfg \<and> stakes e = l \<and> engine_config_validate cfg = Ok ()"
  by (auto simp: engine_new_def split: sum.splits option.splits if_splits)

end
