(* ===== verification/Engine_Safety.thy ===== *)
theory Engine_Safety
  imports Engine_Frame
begin

text \<open>
  What an engine knows about the votes it holds, and what a decision rests on: every stored vote was
  verified, and a certificate the engine decides on is made of verified precommits of distinct
  validators for one block, at one height and round, with the power of a quorum.
\<close>

section \<open>Invariants\<close>

definition vote_valid :: "verifier \<Rightarrow> validator_set \<Rightarrow> height \<Rightarrow> vote \<Rightarrow> bool" where
  "vote_valid verify vset h v \<longleftrightarrow>
     contains vset (v_voter v) \<and> v_height v = h \<and> verify (v_voter v) (vote_bytes v) (v_signature v) = Ok ()"

definition slot_wf :: "verifier \<Rightarrow> validator_set \<Rightarrow> height \<Rightarrow> round \<Rightarrow> vote_type \<Rightarrow> (bytes, vote) btree_map \<Rightarrow> bool" where
  "slot_wf verify vset h r vt vs \<longleftrightarrow> bt_sorted vs \<and>
     (\<forall>e \<in> set vs. v_voter (snd e) = fst e \<and> v_round (snd e) = r \<and> v_type (snd e) = vt \<and>
        vote_valid verify vset h (snd e))"

definition table_wf :: "verifier \<Rightarrow> validator_set \<Rightarrow> height \<Rightarrow> vote_table \<Rightarrow> bool" where
  "table_wf verify vset h t \<longleftrightarrow> bt_sorted t \<and>
     (\<forall>r rt. bt_get t r = Some rt \<longrightarrow> bt_sorted rt \<and>
        (\<forall>vt vs. bt_get rt vt = Some vs \<longrightarrow> slot_wf verify vset h r vt vs))"

definition index_wf :: "verifier \<Rightarrow> validator_set \<Rightarrow> height \<Rightarrow> (vote_key, hash32 option \<times> vote) btree_map \<Rightarrow> bool" where
  "index_wf verify vset h m \<longleftrightarrow> bt_sorted m \<and>
     (\<forall>e \<in> set m. let v = snd (snd e) in fst e = (v_voter v, v_height v, v_round v, v_type v) \<and>
        fst (snd e) = v_block_id v \<and> vote_valid verify vset h v)"

definition cert_sound :: "verifier \<Rightarrow> validator_set \<Rightarrow> round \<Rightarrow> commit_certificate \<Rightarrow> bool" where
  "cert_sound verify vset r cert \<longleftrightarrow>
     distinct (map v_voter (precommits cert)) \<and>
     (\<forall>v \<in> set (precommits cert). v_type v = Precommit \<and> v_round v = r \<and>
        v_block_id v = Some (cc_block_id cert) \<and> vote_valid verify vset (cc_height cert) v) \<and>
     quorum_threshold (total_power vset) \<le> key_weight vset (v_voter ` set (precommits cert))"

definition core_inv :: "verifier \<Rightarrow> validator_set \<Rightarrow> consensus_state \<Rightarrow> bool" where
  "core_inv verify vset s \<longleftrightarrow>
     table_wf verify vset (cs_height s) (votes s) \<and> index_wf verify vset (cs_height s) (vote_index s) \<and>
     (\<forall>cert. decided s = Some cert \<longrightarrow>
        cc_height cert = cs_height s \<and> (\<exists>r. cert_sound verify vset r cert))"

lemma core_inv_cong:
  "cs_height s = cs_height s' \<Longrightarrow> votes s = votes s' \<Longrightarrow> vote_index s = vote_index s' \<Longrightarrow>
    decided s = decided s' \<Longrightarrow> core_inv verify vset s = core_inv verify vset s'"
  by (simp add: core_inv_def)

lemma core_inv_new: "core_inv verify vset (state_new h)"
  by (simp add: core_inv_def state_new_def table_wf_def index_wf_def)

lemma slot_wf_insert:
  "slot_wf verify vset h (v_round v) (v_type v) vs \<Longrightarrow> vote_valid verify vset h v \<Longrightarrow>
    slot_wf verify vset h (v_round v) (v_type v) (bt_insert (v_voter v) v vs)"
  by (auto simp: slot_wf_def bt_sorted_insert bt.set_ins)

lemma table_wf_store:
  assumes "table_wf verify vset h t" "vote_valid verify vset h v"
  shows "table_wf verify vset h (store_vote v t)"
proof -
  let ?rt = "case bt_get t (v_round v) of Some x \<Rightarrow> x | None \<Rightarrow> []"
  let ?vs = "case bt_get ?rt (v_type v) of Some x \<Rightarrow> x | None \<Rightarrow> []"
  have st: "bt_sorted t" using assms(1) by (simp add: table_wf_def)
  have rt: "bt_sorted ?rt" "\<And>vt vs. bt_get ?rt vt = Some vs \<Longrightarrow> slot_wf verify vset h (v_round v) vt vs"
    using assms(1) by (auto simp: table_wf_def split: option.splits)
  have "slot_wf verify vset h (v_round v) (v_type v) ?vs"
  proof (cases "bt_get ?rt (v_type v)")
    case None
    then show ?thesis by (simp add: slot_wf_def)
  next
    case (Some vs)
    with rt(2) [OF Some] show ?thesis by simp
  qed
  from slot_wf_insert [OF this assms(2)] show ?thesis
    using assms(1) rt
    by (auto simp: table_wf_def store_vote_def Let_def bt.get_ins [OF st] bt.get_ins [OF rt(1)]
        bt_sorted_insert [OF st] bt_sorted_insert [OF rt(1)] split: if_splits)
qed

lemma verify_vote_valid:
  "verify_vote env e v = Ok u \<Longrightarrow>
    vote_valid (ee_verify env) (e_vset e) (cs_height (e_state e)) v \<and> v_round v = cs_round (e_state e)"
  by (auto simp: verify_vote_def vote_valid_def vote_bytes_def split: if_splits sum.splits)

lemma record_index_wf:
  assumes "index_wf verify vset h (vote_index s)" "vote_valid verify vset h v"
  shows "index_wf verify vset h (vote_index (snd (record_vote_and_detect_evidence v s)))"
  using assms
  by (auto simp: record_vote_and_detect_evidence_def index_wf_def Let_def bt.set_ins bt_sorted_insert
      split: option.splits)

lemma record_sel [simp]:
  "cs_height (snd (record_vote_and_detect_evidence v s)) = cs_height s"
  "cs_round (snd (record_vote_and_detect_evidence v s)) = cs_round s"
  "cs_step (snd (record_vote_and_detect_evidence v s)) = cs_step s"
  "votes (snd (record_vote_and_detect_evidence v s)) = votes s"
  "decided (snd (record_vote_and_detect_evidence v s)) = decided s"
  "locked_value (snd (record_vote_and_detect_evidence v s)) = locked_value s"
  by (simp_all add: record_vote_and_detect_evidence_def Let_def split: option.splits)

section \<open>Tallies and certificates\<close>

lemma votes_for_slot:
  "table_wf verify vset h t \<Longrightarrow> votes_for t r vt = Some vs \<Longrightarrow> slot_wf verify vset h r vt vs"
  by (auto simp: votes_for_def table_wf_def split: option.splits)

lemma tally_default_new: "tally_new None default_tally_config = Ok tally_default"
  by (simp add: tally_new_def tally_default_def default_tally_config_def)

lemma tally_weight:
  assumes "vset_wf (e_vset e)" "tally e r vt = Some (b, p)"
  obtains vs where "votes_for (votes (e_state e)) r vt = Some vs"
    "p = key_weight (e_vset e) {k. \<exists>v. map_of vs k = Some v \<and> v_block_id v = b}"
proof -
  from assms(2) obtain vs where vs: "votes_for (votes (e_state e)) r vt = Some vs"
    and bp: "fst (best (add_votes (e_vset e) (map (\<lambda>(voter, v). (voter, v_block_id v)) vs) tally_default)) = Ok (b, p)"
    by (auto simp: tally_def split: option.splits sum.splits)
  let ?l = "map (\<lambda>(voter, v). (voter, v_block_id v)) vs"
  let ?t = "add_votes (e_vset e) ?l tally_default"
  have wf: "tally_wf (e_vset e) ?t"
    by (intro add_votes_wf assms(1) tally_wf_empty) (simp_all add: tally_default_def)
  have "(b, p) \<in> set (buckets ?t)"
    using bp last_max_Some [of "buckets ?t" "(b, p)"] by (auto simp: best_def split: option.splits)
  moreover have "bt_sorted (buckets ?t)" using wf by (simp add: tally_wf_def)
  ultimately have "p = power_for ?t b" by (simp only: bucket_power_for)
  also have "\<dots> = key_weight (e_vset e) {k. map_of ?l k = Some b}"
    using tally_power_for_weight [OF assms(1) tally_default_new, of ?l b]
    by (simp add: default_tally_config_def)
  also have "map_of ?l = map_option v_block_id \<circ> map_of vs"
    by (rule map_of_map)
  finally have "p = key_weight (e_vset e) {k. \<exists>v. map_of vs k = Some v \<and> v_block_id v = b}"
    by (simp add: map_option_case split: option.splits)
      (metis (mono_tags, lifting) option.case_eq_if option.discI option.expand option.sel)
  with vs that show ?thesis by blast
qed

lemma slot_voters:
  "slot_wf verify vset h r vt vs \<Longrightarrow> map (\<lambda>e. v_voter (snd e)) vs = map fst vs"
  by (simp add: slot_wf_def)

lemma collect_votes_slot:
  assumes "table_wf verify vset h (votes (e_state e))" "votes_for (votes (e_state e)) r vt = Some vs"
  shows "distinct (map v_voter (collect_votes e r vt (Some b)))"
    and "v_voter ` set (collect_votes e r vt (Some b)) = {k. \<exists>v. map_of vs k = Some v \<and> v_block_id v = Some b}"
    and "\<And>v. v \<in> set (collect_votes e r vt (Some b)) \<Longrightarrow>
      v_type v = vt \<and> v_round v = r \<and> v_block_id v = Some b \<and> vote_valid verify vset h v"
proof -
  have slot: "slot_wf verify vset h r vt vs" by (rule votes_for_slot [OF assms])
  have sv: "bt_sorted vs" using slot by (simp add: slot_wf_def)
  have coll: "collect_votes e r vt (Some b) = filter (\<lambda>v. v_block_id v = Some b) (map snd vs)"
    unfolding collect_votes_def assms(2) by (auto intro!: filter_cong split: option.splits)
  have "distinct (map v_voter (map snd vs))"
    using bt.distinct_keys [OF sv] by (simp only: map_map comp_def slot_voters [OF slot])
  then show "distinct (map v_voter (collect_votes e r vt (Some b)))"
    unfolding coll by (rule distinct_map_filter)
  show "v_voter ` set (collect_votes e r vt (Some b)) = {k. \<exists>v. map_of vs k = Some v \<and> v_block_id v = Some b}"
    using slot unfolding coll slot_wf_def by (force simp: bt.get_Some_iff [OF sv])
  show "v \<in> set (collect_votes e r vt (Some b)) \<Longrightarrow>
      v_type v = vt \<and> v_round v = r \<and> v_block_id v = Some b \<and> vote_valid verify vset h v" for v
    using slot unfolding coll slot_wf_def by auto
qed

lemma commit_cert_sound:
  assumes "vset_wf (e_vset e)" "table_wf verify (e_vset e) h (votes (e_state e))"
    "tally e r Precommit = Some (Some b, p)" "quorum_threshold (total_power (e_vset e)) \<le> p"
  shows "cert_sound verify (e_vset e) r
    \<lparr>cc_height = h, cc_block_id = b, precommits = collect_votes e r Precommit (Some b)\<rparr>"
proof -
  from tally_weight [OF assms(1,3)] obtain vs where vs: "votes_for (votes (e_state e)) r Precommit = Some vs"
    and p: "p = key_weight (e_vset e) {k. \<exists>v. map_of vs k = Some v \<and> v_block_id v = Some b}" .
  note slot = collect_votes_slot [OF assms(2) vs, where b = b]
  show ?thesis using slot assms(4) p by (auto simp: cert_sound_def)
qed

lemma key_weight_insert:
  assumes "vset_wf s" "power_of s k = Some w" "k \<notin> A"
  shows "key_weight s (insert k A) = w + key_weight s A"
proof -
  have "k \<in> pk ` set (validators s)" using power_of_Some_iff [OF assms(1), of k w] assms(2) by auto
  then have "pk ` set (validators s) \<inter> insert k A = insert k (pk ` set (validators s) \<inter> A)" by auto
  then show ?thesis using assms(2,3) by (simp add: key_weight_sum [OF assms(1)])
qed

lemma verify_precommits_ok:
  assumes "vset_wf vset" "distinct (map v_voter vs)"
    "\<forall>v \<in> set vs. contains vset (v_voter v) \<and> verify (v_voter v) (vote_bytes v) (v_signature v) = Ok ()"
    "p + key_weight vset (v_voter ` set vs) \<le> U64_MAX"
  shows "verify_precommits verify vset vs p = Ok (p + key_weight vset (v_voter ` set vs))"
  using assms(2-4)
proof (induction vs arbitrary: p)
  case Nil
  then show ?case by (simp add: key_weight_def)
next
  case (Cons v vs)
  from Cons.prems(2) obtain w where w: "power_of vset (v_voter v) = Some w"
    by (auto simp: contains_def power_of_def)
  have sum: "key_weight vset (v_voter ` set (v # vs)) = w + key_weight vset (v_voter ` set vs)"
    using key_weight_insert [OF assms(1) w, of "v_voter ` set vs"] Cons.prems(1) by simp
  then have "u64_sat_add p w = p + w" using Cons.prems(3) by (intro u64_sat_add_exact) simp
  then show ?case
    using Cons.IH [of "p + w"] Cons.prems w sum by (simp add: vote_bytes_def add.assoc)
qed

lemma cert_sound_verifies:
  assumes "vset_wf vset" "cert_sound verify vset r cert"
  shows "certificate_verify verify vset cert = Ok ()"
proof -
  let ?K = "v_voter ` set (precommits cert)"
  have "key_weight vset ?K \<le> sum_power (validators vset)"
    unfolding key_weight_def by (rule sum_power_restrict)
  then have "0 + key_weight vset ?K \<le> U64_MAX" using assms(1) by (simp add: vset_wf_def)
  then have "verify_precommits verify vset (precommits cert) 0 = Ok (key_weight vset ?K)"
    using verify_precommits_ok [OF assms(1), of "precommits cert" verify 0] assms(2)
    by (simp add: cert_sound_def vote_valid_def)
  then show ?thesis using assms(2) by (simp add: certificate_verify_def cert_sound_def)
qed

section \<open>Every step keeps the invariant\<close>

definition engine_inv :: "verifier \<Rightarrow> ('kv, 'st, 'fs) world \<Rightarrow> bool" where
  "engine_inv verify w \<longleftrightarrow> vset_wf (e_vset (w_engine w)) \<and> core_inv verify (e_vset (w_engine w)) (wstate w)"

lemma engine_inv_cong:
  "e_vset (w_engine w) = e_vset (w_engine w') \<Longrightarrow> cs_height (wstate w) = cs_height (wstate w') \<Longrightarrow>
    votes (wstate w) = votes (wstate w') \<Longrightarrow> vote_index (wstate w) = vote_index (wstate w') \<Longrightarrow>
    decided (wstate w) = decided (wstate w') \<Longrightarrow> engine_inv verify w = engine_inv verify w'"
  unfolding engine_inv_def using core_inv_cong [of "wstate w" "wstate w'"] by simp

lemma state_advance_sel [simp]:
  "cs_height (state_advance_round s) = cs_height s" "votes (state_advance_round s) = votes s"
  "vote_index (state_advance_round s) = vote_index s" "decided (state_advance_round s) = decided s"
  "locked_value (state_advance_round s) = locked_value s"
  by (simp_all add: state_advance_round_def)

lemma advance_round_sel [simp]:
  "e_vset (w_engine (advance_round env w)) = e_vset (w_engine w)"
  "e_cfg (w_engine (advance_round env w)) = e_cfg (w_engine w)"
  "stakes (w_engine (advance_round env w)) = stakes (w_engine w)"
  "cs_height (wstate (advance_round env w)) = cs_height (wstate w)"
  "votes (wstate (advance_round env w)) = votes (wstate w)"
  "vote_index (wstate (advance_round env w)) = vote_index (wstate w)"
  "decided (wstate (advance_round env w)) = decided (wstate w)"
  by (simp_all add: advance_round_def)

lemma tick_sel [simp]:
  "e_vset (w_engine (tick env dt drain w)) = e_vset (w_engine w)"
  "e_cfg (w_engine (tick env dt drain w)) = e_cfg (w_engine w)"
  "cs_height (wstate (tick env dt drain w)) = cs_height (wstate w)"
  "votes (wstate (tick env dt drain w)) = votes (wstate w)"
  "vote_index (wstate (tick env dt drain w)) = vote_index (wstate w)"
  "decided (wstate (tick env dt drain w)) = decided (wstate w)"
  by (simp_all add: tick_def Let_def split: step.splits)

lemma on_proposal_sel [simp]:
  "e_vset (w_engine (snd (on_proposal env p w))) = e_vset (w_engine w)"
  "e_cfg (w_engine (snd (on_proposal env p w))) = e_cfg (w_engine w)"
  "cs_height (wstate (snd (on_proposal env p w))) = cs_height (wstate w)"
  "votes (wstate (snd (on_proposal env p w))) = votes (wstate w)"
  "vote_index (wstate (snd (on_proposal env p w))) = vote_index (wstate w)"
  "decided (wstate (snd (on_proposal env p w))) = decided (wstate w)"
  by (simp_all add: on_proposal_def Let_def split: sum.splits option.splits)

lemma on_block_received_sel [simp]:
  "e_vset (w_engine (snd (on_block_received env b w))) = e_vset (w_engine w)"
  "e_cfg (w_engine (snd (on_block_received env b w))) = e_cfg (w_engine w)"
  "cs_height (wstate (snd (on_block_received env b w))) = cs_height (wstate w)"
  "cs_round (wstate (snd (on_block_received env b w))) = cs_round (wstate w)"
  "votes (wstate (snd (on_block_received env b w))) = votes (wstate w)"
  "vote_index (wstate (snd (on_block_received env b w))) = vote_index (wstate w)"
  "decided (wstate (snd (on_block_received env b w))) = decided (wstate w)"
  by (simp_all add: on_block_received_def Let_def split: option.splits)

lemma on_prevote_quorum_sel [simp]:
  "e_vset (w_engine (on_prevote_quorum env b w)) = e_vset (w_engine w)"
  "e_cfg (w_engine (on_prevote_quorum env b w)) = e_cfg (w_engine w)"
  "cs_height (wstate (on_prevote_quorum env b w)) = cs_height (wstate w)"
  "votes (wstate (on_prevote_quorum env b w)) = votes (wstate w)"
  "vote_index (wstate (on_prevote_quorum env b w)) = vote_index (wstate w)"
  "decided (wstate (on_prevote_quorum env b w)) = decided (wstate w)"
  by (simp_all add: on_prevote_quorum_def split: option.splits)

lemma apply_stakes_sel:
  assumes "apply_stakes ev w = Some w'"
  shows "e_vset (w_engine w') = e_vset (w_engine w)" "e_cfg (w_engine w') = e_cfg (w_engine w)"
    "e_state (w_engine w') = e_state (w_engine w)" "e_guard (w_engine w') = e_guard (w_engine w)"
    "w_out w' = w_out w" "w_fs w' = w_fs w" "w_store w' = w_store w"
  using assms by (auto simp: apply_stakes_def)

lemma on_precommit_quorum_inv:
  assumes "engine_inv verify w" "tally (w_engine w) r Precommit = Some (b, p)"
    "quorum_threshold (total_power (e_vset (w_engine w))) \<le> p"
    "on_precommit_quorum env r b w = Some (res, w')"
  shows "engine_inv verify w'"
proof (cases "decided (wstate w') = decided (wstate w)")
  case True
  then have "e_vset (w_engine w') = e_vset (w_engine w) \<and> cs_height (wstate w') = cs_height (wstate w) \<and>
      votes (wstate w') = votes (wstate w) \<and> vote_index (wstate w') = vote_index (wstate w)"
    using assms(4)
    by (auto simp: on_precommit_quorum_def Let_def split: option.splits prod.splits)
  with True assms(1) show ?thesis using engine_inv_cong [of w' w] by simp
next
  case False
  with assms(4) obtain bid where b: "b = Some bid"
    and same: "e_vset (w_engine w') = e_vset (w_engine w)" "cs_height (wstate w') = cs_height (wstate w)"
      "votes (wstate w') = votes (wstate w)" "vote_index (wstate w') = vote_index (wstate w)"
    and cert: "decided (wstate w') = Some \<lparr>cc_height = cs_height (wstate w), cc_block_id = bid,
      precommits = collect_votes (w_engine w) r Precommit (Some bid)\<rparr>"
    by (auto simp: on_precommit_quorum_def Let_def split: option.splits prod.splits)
  have "cert_sound verify (e_vset (w_engine w)) r \<lparr>cc_height = cs_height (wstate w), cc_block_id = bid,
      precommits = collect_votes (w_engine w) r Precommit (Some bid)\<rparr>"
    using assms(1-3) b by (intro commit_cert_sound) (auto simp: engine_inv_def core_inv_def)
  then show ?thesis using assms(1) same cert by (auto simp: engine_inv_def core_inv_def)
qed

text \<open>The world after the vote has been indexed, evidence applied and the vote stored.\<close>

lemma vote_stored_inv:
  assumes "engine_inv (ee_verify env) w" "verify_vote env (w_engine w) v = Ok u"
    and "e_vset (w_engine w2) = e_vset (w_engine w)"
      "wstate w2 = snd (record_vote_and_detect_evidence v (wstate w))"
  shows "engine_inv (ee_verify env) (on_state (\<lambda>s. s\<lparr>votes := store_vote v (votes s)\<rparr>) w2)"
proof -
  have valid: "vote_valid (ee_verify env) (e_vset (w_engine w)) (cs_height (wstate w)) v"
    using verify_vote_valid [OF assms(2)] by simp
  show ?thesis
    using assms(1) valid record_index_wf [of "ee_verify env" "e_vset (w_engine w)" "cs_height (wstate w)" "wstate w" v]
    by (simp add: engine_inv_def core_inv_def assms(3,4) table_wf_store)
qed

text \<open>The world in which \<open>on_vote\<close> tallies.\<close>

lemma on_vote_cases:
  assumes "on_vote env v w = Some (r, w')"
  obtains "w' = w"
  | w2 where "wstate w2 = snd (record_vote_and_detect_evidence v (wstate w))"
      "e_guard (w_engine w2) = e_guard (w_engine w)"
      "w_out w2 = w_out w @ (case fst (record_vote_and_detect_evidence v (wstate w)) of
         None \<Rightarrow> [] | Some ev \<Rightarrow> [Broadcast (Msg_Evidence ev)])"
      "verify_vote env (w_engine w) v = Ok ()" "decided (wstate w) = None"
      "e_vset (w_engine w2) = e_vset (w_engine w)" "e_cfg (w_engine w2) = e_cfg (w_engine w)"
      "let w3 = on_state (\<lambda>s. s\<lparr>votes := store_vote v (votes s)\<rparr>) w2 in
        w' = w3 \<or> (\<exists>b. w' = on_prevote_quorum env b w3) \<or> (\<exists>b p.
          tally (w_engine w3) (v_round v) Precommit = Some (b, p) \<and>
          quorum_threshold (total_power (e_vset (w_engine w3))) \<le> p \<and>
          on_precommit_quorum env (v_round v) b w3 = Some (r, w'))"
proof (cases "decided (wstate w) \<noteq> None \<or> (\<exists>err. verify_vote env (w_engine w) v = Err err)")
  case True
  with assms that(1) show ?thesis by (auto simp: on_vote_def split: if_splits)
next
  case False
  then have dec: "decided (wstate w) = None" and ok: "verify_vote env (w_engine w) v = Ok ()"
    by (auto, metis (full_types) old.unit.exhaust sum.exhaust)
  let ?ev = "fst (record_vote_and_detect_evidence v (wstate w))"
  let ?w1 = "on_state (\<lambda>_. snd (record_vote_and_detect_evidence v (wstate w))) w"
  let ?bump = "on_metrics (\<lambda>m. m\<lparr>double_sign_evidence := u64_add (double_sign_evidence m) 1\<rparr>) ?w1"
  obtain w2 where w2: "(case ?ev of None \<Rightarrow> Some ?w1
      | Some ev \<Rightarrow> map_option (emit (Broadcast (Msg_Evidence ev))) (apply_stakes ev ?bump)) = Some w2"
    using assms dec ok by (auto simp: on_vote_def split_def Let_def split: option.splits)
  show ?thesis
  proof (rule that(2))
    show "wstate w2 = snd (record_vote_and_detect_evidence v (wstate w))"
      "e_guard (w_engine w2) = e_guard (w_engine w)"
      "e_vset (w_engine w2) = e_vset (w_engine w)" "e_cfg (w_engine w2) = e_cfg (w_engine w)"
      "w_out w2 = w_out w @ (case ?ev of None \<Rightarrow> [] | Some ev \<Rightarrow> [Broadcast (Msg_Evidence ev)])"
      using w2 by (auto simp: apply_stakes_sel split: option.splits)
    show "let w3 = on_state (\<lambda>s. s\<lparr>votes := store_vote v (votes s)\<rparr>) w2 in
        w' = w3 \<or> (\<exists>b. w' = on_prevote_quorum env b w3) \<or> (\<exists>b p.
          tally (w_engine w3) (v_round v) Precommit = Some (b, p) \<and>
          quorum_threshold (total_power (e_vset (w_engine w3))) \<le> p \<and>
          on_precommit_quorum env (v_round v) b w3 = Some (r, w'))"
      using assms dec ok w2 unfolding Let_def
      by (auto simp: on_vote_def split_def Let_def split: vote_type.splits if_splits option.splits)
  qed (rule ok dec)+
qed

lemma on_vote_inv:
  assumes "engine_inv (ee_verify env) w" "on_vote env v w = Some (r, w')"
  shows "engine_inv (ee_verify env) w'"
  using assms(2)
proof (cases rule: on_vote_cases)
  case (2 w2)
  let ?w3 = "on_state (\<lambda>s. s\<lparr>votes := store_vote v (votes s)\<rparr>) w2"
  have inv: "engine_inv (ee_verify env) ?w3" by (rule vote_stored_inv [OF assms(1) 2(4,6,1)])
  have "engine_inv (ee_verify env) (on_prevote_quorum env b ?w3)" for b
    using inv engine_inv_cong [of "on_prevote_quorum env b ?w3" ?w3] by simp
  then show ?thesis using 2(8) inv on_precommit_quorum_inv [OF inv] unfolding Let_def by blast
qed (use assms in simp)

lemma on_message_inv:
  assumes "engine_inv (ee_verify env) w" "on_message env msg w = Some (r, w')"
  shows "engine_inv (ee_verify env) w'"
proof (cases msg)
  case (Msg_Proposal p)
  let ?w = "on_metrics (\<lambda>m. m\<lparr>proposals_received := u64_add (proposals_received m) 1\<rparr>) w"
  have "on_proposal env p ?w = (r, w')" using assms(2) Msg_Proposal by (simp add: on_message_def)
  then have "w' = snd (on_proposal env p ?w)" by simp
  with assms(1) show ?thesis using engine_inv_cong [of w' w] by simp
next
  case (Msg_Vote v)
  let ?w = "on_metrics (\<lambda>m. m\<lparr>votes_received := u64_add (votes_received m) 1\<rparr>) w"
  have "engine_inv (ee_verify env) ?w" using assms(1) engine_inv_cong [of ?w w] by simp
  with assms(2) Msg_Vote show ?thesis by (auto simp: on_message_def intro: on_vote_inv)
next
  case (Msg_Evidence ev)
  then have "e_vset (w_engine w') = e_vset (w_engine w) \<and> wstate w' = wstate w"
    using assms(2) by (auto simp: on_message_def apply_stakes_sel)
  with assms(1) show ?thesis using engine_inv_cong [of w' w] by simp
qed

lemma next_height_inv:
  "engine_inv verify w \<Longrightarrow> engine_inv verify (next_height env w)"
proof -
  assume inv: "engine_inv verify w"
  let ?w = "set_elapsed 0 (on_state (\<lambda>s. (state_new (u64_add (cs_height s) 1))\<lparr>cs_step := S_Propose\<rparr>) w)"
  have "(state_new h)\<lparr>cs_step := S_Propose\<rparr> = state_new h" for h by (simp add: state_new_def)
  then have "engine_inv verify ?w" using inv core_inv_new by (simp add: engine_inv_def)
  then show ?thesis
    using engine_inv_cong [of "next_height env w" ?w] by (simp add: next_height_def)
qed

lemma engine_step_inv:
  assumes "engine_step env i w w'" "engine_inv (ee_verify env) w"
  shows "engine_inv (ee_verify env) w'"
  using assms
proof (cases rule: engine_step.cases)
  case (step_tick dt drain)
  with assms(2) show ?thesis using engine_inv_cong [of w' w] by simp
next
  case (step_msg msg r)
  with assms(2) show ?thesis by (blast intro: on_message_inv)
next
  case (step_block blk r)
  with assms(2) show ?thesis
    using engine_inv_cong [of w' w] on_block_received_sel [of env blk w] by simp
next
  case step_next
  with assms(2) show ?thesis by (simp add: next_height_inv)
qed

lemma engine_run_inv:
  "engine_run env ins w w' \<Longrightarrow> engine_inv (ee_verify env) w \<Longrightarrow> engine_inv (ee_verify env) w'"
  by (induction rule: engine_run.induct) (blast intro: engine_step_inv)+

lemma on_precommit_quorum_sel:
  assumes "on_precommit_quorum env r b w = Some (res, w')"
  shows "e_vset (w_engine w') = e_vset (w_engine w)" "e_cfg (w_engine w') = e_cfg (w_engine w)"
    "cs_height (wstate w') = cs_height (wstate w)"
  using assms by (auto simp: on_precommit_quorum_def Let_def split: option.splits prod.splits)

lemma on_vote_sel:
  assumes "on_vote env v w = Some (r, w')"
  shows "e_vset (w_engine w') = e_vset (w_engine w) \<and> e_cfg (w_engine w') = e_cfg (w_engine w) \<and>
    cs_height (wstate w') = cs_height (wstate w)"
  using assms
proof (cases rule: on_vote_cases)
  case (2 w2)
  then show ?thesis by (auto simp: Let_def dest: on_precommit_quorum_sel)
qed simp

lemma on_message_vset:
  assumes "on_message env msg w = Some (r, w')"
  shows "e_vset (w_engine w') = e_vset (w_engine w) \<and> e_cfg (w_engine w') = e_cfg (w_engine w)"
proof (cases msg)
  case (Msg_Proposal p)
  let ?w = "on_metrics (\<lambda>m. m\<lparr>proposals_received := u64_add (proposals_received m) 1\<rparr>) w"
  have "on_proposal env p ?w = (r, w')" using assms Msg_Proposal by (simp add: on_message_def)
  then have "w' = snd (on_proposal env p ?w)" by simp
  then show ?thesis by simp
next
  case (Msg_Vote v)
  with assms show ?thesis by (auto simp: on_message_def dest!: on_vote_sel)
next
  case (Msg_Evidence ev)
  with assms show ?thesis by (auto simp: on_message_def apply_stakes_sel)
qed

lemma engine_step_vset:
  assumes "engine_step env i w w'"
  shows "e_vset (w_engine w') = e_vset (w_engine w) \<and> e_cfg (w_engine w') = e_cfg (w_engine w)"
  using assms
proof (cases rule: engine_step.cases)
  case (step_msg msg r)
  then show ?thesis by (blast dest: on_message_vset)
next
  case (step_block blk r)
  then show ?thesis using on_block_received_sel(1,2) [of env blk w] by simp
qed (simp_all add: next_height_def)

lemma engine_run_vset:
  "engine_run env ins w w' \<Longrightarrow> e_vset (w_engine w') = e_vset (w_engine w) \<and> e_cfg (w_engine w') = e_cfg (w_engine w)"
  by (induction rule: engine_run.induct) (auto dest: engine_step_vset)

lemma engine_new_inv:
  assumes "engine_new prom cfg vset h prev app l guard = Ok e" "vset_wf vset" "w_engine w = e"
  shows "engine_inv verify w \<and> e_vset (w_engine w) = vset"
  using assms core_inv_new
  by (auto simp: engine_new_def engine_inv_def split: sum.splits option.splits if_splits)

lemma on_message_height:
  assumes "on_message env msg w = Some (r, w')"
  shows "cs_height (wstate w') = cs_height (wstate w)"
proof (cases msg)
  case (Msg_Proposal p)
  let ?w = "on_metrics (\<lambda>m. m\<lparr>proposals_received := u64_add (proposals_received m) 1\<rparr>) w"
  have "on_proposal env p ?w = (r, w')" using assms Msg_Proposal by (simp add: on_message_def)
  then show ?thesis using on_proposal_sel(3) [of env p ?w] by simp
qed (use assms in \<open>auto simp: on_message_def apply_stakes_sel dest: on_vote_sel\<close>)

lemma engine_step_height:
  assumes "engine_step env i w w'"
  shows "cs_height (wstate w') \<le> cs_height (wstate w) + 1"
  using assms
proof (cases rule: engine_step.cases)
  case (step_block blk r)
  then show ?thesis using on_block_received_sel(3) [of env blk w] by simp
next
  case step_next
  then show ?thesis by (simp add: next_height_def state_new_def u64_add_def)
qed (auto dest: on_message_height)

text \<open>Invariants that hold as long as the height does not wrap around.\<close>

lemma engine_run_bounded:
  assumes "engine_run env ins w w'" "P w" "cs_height (wstate w) + length ins < 2 ^ 64"
    and "\<And>i w1 w2. engine_step env i w1 w2 \<Longrightarrow> P w1 \<Longrightarrow> cs_height (wstate w1) + 1 < 2 ^ 64 \<Longrightarrow> P w2"
  shows "P w'"
proof -
  have "P w' \<and> cs_height (wstate w') \<le> cs_height (wstate w) + length ins"
    using assms(1-3)
  proof (induction rule: engine_run.induct)
    case (run_snoc ins w w1 i w2)
    then have IH: "P w1" "cs_height (wstate w1) \<le> cs_height (wstate w) + length ins" by auto
    with run_snoc.prems(2) have "cs_height (wstate w1) + 1 < 2 ^ 64" by simp
    from assms(4) [OF run_snoc.hyps(2) IH(1) this] engine_step_height [OF run_snoc.hyps(2)] IH(2)
    show ?case by simp
  qed simp
  then show ?thesis ..
qed

end
