(* ===== verification/Engine_Sample.thy ===== *)
theory Engine_Sample
  imports Engine_Frame
begin

text \<open>
  A concrete engine on which the witnesses run: one validator with power one, signatures that repeat
  the key and the message, a store that keeps the last block, and no double-sign guard. Its run
  from height 4: a tick makes it propose and prevote, its own prevote makes it precommit, and its
  own precommit commits the block. The block's identifier is a parameter of the run.
\<close>

definition solo_vset :: validator_set where
  "solo_vset = \<lparr>validators = [\<lparr>pk = [9], vpower = 1\<rparr>], lookup = [([9], 1)], total_power = 1,
     strategy = RoundRobin, generation = 0, vs_metrics = zero_vset_metrics\<rparr>"

lemma solo_vset_new: "vset_new [\<lparr>pk = [9], vpower = 1\<rparr>] = Ok solo_vset"
  by (simp add: solo_vset_def vset_new_def new_with_config_def default_vset_config_def u64_sat_add_def
      U64_MAX_def)

lemma solo_vset_wf: "vset_wf solo_vset" "quorum_wf solo_vset"
  by (simp_all add: solo_vset_def quorum_wf_def vset_wf_def bt_sorted_def sum_power_def U64_MAX_def)

definition solo_block :: block where
  "solo_block = \<lparr>header = empty_header, txs = [], b_coherence = DEFAULT_PROTOCOL_COHERENCE\<rparr>"

definition solo_env :: "hash32 \<Rightarrow> (unit, block option, bytes option) engine_env" where
  "solo_env b = \<lparr>ee_verify = echo_verify, ee_public_key = [9], ee_sign = (\<lambda>m. [9] @ m), ee_ds = one_file_env,
     ee_get = (\<lambda>st _. st), ee_put = (\<lambda>_ blk. Some blk), ee_block_id = (\<lambda>_. b),
     ee_derive_address = (\<lambda>_. ''iona1''), ee_build_block = (\<lambda>_ _ _ _ _ _ _ _. solo_block),
     ee_verify_block = (\<lambda>kv _ _ _. Some (kv, [])), ee_next_base_fee = (\<lambda>b _ _. b)\<rparr>"

definition solo_engine :: "ds_guard option \<Rightarrow> unit engine" where
  "solo_engine g = projr (engine_new None default_engine_config solo_vset 4 hash_zero () ledger_default g)"

definition solo_world :: "(unit, block option, bytes option) world" where
  "solo_world = \<lparr>w_engine = solo_engine None, w_store = None, w_out = [], w_fs = None\<rparr>"

definition solo_vote :: "hash32 \<Rightarrow> vote_type \<Rightarrow> vote" where
  "solo_vote b vt = \<lparr>v_type = vt, v_height = 4, v_round = 0, v_voter = [9], v_block_id = Some b,
     v_signature = [9] @ vote_sign_bytes vt 4 0 (Some b)\<rparr>"

definition solo_inputs :: "hash32 \<Rightarrow> engine_input list" where
  "solo_inputs b = [In_Tick 0 (\<lambda>_. []), In_Msg (Msg_Vote (solo_vote b Prevote)), In_Msg (Msg_Vote (solo_vote b Precommit))]"

lemma solo_engine_new:
  "engine_new None default_engine_config solo_vset 4 hash_zero () ledger_default g = Ok (solo_engine g)"
  by (simp add: solo_engine_def engine_new_def engine_config_validate_def default_engine_config_def)

lemma solo_engine_eq:
  "solo_engine g = \<lparr>e_cfg = default_engine_config, e_vset = solo_vset, e_state = state_new 4,
     prev_block_id = hash_zero, app_state = (), stakes = ledger_default, base_fee_per_gas = 1, e_guard = g,
     step_elapsed_ms = 0, e_metrics = zero_consensus_metrics, e_slash_metrics = zero_slashing_metrics\<rparr>"
  by (simp add: solo_engine_def engine_new_def engine_config_validate_def default_engine_config_def)

lemma solo_proposer: "proposer_for solo_vset 4 0 = Some \<lparr>pk = [9], vpower = 1\<rparr>"
  by (simp add: proposer_for_def solo_vset_def proposer_index_def u64_add_def)

lemma solo_env_sel [simp]:
  "ee_verify (solo_env b) = echo_verify" "ee_public_key (solo_env b) = [9]" "ee_sign (solo_env b) m = [9] @ m"
  "ee_get (solo_env b) st hb = st" "ee_put (solo_env b) st blk = Some blk" "ee_block_id (solo_env b) blk = b"
  "ee_derive_address (solo_env b) k = ''iona1''"
  "ee_build_block (solo_env b) h r pb k addr kv fee ts = solo_block"
  "ee_verify_block (solo_env b) kv blk addr k = Some (kv, [])" "ee_next_base_fee (solo_env b) x y z = x"
  by (simp_all add: solo_env_def)

text \<open>The three worlds of the run.\<close>

definition solo_proposal :: "hash32 \<Rightarrow> proposal" where
  "solo_proposal b = \<lparr>p_height = 4, p_round = 0, p_proposer = [9], p_block_id = b,
     p_block = Some solo_block, p_pol_round = None,
     p_signature = [9] @ proposal_sign_bytes 4 0 b None\<rparr>"

definition solo_s1 :: "hash32 \<Rightarrow> consensus_state" where
  "solo_s1 b = (state_new 4)\<lparr>cs_step := S_Prevote, cs_proposal := Some (solo_proposal b),
     cs_proposal_block := Some solo_block\<rparr>"

definition solo_w1 :: "hash32 \<Rightarrow> (unit, block option, bytes option) world" where
  "solo_w1 b = \<lparr>w_engine = (solo_engine None)\<lparr>e_state := solo_s1 b,
       e_metrics := zero_consensus_metrics\<lparr>proposals_broadcast := 1, votes_broadcast := 1\<rparr>\<rparr>,
     w_store = Some solo_block,
     w_out = [Broadcast (Msg_Proposal (solo_proposal b)), Broadcast (Msg_Vote (solo_vote b Prevote))],
     w_fs = None\<rparr>"

lemma solo_propose:
  "maybe_propose (solo_env b) (\<lambda>_. []) solo_world = solo_world\<lparr>
     w_engine := (solo_engine None)\<lparr>e_state := (solo_s1 b)\<lparr>cs_step := S_Propose\<rparr>,
       e_metrics := zero_consensus_metrics\<lparr>proposals_broadcast := 1\<rparr>\<rparr>,
     w_store := Some solo_block, w_out := [Broadcast (Msg_Proposal (solo_proposal b))]\<rparr>"
  by (simp add: maybe_propose_def solo_world_def solo_engine_eq state_new_def is_proposer_def solo_proposer
      guard_call_def put_block_def emit_def on_state_def on_metrics_def on_engine_def solo_s1_def
      solo_proposal_def default_engine_config_def zero_consensus_metrics_def u64_add_def Let_def)

lemma solo_world_sel:
  "set_elapsed 0 solo_world = solo_world" "decided (wstate solo_world) = None"
  "cs_step (wstate solo_world) = S_Propose" "cs_proposal (wstate solo_world) = None"
  "step_elapsed_ms (w_engine solo_world) = 0" "e_cfg (w_engine solo_world) = default_engine_config"
  by (simp_all add: solo_world_def solo_engine_eq state_new_def set_elapsed_def on_engine_def)

lemma solo_tick: "tick (solo_env b) 0 (\<lambda>_. []) solo_world = solo_w1 b"
proof -
  let ?w = "maybe_propose (solo_env b) (\<lambda>_. []) solo_world"
  have made: "cs_proposal (wstate ?w) = Some (solo_proposal b)" "cs_proposal_block (wstate ?w) = Some solo_block"
    unfolding solo_propose by (simp_all add: solo_s1_def)
  have fast: "fast_quorum default_engine_config" "p_block_id (solo_proposal b) = b" "u64_sat_add 0 0 = 0"
    by (simp_all add: default_engine_config_def solo_proposal_def u64_sat_add_def)
  have "tick (solo_env b) 0 (\<lambda>_. []) solo_world = broadcast_vote (solo_env b) Prevote (Some b) (enter_prevote ?w)"
    by (simp add: tick_def Let_def enter_prevote_def solo_world_sel made fast)
  also have "\<dots> = solo_w1 b"
    unfolding solo_propose
    by (simp add: enter_prevote_def solo_world_def solo_engine_eq solo_s1_def state_new_def solo_w1_def
        broadcast_vote_def guard_call_def set_elapsed_def on_state_def on_metrics_def on_engine_def emit_def
        solo_vote_def zero_consensus_metrics_def u64_add_def)
  finally show ?thesis .
qed

text \<open>Its own prevote is a quorum, so it locks the block and precommits.\<close>

definition solo_s2 :: "hash32 \<Rightarrow> consensus_state" where
  "solo_s2 b = (solo_s1 b)\<lparr>cs_step := S_Precommit, valid_round := Some 0, valid_value := Some b,
     locked_round := Some 0, locked_value := Some b,
     votes := [(0, [(Prevote, [([9], solo_vote b Prevote)])])],
     vote_index := [(([9], 4, 0, Prevote), (Some b, solo_vote b Prevote))]\<rparr>"

definition solo_w2 :: "hash32 \<Rightarrow> (unit, block option, bytes option) world" where
  "solo_w2 b = (solo_w1 b)\<lparr>w_engine := (solo_engine None)\<lparr>e_state := solo_s2 b,
       e_metrics := zero_consensus_metrics\<lparr>proposals_broadcast := 1, votes_broadcast := 2, votes_received := 1\<rparr>\<rparr>,
     w_out := [Broadcast (Msg_Proposal (solo_proposal b)), Broadcast (Msg_Vote (solo_vote b Prevote)),
       Broadcast (Msg_Vote (solo_vote b Precommit))]\<rparr>"

lemma solo_verify:
  assumes "e_vset e = solo_vset" "cs_height (e_state e) = 4" "cs_round (e_state e) = 0"
  shows "verify_vote (solo_env b) e (solo_vote b vt) = Ok ()"
  using assms by (simp add: verify_vote_def solo_vote_def solo_vset_def contains_def echo_verify_def)

lemma solo_tally:
  assumes "e_vset e = solo_vset" "votes_for (votes (e_state e)) 0 vt = Some [([9], solo_vote b vt)]"
  shows "tally e 0 vt = Some (Some b, 1)"
  using assms
  by (simp add: tally_def solo_vote_def solo_vset_def add_vote_def power_of_def put_vote_def tracked_def
      tally_default_def default_tally_config_def power_for_def best_def u64_sat_add_def U64_MAX_def)

lemma solo_quorum: "quorum_threshold (total_power solo_vset) = 1"
  by (simp add: solo_vset_def quorum_threshold_def u64_mul_def u64_add_def)

lemma solo_prevote: "on_message (solo_env b) (Msg_Vote (solo_vote b Prevote)) (solo_w1 b) = Some (Ok (), (solo_w2 b))"
proof -
  let ?w = "on_metrics (\<lambda>m. m\<lparr>votes_received := u64_add (votes_received m) 1\<rparr>) (solo_w1 b)"
  let ?w3 = "on_state (\<lambda>_. (solo_s1 b)\<lparr>votes := [(0, [(Prevote, [([9], solo_vote b Prevote)])])],
     vote_index := [(([9], 4, 0, Prevote), (Some b, solo_vote b Prevote))]\<rparr>) ?w"
  have state: "wstate ?w = solo_s1 b" "e_vset (w_engine ?w) = solo_vset"
    by (simp_all add: solo_w1_def solo_engine_eq)
  have s1: "decided (solo_s1 b) = None" "cs_height (solo_s1 b) = 4" "cs_round (solo_s1 b) = 0" "votes (solo_s1 b) = []"
    "vote_index (solo_s1 b) = []" "cs_step (solo_s1 b) = S_Prevote"
    by (simp_all add: solo_s1_def state_new_def)
  have v: "v_type (solo_vote b Prevote) = Prevote" "v_round (solo_vote b Prevote) = 0"
    by (simp_all add: solo_vote_def)
  have rec: "record_vote_and_detect_evidence (solo_vote b Prevote) (solo_s1 b) = (None,
      (solo_s1 b)\<lparr>vote_index := [(([9], 4, 0, Prevote), (Some b, solo_vote b Prevote))]\<rparr>)"
    by (simp add: record_vote_and_detect_evidence_def s1 solo_vote_def)
  have stored: "store_vote (solo_vote b Prevote) [] = [(0, [(Prevote, [([9], solo_vote b Prevote)])])]"
    by (simp add: store_vote_def solo_vote_def)
  have after: "on_state (\<lambda>s. s\<lparr>votes := store_vote (solo_vote b Prevote) (votes s)\<rparr>)
      (on_state (\<lambda>_. (solo_s1 b)\<lparr>vote_index := [(([9], 4, 0, Prevote), (Some b, solo_vote b Prevote))]\<rparr>) ?w) = ?w3"
    by (simp add: on_state_def on_engine_def s1 stored)
  have quorum: "tally (w_engine ?w3) 0 Prevote = Some (Some b, 1)"
    by (rule solo_tally) (simp_all add: solo_w1_def solo_engine_eq votes_for_def)
  have "on_message (solo_env b) (Msg_Vote (solo_vote b Prevote)) (solo_w1 b) =
      Some (Ok (), on_prevote_quorum (solo_env b) (Some b) ?w3)"
    using solo_verify [of "w_engine ?w"] state s1
    by (simp add: on_message_def on_vote_def rec v after [simplified] quorum [simplified] solo_quorum)
  also have "on_prevote_quorum (solo_env b) (Some b) ?w3 = solo_w2 b"
    by (simp add: on_prevote_quorum_def broadcast_vote_def guard_call_def solo_w1_def solo_w2_def solo_engine_eq
        set_elapsed_def on_state_def on_metrics_def on_engine_def emit_def solo_s1_def solo_s2_def state_new_def
        solo_vote_def zero_consensus_metrics_def u64_add_def)
  finally show ?thesis .
qed

text \<open>Its own precommit is a quorum, so it commits.\<close>

definition solo_cert :: "hash32 \<Rightarrow> commit_certificate" where
  "solo_cert b = \<lparr>cc_height = 4, cc_block_id = b, precommits = [solo_vote b Precommit]\<rparr>"

definition solo_s3 :: "hash32 \<Rightarrow> consensus_state" where
  "solo_s3 b = (solo_s2 b)\<lparr>cs_step := S_Commit,
     votes := [(0, [(Prevote, [([9], solo_vote b Prevote)]), (Precommit, [([9], solo_vote b Precommit)])])],
     vote_index := [(([9], 4, 0, Prevote), (Some b, solo_vote b Prevote)),
       (([9], 4, 0, Precommit), (Some b, solo_vote b Precommit))],
     decided := Some (solo_cert b)\<rparr>"

lemma solo_precommit:
  "\<exists>w. on_message (solo_env b) (Msg_Vote (solo_vote b Precommit)) (solo_w2 b) = Some (Ok (), w) \<and>
    wstate w = (solo_s3 b) \<and> w_out w = w_out (solo_w2 b) @ [OnCommit (solo_cert b) solo_block () 1 []]"
proof -
  let ?w = "on_metrics (\<lambda>m. m\<lparr>votes_received := u64_add (votes_received m) 1\<rparr>) (solo_w2 b)"
  let ?idx = "[(([9], 4, 0, Prevote), (Some b, solo_vote b Prevote)),
       (([9], 4, 0, Precommit), (Some b, solo_vote b Precommit))]"
  let ?votes = "[(0, [(Prevote, [([9], solo_vote b Prevote)]), (Precommit, [([9], solo_vote b Precommit)])])]"
  let ?w3 = "on_state (\<lambda>_. (solo_s2 b)\<lparr>votes := ?votes, vote_index := ?idx\<rparr>) ?w"
  have state: "wstate ?w = solo_s2 b" "e_vset (w_engine ?w) = solo_vset" "w_store ?w = Some solo_block"
    by (simp_all add: solo_w1_def solo_w2_def solo_engine_eq)
  have s2: "decided (solo_s2 b) = None" "cs_height (solo_s2 b) = 4" "cs_round (solo_s2 b) = 0"
    "votes (solo_s2 b) = [(0, [(Prevote, [([9], solo_vote b Prevote)])])]"
    "vote_index (solo_s2 b) = [(([9], 4, 0, Prevote), (Some b, solo_vote b Prevote))]" "cs_step (solo_s2 b) = S_Precommit"
    by (simp_all add: solo_s1_def solo_s2_def state_new_def)
  have v: "v_type (solo_vote b Precommit) = Precommit" "v_round (solo_vote b Precommit) = 0"
    by (simp_all add: solo_vote_def)
  have rec: "record_vote_and_detect_evidence (solo_vote b Precommit) (solo_s2 b) = (None, (solo_s2 b)\<lparr>vote_index := ?idx\<rparr>)"
    by (simp add: record_vote_and_detect_evidence_def s2 solo_vote_def less_vote_type_def)
  have stored: "store_vote (solo_vote b Precommit) [(0, [(Prevote, [([9], solo_vote b Prevote)])])] = ?votes"
    by (simp add: store_vote_def v less_vote_type_def) (simp add: solo_vote_def)
  have after: "on_state (\<lambda>s. s\<lparr>votes := store_vote (solo_vote b Precommit) (votes s)\<rparr>)
      (on_state (\<lambda>_. (solo_s2 b)\<lparr>vote_index := ?idx\<rparr>) ?w) = ?w3"
    by (simp add: on_state_def on_engine_def s2 stored)
  have quorum: "tally (w_engine ?w3) 0 Precommit = Some (Some b, 1)"
    by (rule solo_tally) (simp_all add: solo_w1_def solo_w2_def solo_engine_eq votes_for_def)
  have coll: "collect_votes (w_engine ?w3) 0 Precommit (Some b) = [solo_vote b Precommit]"
    by (simp add: collect_votes_def votes_for_def) (simp add: solo_vote_def)
  have "on_message (solo_env b) (Msg_Vote (solo_vote b Precommit)) (solo_w2 b) = on_precommit_quorum (solo_env b) 0 (Some b) ?w3"
    using solo_verify [of "w_engine ?w"] state s2
    by (simp add: on_message_def on_vote_def rec v after [simplified] quorum [simplified] solo_quorum)
  then show ?thesis
    using state s2 solo_proposer coll
    by (simp add: on_precommit_quorum_def solo_s3_def solo_cert_def Let_def)
      (simp add: solo_w1_def solo_w2_def solo_engine_eq)
qed

lemma solo_run: "\<exists>w. engine_run (solo_env b) (solo_inputs b) solo_world w \<and> wstate w = solo_s3 b"
proof -
  from solo_precommit obtain w where pc: "on_message (solo_env b) (Msg_Vote (solo_vote b Precommit)) (solo_w2 b) = Some (Ok (), w)"
    and w: "wstate w = solo_s3 b" by blast
  have "engine_run (solo_env b) ([] @ [In_Tick 0 (\<lambda>_. [])]) solo_world (tick (solo_env b) 0 (\<lambda>_. []) solo_world)"
    by (rule run_snoc [OF run_nil step_tick])
  then have "engine_run (solo_env b) ([] @ [In_Tick 0 (\<lambda>_. [])]) solo_world (solo_w1 b)" by (simp only: solo_tick)
  from run_snoc [OF run_snoc [OF this step_msg [OF solo_prevote]] step_msg [OF pc]] w show ?thesis
    by (auto simp: solo_inputs_def)
qed

end
