(* ===== verification/Engine_Properties.thy ===== *)
theory Engine_Properties
  imports Engine_Safety Engine_Sample
begin

text \<open>
  What the engine guarantees, over any sequence of ticks, messages, blocks and height changes, and
  where it falls short of the protocol it implements.
\<close>

section \<open>Decisions\<close>

lemma decided_sound:
  assumes "engine_new prom cfg vset h prev app l guard = Ok (w_engine w)" "vset_wf vset"
    and "engine_run env ins w w'" "decided (wstate w') = Some cert"
  shows "cc_height cert = cs_height (wstate w') \<and> (\<exists>r. cert_sound (ee_verify env) vset r cert)"
proof -
  have start: "engine_inv (ee_verify env) w" "e_vset (w_engine w) = vset"
    using engine_new_inv [OF assms(1,2) refl] by simp_all
  have "engine_inv (ee_verify env) w'" by (rule engine_run_inv [OF assms(3) start(1)])
  moreover have "e_vset (w_engine w') = vset" using engine_run_vset [OF assms(3)] start(2) by simp
  ultimately show ?thesis using assms(4) by (auto simp: engine_inv_def core_inv_def)
qed

text \<open>
  C3. Every decision is certified: whatever an engine with a well-formed validator set receives, if
  it has decided then its certificate passes verification, is for the engine's height, and is made
  of verified precommits for the decided block, from distinct validators, of one round, with the
  power of a quorum.
\<close>

theorem decision_certified:
  assumes "engine_new prom cfg vset h prev app l guard = Ok (w_engine w)" "vset_wf vset"
    and "engine_run env ins w w'" "decided (wstate w') = Some cert"
  shows "certificate_verify (ee_verify env) vset cert = Ok () \<and> cc_height cert = cs_height (wstate w') \<and>
    (\<exists>r. cert_sound (ee_verify env) vset r cert)"
  using decided_sound [OF assms] cert_sound_verifies [OF assms(2)] by blast

theorem decision_certified_witness:
  "certificate_verify echo_verify solo_vset (solo_cert [1]) = Ok () \<and>
   (\<exists>w'. engine_run (solo_env [1]) (solo_inputs [1]) solo_world w' \<and> decided (wstate w') = Some (solo_cert [1]) \<and>
     cc_height (solo_cert [1]) = cs_height (wstate w')) \<and> (\<exists>r. cert_sound echo_verify solo_vset r (solo_cert [1]))"
proof -
  obtain w' where run: "engine_run (solo_env [1]) (solo_inputs [1]) solo_world w'" and w': "wstate w' = (solo_s3 [1])"
    using solo_run by blast
  have new: "engine_new None default_engine_config solo_vset 4 hash_zero () ledger_default None =
      Ok (w_engine solo_world)" by (simp add: solo_engine_new solo_world_def)
  have dec: "decided (wstate w') = Some (solo_cert [1])" by (simp add: w' solo_s3_def)
  show ?thesis using decision_certified [OF new solo_vset_wf(1) run dec] run dec by auto
qed

text \<open>The keys that signed both of two certificates, in a way that passes evidence validation.\<close>

definition culprits :: "verifier \<Rightarrow> commit_certificate \<Rightarrow> commit_certificate \<Rightarrow> bytes set" where
  "culprits verify c1 c2 = {k. \<exists>v1 \<in> set (precommits c1). \<exists>v2 \<in> set (precommits c2).
     evidence_validate verify default_evidence_config
       (DoubleVote k (v_height v1) (v_round v1) Precommit (v_block_id v1) (v_block_id v2) v1 v2) = Ok ()}"

lemma certs_culprits:
  assumes "quorum_wf vset" "cert_sound verify vset r c1" "cert_sound verify vset r c2"
    "cc_height c1 = cc_height c2" "cc_block_id c1 \<noteq> cc_block_id c2"
  shows "total_power vset < 3 * key_weight vset (culprits verify c1 c2)"
proof -
  let ?K1 = "v_voter ` set (precommits c1)" and ?K2 = "v_voter ` set (precommits c2)"
  have "?K1 \<inter> ?K2 \<subseteq> culprits verify c1 c2"
  proof
    fix k assume "k \<in> ?K1 \<inter> ?K2"
    then obtain v1 v2 where v: "v1 \<in> set (precommits c1)" "v_voter v1 = k" "v2 \<in> set (precommits c2)" "v_voter v2 = k"
      by auto
    have p1: "v_type v1 = Precommit" "v_round v1 = r" "v_block_id v1 = Some (cc_block_id c1)"
        "vote_valid verify vset (cc_height c1) v1"
      and p2: "v_type v2 = Precommit" "v_round v2 = r" "v_block_id v2 = Some (cc_block_id c2)"
        "vote_valid verify vset (cc_height c2) v2"
      using v assms(2,3) by (auto simp: cert_sound_def)
    have "v1 \<noteq> v2" using p1(3) p2(3) assms(5) by auto
    then have "evidence_validate verify default_evidence_config
       (DoubleVote k (v_height v1) (v_round v1) Precommit (v_block_id v1) (v_block_id v2) v1 v2) = Ok ()"
      using p1 p2 v(2,4) assms(4,5)
      by (auto simp add: vote_valid_def vote_bytes_def verify_both_ok default_evidence_config_def)
    with v show "k \<in> culprits verify c1 c2" unfolding culprits_def by blast
  qed
  then have "key_weight vset (?K1 \<inter> ?K2) \<le> key_weight vset (culprits verify c1 c2)"
    by (rule vq.weight_mono)
  moreover have "total_power vset < 3 * key_weight vset (?K1 \<inter> ?K2)"
    using assms(2,3) by (intro vq.quorums_overlap [OF assms(1)]) (auto simp: cert_sound_def)
  ultimately show ?thesis by linarith
qed

text \<open>
  C1. Accountable safety within a round: if two engines with the same validator set and verifier
  decide different blocks at the same height with precommits of the same round, then validators
  with more than a third of the power signed both sides, and each of them is convicted by
  evidence that validates.
\<close>

theorem accountable_safety:
  assumes "quorum_wf vset" "ee_verify env1 = verify" "ee_verify env2 = verify"
    and "engine_new prom1 cfg1 vset h1 prev1 app1 l1 g1 = Ok (w_engine w1)" "engine_run env1 ins1 w1 w1'"
    and "engine_new prom2 cfg2 vset h2 prev2 app2 l2 g2 = Ok (w_engine w2)" "engine_run env2 ins2 w2 w2'"
    and "decided (wstate w1') = Some c1" "decided (wstate w2') = Some c2"
    and "cc_height c1 = cc_height c2" "v_round ` set (precommits c1) = v_round ` set (precommits c2)"
    and "cc_block_id c1 \<noteq> cc_block_id c2"
  shows "total_power vset < 3 * key_weight vset (culprits verify c1 c2)"
proof -
  have wf: "vset_wf vset" using assms(1) by (simp add: quorum_wf_def)
  obtain r1 r2 where r: "cert_sound verify vset r1 c1" "cert_sound verify vset r2 c2"
    using decided_sound [OF assms(4) wf assms(5,8)] decided_sound [OF assms(6) wf assms(7,9)] assms(2,3) by auto
  have "precommits c1 \<noteq> []"
  proof
    assume "precommits c1 = []"
    then have "quorum_threshold (total_power vset) = 0" using r(1) by (simp add: cert_sound_def key_weight_def)
    then show False using vq.threshold_bound [OF assms(1)] by simp
  qed
  then have "r1 = r2" using r assms(11) by (fastforce simp: cert_sound_def image_iff neq_Nil_conv)
  then show ?thesis using certs_culprits [OF assms(1)] r assms(10,12) by blast
qed

theorem accountable_safety_witness:
  "total_power solo_vset < 3 * key_weight solo_vset (culprits echo_verify (solo_cert [1]) (solo_cert [2])) \<and>
   (\<forall>b. \<exists>w. engine_run (solo_env b) (solo_inputs b) solo_world w \<and> decided (wstate w) = Some (solo_cert b))"
proof -
  have runs: "\<exists>w. engine_run (solo_env b) (solo_inputs b) solo_world w \<and> decided (wstate w) = Some (solo_cert b)" for b
    using solo_run [of b] by (auto simp: solo_s3_def)
  obtain w1 w2 where w: "engine_run (solo_env [1]) (solo_inputs [1]) solo_world w1"
    "decided (wstate w1) = Some (solo_cert [1])" "engine_run (solo_env [2]) (solo_inputs [2]) solo_world w2"
    "decided (wstate w2) = Some (solo_cert [2])" using runs [of "[1]"] runs [of "[2]"] by blast
  have new: "engine_new None default_engine_config solo_vset 4 hash_zero () ledger_default None =
      Ok (w_engine solo_world)" by (simp add: solo_engine_new solo_world_def)
  have "total_power solo_vset < 3 * key_weight solo_vset (culprits echo_verify (solo_cert [1]) (solo_cert [2]))"
    by (rule accountable_safety [OF solo_vset_wf(2) _ _ new w(1) new w(3) w(2,4)])
      (simp_all add: solo_cert_def solo_vote_def)
  with runs show ?thesis by blast
qed

section \<open>Where the engine departs from the protocol\<close>

lemma power_of_contains: "power_of vset k = Some w \<Longrightarrow> contains vset k"
  by (auto simp: power_of_def contains_def)

lemma verify_repeated:
  assumes "power_of vset (v_voter v) = Some w" "verify (v_voter v) (vote_bytes v) (v_signature v) = Ok ()" "p \<le> U64_MAX"
  shows "verify_precommits verify vset (replicate n v) p = Ok (min (p + n * w) U64_MAX)"
  using assms(3)
proof (induction n arbitrary: p)
  case (Suc n)
  have "u64_sat_add p w = min (p + w) U64_MAX" by (simp add: u64_sat_add_def)
  with Suc.IH [of "min (p + w) U64_MAX"] assms(1,2) power_of_contains [OF assms(1)] show ?case
    by (auto simp: vote_bytes_def min_def)
qed simp

text \<open>
  \<open>CommitCertificate::verify\<close> counts a repeated vote again and looks neither at the block, the
  height nor the type of a vote: enough copies of one correctly signed vote, a prevote for nil
  included, make a certificate for any block at any height.
\<close>

theorem certificate_accepts_repeated_vote:
  assumes "power_of vset (v_voter v) = Some w" "verify (v_voter v) (vote_bytes v) (v_signature v) = Ok ()"
    and "quorum_threshold (total_power vset) \<le> n * w"
  shows "certificate_verify verify vset \<lparr>cc_height = h, cc_block_id = b, precommits = replicate n v\<rparr> = Ok ()"
proof -
  have "quorum_threshold (total_power vset) \<le> U64_MAX"
    by (auto simp: quorum_threshold_def u64_add_def U64_MAX_def intro: less_Suc_eq_le [THEN iffD1])
  then show ?thesis
    using verify_repeated [of vset v w verify 0 n] assms by (simp add: certificate_verify_def)
qed

theorem certificate_accepts_repeated_vote_witness:
  "certificate_verify echo_verify four_validators
     \<lparr>cc_height = 77, cc_block_id = [5], precommits = replicate 3 (echo_vote [1] None)\<rparr> = Ok ()"
proof (rule certificate_accepts_repeated_vote)
  show "power_of four_validators (v_voter (echo_vote [1] None)) = Some 1"
    by (simp add: four_validators_eq echo_vote_def power_of_def)
  show "quorum_threshold (total_power four_validators) \<le> 3 * 1"
    by (simp add: four_validators_eq quorum_threshold_def u64_add_def u64_mul_def)
qed (simp add: echo_verify_def echo_vote_def vote_bytes_def)

text \<open>
  C40. The engine acts on evidence it receives without validating it: a message that names a staked
  validator, with any two votes and no signature of that validator, takes part of its stake.
\<close>

theorem forged_evidence_slashes:
  assumes "bt_sorted (l_validators (stakes (w_engine w)))"
    and "bt_get (l_validators (stakes (w_engine w))) k = Some rec" "\<not> is_tombstoned rec" "0 < stake rec"
    and "slash_double_vote (l_config (stakes (w_engine w))) \<noteq> 0"
  shows "\<exists>w'. on_message env (Msg_Evidence (DoubleVote k h r vt a b va vb)) w = Some (Ok (), w') \<and>
    get_stake (stakes (w_engine w')) k < get_stake (stakes (w_engine w)) k"
proof -
  let ?ev = "DoubleVote k h r vt a b va vb" and ?l = "stakes (w_engine w)"
  obtain amt where amt: "slash_amount_of (stake rec) (fst (evidence_fraction (l_config ?l) ?ev)) = Some amt"
    using assms(5) by (simp add: slash_amount_of_def)
  then obtain l' m' where ok: "ledger_apply_evidence ?ev ?l (e_slash_metrics (w_engine w)) = Some (Ok (), l', m')"
    using apply_evidence_proceeds [of ?l ?ev rec amt "e_slash_metrics (w_engine w)"] assms(2,3) by auto
  from ok obtain r' amt' where l': "l' = ?l\<lparr>l_validators := bt_insert k r' (l_validators ?l),
      community_pool := u64_add (community_pool ?l) amt'\<rparr>" and out: "slash_outcome rec amt' r'"
    and amt': "slash_amount_of (stake rec) (fst (evidence_fraction (l_config ?l) ?ev)) = Some amt'"
    using assms(2) by (elim apply_evidence_ok) auto
  have "0 < amt'" using amt' by (auto simp: slash_amount_of_def split: if_splits)
  then have "stake r' < stake rec" using out assms(4) by (auto simp: slash_outcome_def)
  then have "get_stake l' k < get_stake ?l k"
    using assms(2) by (simp add: get_stake_def l' bt.get_ins [OF assms(1)])
  then show ?thesis using ok by (simp add: on_message_def apply_stakes_def)
qed

text \<open>An engine at height 4 whose ledger holds 100 for the only validator.\<close>

definition staked_world :: "(unit, block option, bytes option) world" where
  "staked_world = solo_world\<lparr>w_engine := (solo_engine None)\<lparr>stakes := ledger_default\<lparr>l_validators :=
     [([9], record_new 100)]\<rparr>\<rparr>\<rparr>"

theorem forged_evidence_slashes_witness:
  "\<exists>w'. on_message (solo_env [1]) (Msg_Evidence (DoubleVote [9] 1 0 Prevote None None
       (echo_vote [8] None) (echo_vote [8] None))) staked_world = Some (Ok (), w') \<and>
     get_stake (stakes (w_engine w')) [9] < get_stake (stakes (w_engine staked_world)) [9]"
  by (rule forged_evidence_slashes [where rec = "record_new 100"])
    (simp_all add: staked_world_def ledger_default_def ledger_new_def default_slashing_config_def
      record_new_def is_tombstoned_def bt_sorted_def)

text \<open>
  A lock does not bind an engine that proposes: an engine locked on a block that becomes the
  proposer of the next round builds a new block and, on its next tick, prevotes it, though
  \<open>prevote_choice\<close> for a locked engine would be nil. The lock itself is still in place.
\<close>

theorem lock_ignored_by_proposer:
  fixes env :: "('kv, 'st, 'fs) engine_env"
  assumes "decided (wstate w) = None" "cs_step (wstate w) = S_Precommit" "e_guard (w_engine w) = None"
    and "locked_value (wstate w) = Some b" "fast_quorum (e_cfg (w_engine w))"
    and "cs_round (wstate w) + 1 < max_rounds (e_cfg (w_engine w))" "max_rounds (e_cfg (w_engine w)) \<le> U32_MAX"
    and "precommit_timeout_ms (e_cfg (w_engine w)) \<le> dt" "dt \<le> U64_MAX"
    and "map_option pk (proposer_for (e_vset (w_engine w)) (cs_height (wstate w)) (cs_round (wstate w) + 1)) =
      Some (ee_public_key env)"
    and "ee_block_id env (ee_build_block env (cs_height (wstate w)) (cs_round (wstate w) + 1) (prev_block_id (w_engine w))
      (ee_public_key env) (ee_derive_address env (ee_public_key env)) (app_state (w_engine w))
      (base_fee_per_gas (w_engine w)) []) = x" "x \<noteq> b"
    and w2: "w2 = tick env 0 drain' (tick env dt drain w)"
  shows "\<exists>v. Broadcast (Msg_Vote v) \<in> set (w_out w2) \<and> v_type v = Prevote \<and> v_block_id v = Some x \<and>
    v_round v = cs_round (wstate w) + 1 \<and> locked_value (wstate w2) = Some b \<and> prevote_choice (wstate w2) x = None"
proof -
  let ?r = "cs_round (wstate w) + 1"
  define w0 where "w0 = on_metrics (\<lambda>m. m\<lparr>round_advancements := u64_add (round_advancements m) 1\<rparr>)
    (set_elapsed 0 (on_state state_advance_round (set_elapsed (u64_sat_add (step_elapsed_ms (w_engine w)) dt) w)))"
  have round: "u32_add (cs_round (wstate w)) 1 = ?r" "u32_sat_add (cs_round (wstate w)) 1 = ?r"
    using assms(6,7) by (simp_all add: u32_add_def u32_sat_add_def U32_MAX_def)
  have slow: "precommit_timeout_ms (e_cfg (w_engine w)) \<le> u64_sat_add (step_elapsed_ms (w_engine w)) dt"
    using assms(8,9) by (simp add: u64_sat_add_def)
  have first: "tick env dt drain w = maybe_propose env (\<lambda>_. []) w0"
    using assms(1,2,6) slow round by (simp add: tick_def advance_round_def w0_def)
  have w0: "wstate w0 = state_advance_round (wstate w)" "e_guard (w_engine w0) = None"
    "e_vset (w_engine w0) = e_vset (w_engine w)" "step_elapsed_ms (w_engine w0) = 0" "e_cfg (w_engine w0) = e_cfg (w_engine w)"
    using assms(3) by (simp_all add: w0_def)
  have self: "cs_proposal (wstate w0) = None" "is_proposer (w_engine w0) (ee_public_key env)"
    using assms(10) round(2) by (auto simp: w0 state_advance_round_def is_proposer_def split: option.splits)
  define w1 where "w1 = maybe_propose env (\<lambda>_. []) w0"
  obtain p blk where p: "cs_proposal (wstate w1) = Some p" "cs_proposal_block (wstate w1) = Some blk"
      "e_guard (w_engine w1) = None" "p_block_id p = x"
    using self w0(2) assms(11) round(2)
    by (simp add: w1_def maybe_propose_def guard_call_def Let_def w0 state_advance_round_def) (simp add: w0_def)
  have keep: "cs_round (wstate w1) = ?r" "cs_step (wstate w1) = S_Propose" "decided (wstate w1) = None"
    "locked_value (wstate w1) = Some b" "e_cfg (w_engine w1) = e_cfg (w_engine w)" "step_elapsed_ms (w_engine w1) = 0"
    using assms(1,4) by (simp_all add: w1_def w0 state_advance_round_def round(2) [simplified])
  have "w2 = tick env 0 drain' w1" by (simp only: w2 first w1_def)
  then have vote: "w2 = broadcast_vote env Prevote (Some x) (enter_prevote (set_elapsed 0 w1))"
    using p keep assms(5) by (simp add: tick_def enter_prevote_def u64_sat_add_def Let_def)
  have lock: "locked_value (wstate w2) = Some b" unfolding vote by (simp add: keep)
  let ?v = "\<lparr>v_type = Prevote, v_height = cs_height (wstate w1), v_round = ?r, v_voter = ee_public_key env,
    v_block_id = Some x, v_signature = ee_sign env (vote_sign_bytes Prevote (cs_height (wstate w1)) ?r (Some x))\<rparr>"
  have "w_out w2 = w_out w1 @ [Broadcast (Msg_Vote ?v)]"
    unfolding vote by (simp add: broadcast_vote_def guard_call_def p keep Let_def)
  then show ?thesis using lock assms(12) by (intro exI [of _ ?v] conjI) (simp_all add: prevote_choice_def)
qed

theorem lock_ignored_by_proposer_witness:
  "\<exists>v. Broadcast (Msg_Vote v) \<in> set (w_out (tick (solo_env [2]) 0 (\<lambda>_. []) (tick (solo_env [2]) 200 (\<lambda>_. []) (solo_w2 [1])))) \<and>
     v_type v = Prevote \<and> v_block_id v = Some [2] \<and> v_round v = cs_round (wstate (solo_w2 [1])) + 1 \<and>
     locked_value (wstate (tick (solo_env [2]) 0 (\<lambda>_. []) (tick (solo_env [2]) 200 (\<lambda>_. []) (solo_w2 [1])))) = Some [1]"
proof -
  have "proposer_for solo_vset 4 1 = Some \<lparr>pk = [9], vpower = 1\<rparr>"
    by (simp add: proposer_for_def solo_vset_def proposer_index_def u64_add_def)
  then show ?thesis
    using lock_ignored_by_proposer [where env = "solo_env [2]" and w = "solo_w2 [1]" and b = "[1]" and dt = 200
        and x = "[2]" and drain = "\<lambda>_. []" and drain' = "\<lambda>_. []", OF _ _ _ _ _ _ _ _ _ _ _ _ refl]
    by (auto simp: solo_w2_def solo_w1_def solo_s2_def solo_s1_def solo_engine_eq state_new_def
        default_engine_config_def U32_MAX_def U64_MAX_def)
qed

end
