(* ===== verification/Engine_Signing.thy ===== *)
theory Engine_Signing
  imports Engine_Safety Engine_Sample
begin

text \<open>
  The engine under the double-sign guard: whatever it receives, the proposals and votes it broadcasts
  never contradict each other. The guard is used by the engine through \<open>guard_call\<close>; the invariant
  says that the guard covers every message sent so far and has not seen a height above the engine's.
\<close>

section \<open>What an engine has signed\<close>

fun event_key :: "'kv out_event \<Rightarrow> signed_key option" where
  "event_key (Broadcast (Msg_Proposal p)) = Some (SK_Proposal (p_height p) (p_round p) (p_block_id p))"
| "event_key (Broadcast (Msg_Vote v)) =
     Some (SK_Vote (vote_type_as_u8 (v_type v)) (v_height v) (v_round v) (v_block_id v))"
| "event_key _ = None"

definition sent :: "('kv, 'st, 'fs) world \<Rightarrow> signed_key set" where
  "sent w = {k. \<exists>ev \<in> set (w_out w). event_key ev = Some k}"

definition guard_inv :: "signed_key set \<Rightarrow> height \<Rightarrow> ds_guard \<Rightarrow> bool" where
  "guard_inv hist h g \<longleftrightarrow> covers hist g \<and> conflict_free hist \<and> highest_height g \<le> h"

definition signing_inv :: "signed_key set \<Rightarrow> ('kv, 'st, 'fs) world \<Rightarrow> bool" where
  "signing_inv hist w \<longleftrightarrow>
     (case e_guard (w_engine w) of None \<Rightarrow> False | Some g \<Rightarrow> guard_inv (hist \<union> sent w) (cs_height (wstate w)) g)"

lemma guard_inv_mono: "guard_inv hist h g \<Longrightarrow> hist' \<subseteq> hist \<Longrightarrow> h \<le> h' \<Longrightarrow> guard_inv hist' h' g"
  unfolding guard_inv_def covers_def conflict_free_def by (meson subsetD order_trans)

lemma guard_inv_check:
  assumes "guard_inv hist h (fst s)" "sk_height (req_key q) = h"
  shows "guard_inv hist h (fst (snd (check_request env q s)))"
    and "highest_height (fst (snd (check_request env q s))) = h"
  using assms covers_check [of hist s q env] check_request_effect(2) [of q h env s]
  by (simp_all add: guard_inv_def)

lemma guard_inv_record:
  assumes "guard_inv hist h (fst s)" "sk_height (req_key q) = h" "is_ok (fst (check_request env q s))"
  shows "guard_inv (insert (req_key q) hist) h
    (fst (snd (record_request env q (snd (check_request env q s)))))"
proof -
  let ?s1 = "snd (check_request env q s)"
  have inv: "guard_inv hist h (fst ?s1)" "highest_height (fst ?s1) = h"
    using guard_inv_check [OF assms(1,2)] by simp_all
  have cov: "covers (insert (req_key q) hist) (fst (snd (record_request env q ?s1)))"
    unfolding record_request_key using inv assms(2) by (intro covers_record) (simp_all add: guard_inv_def)
  have "\<not> keys_conflict (req_key q) k" if "k \<in> hist" for k
  proof
    assume c: "keys_conflict (req_key q) k"
    then have "k \<in> set (signed_set (fst ?s1))"
      using inv that assms(2) keys_conflict_height [OF c] by (simp add: guard_inv_def covers_def)
    with assms(3) c show False by (simp add: check_request_ok)
  qed
  then have "conflict_free (insert (req_key q) hist)"
    using inv(1) keys_conflict_sym by (auto simp: guard_inv_def conflict_free_def)
  with cov inv(2) show ?thesis by (simp add: guard_inv_def record_request_key record_key_effect)
qed

section \<open>Frames\<close>

lemma signing_inv_cong:
  "e_guard (w_engine w) = e_guard (w_engine w') \<Longrightarrow> sent w = sent w' \<Longrightarrow> cs_height (wstate w) = cs_height (wstate w') \<Longrightarrow>
    signing_inv hist w = signing_inv hist w'"
  by (simp add: signing_inv_def split: option.split)

lemma sent_emit: "sent (emit ev w) = (case event_key ev of None \<Rightarrow> sent w | Some k \<Rightarrow> insert k (sent w))"
  by (auto simp: sent_def split: option.splits)

lemma signing_on [simp]:
  "signing_inv hist (on_metrics f w) = signing_inv hist w"
  "signing_inv hist (set_elapsed t w) = signing_inv hist w"
  "signing_inv hist (put_block env b w) = signing_inv hist w"
  "signing_inv hist (request_block bid w) = signing_inv hist w"
  "signing_inv hist (enter_prevote w) = signing_inv hist w"
  by (rule signing_inv_cong; simp add: sent_def)+

lemma signing_on_state [simp]:
  "cs_height (f (wstate w)) = cs_height (wstate w) \<Longrightarrow> signing_inv hist (on_state f w) = signing_inv hist w"
  by (rule signing_inv_cong) (simp_all add: sent_def)

lemma signing_emit [simp]: "event_key ev = None \<Longrightarrow> signing_inv hist (emit ev w) = signing_inv hist w"
  by (rule signing_inv_cong) (simp_all add: sent_emit)

text \<open>The pattern of both broadcasts: check, record, and send when both succeed.\<close>

lemma signing_guarded:
  fixes env :: "'fs ds_env" and w :: "('kv, 'st, 'fs) world"
  assumes inv: "signing_inv hist w" and h: "sk_height (req_key q) = cs_height (wstate w)"
  defines "c \<equiv> guard_call (check_request env q) w"
  defines "r \<equiv> guard_call (record_request env q) (snd c)"
  shows "signing_inv hist (snd c)" "fst c \<Longrightarrow> signing_inv (insert (req_key q) hist) (snd r)"
    "fst c \<Longrightarrow> signing_inv hist (snd r)"
    "cs_height (wstate (snd c)) = cs_height (wstate w)" "cs_height (wstate (snd r)) = cs_height (wstate w)"
proof -
  obtain g where g: "e_guard (w_engine w) = Some g" and gi: "guard_inv (hist \<union> sent w) (cs_height (wstate w)) g"
    using inv by (auto simp: signing_inv_def split: option.splits)
  let ?s1 = "snd (check_request env q (g, w_fs w))"
  have c: "snd c = w\<lparr>w_engine := (w_engine w)\<lparr>e_guard := Some (fst ?s1)\<rparr>, w_fs := snd ?s1\<rparr>"
    "fst c = is_ok (fst (check_request env q (g, w_fs w)))"
    by (simp_all add: c_def guard_call_def g split_def Let_def)
  let ?s2 = "snd (record_request env q ?s1)"
  have r: "snd r = w\<lparr>w_engine := (w_engine w)\<lparr>e_guard := Some (fst ?s2)\<rparr>, w_fs := snd ?s2\<rparr>"
    by (simp add: r_def guard_call_def c split_def Let_def)
  have same: "sent (snd c) = sent w" "sent (snd r) = sent w" by (simp_all add: c r sent_def)
  show "signing_inv hist (snd c)"
    using guard_inv_check(1) [of _ _ "(g, w_fs w)"] gi h same by (simp add: signing_inv_def c)
  show rec: "signing_inv (insert (req_key q) hist) (snd r)" if "fst c"
    using guard_inv_record [of _ _ "(g, w_fs w)" q env] gi h that same by (simp add: signing_inv_def r c)
  show "signing_inv hist (snd r)" if "fst c"
    using rec [OF that] guard_inv_mono [of _ "cs_height (wstate w)" _ "hist \<union> sent w"] same
    by (auto simp: signing_inv_def r split: option.splits)
  show "cs_height (wstate (snd c)) = cs_height (wstate w)" "cs_height (wstate (snd r)) = cs_height (wstate w)"
    by (simp_all add: c r)
qed

lemma signing_sent:
  "signing_inv (insert k hist) w \<Longrightarrow> event_key ev = Some k \<Longrightarrow> signing_inv hist (emit ev w)"
  by (simp add: signing_inv_def sent_emit split: option.splits)

lemma engine_requests:
  "check_vote env vt h r bid = check_request env (Req_Vote vt h r bid)"
  "record_vote env vt h r bid = record_request env (Req_Vote vt h r bid)"
  "check_proposal env h r b = check_request env (Req_Proposal h r b)"
  "record_proposal env h r b = record_request env (Req_Proposal h r b)"
  by (simp_all add: fun_eq_iff)

lemma signing_broadcast_vote [intro!]:
  assumes "signing_inv hist w"
  shows "signing_inv hist (broadcast_vote env vt bid w)"
proof -
  let ?q = "Req_Vote vt (cs_height (wstate w)) (cs_round (wstate w)) bid"
  note g = signing_guarded [OF assms, of ?q "ee_ds env", simplified]
  show ?thesis
    using g by (auto simp: broadcast_vote_def engine_requests split_def Let_def intro!: signing_sent)
qed

lemma signing_maybe_propose [intro!]:
  assumes "signing_inv hist w"
  shows "signing_inv hist (maybe_propose env drain w)"
proof -
  define bid where "bid = ee_block_id env (ee_build_block env (cs_height (wstate w)) (cs_round (wstate w))
    (prev_block_id (w_engine w)) (ee_public_key env) (ee_derive_address env (ee_public_key env))
    (app_state (w_engine w)) (base_fee_per_gas (w_engine w)) (drain (max_txs_per_block (e_cfg (w_engine w)))))"
  let ?q = "Req_Proposal (cs_height (wstate w)) (cs_round (wstate w)) bid"
  have put: "signing_inv hist (put_block env b w)" for b using assms by simp
  note g = signing_guarded [OF put, of ?q _ "ee_ds env", simplified]
  show ?thesis
    unfolding maybe_propose_def Let_def bid_def [symmetric]
    using assms g by (auto simp: engine_requests split_def intro!: signing_sent)
qed

section \<open>Every step keeps the invariant\<close>

lemma signing_advance_round [intro!]: "signing_inv hist w \<Longrightarrow> signing_inv hist (advance_round env w)"
  by (auto simp: advance_round_def)

lemma signing_tick: "signing_inv hist w \<Longrightarrow> signing_inv hist (tick env dt drain w)"
  by (auto simp: tick_def Let_def split: step.splits)

lemma signing_on_proposal: "signing_inv hist w \<Longrightarrow> signing_inv hist (snd (on_proposal env p w))"
  by (auto simp: on_proposal_def Let_def split: sum.splits option.splits)

lemma signing_on_block: "signing_inv hist w \<Longrightarrow> signing_inv hist (snd (on_block_received env b w))"
  by (auto simp: on_block_received_def Let_def split: option.splits)

lemma signing_apply_stakes: "apply_stakes ev w = Some w' \<Longrightarrow> signing_inv hist w' = signing_inv hist w"
  by (rule signing_inv_cong) (simp_all add: apply_stakes_sel sent_def)

lemma signing_prevote_quorum: "signing_inv hist w \<Longrightarrow> signing_inv hist (on_prevote_quorum env b w)"
  by (auto simp: on_prevote_quorum_def split: option.splits)

lemma signing_precommit_quorum:
  assumes "signing_inv hist w" "on_precommit_quorum env r b w = Some (res, w')"
  shows "signing_inv hist w'"
proof -
  have commit: "signing_inv hist (on_engine (\<lambda>e. e\<lparr>step_elapsed_ms := t, app_state := a, prev_block_id := p,
      base_fee_per_gas := f\<rparr>) w) = signing_inv hist w" for t a p f and w :: "('a, 'b, 'c) world"
    by (rule signing_inv_cong) (simp_all add: sent_def)
  show ?thesis using assms
    by (auto simp: on_precommit_quorum_def Let_def commit split: option.splits prod.splits)
qed

lemma signing_on_vote:
  assumes "signing_inv hist w" "on_vote env v w = Some (r, w')"
  shows "signing_inv hist w'"
  using assms(2)
proof (cases rule: on_vote_cases)
  case (2 w2)
  have "sent w2 = sent w" using 2(3) by (auto simp: sent_def split: option.splits)
  with 2(1,2) have "signing_inv hist w2" using assms(1) signing_inv_cong [of w2 w] by simp
  then have "signing_inv hist (on_state (\<lambda>s. s\<lparr>votes := store_vote v (votes s)\<rparr>) w2)" by simp
  with 2(8) show ?thesis
    unfolding Let_def using signing_prevote_quorum signing_precommit_quorum by blast
qed (use assms in simp)

lemma signing_on_message:
  assumes "signing_inv hist w" "on_message env msg w = Some (r, w')"
  shows "signing_inv hist w'"
proof (cases msg)
  case (Msg_Proposal p)
  let ?w = "on_metrics (\<lambda>m. m\<lparr>proposals_received := u64_add (proposals_received m) 1\<rparr>) w"
  have "on_proposal env p ?w = (r, w')" using assms(2) Msg_Proposal by (simp add: on_message_def)
  then have "w' = snd (on_proposal env p ?w)" by simp
  then show ?thesis using signing_on_proposal [of hist ?w env p] assms(1) by simp
next
  case (Msg_Vote v)
  let ?w = "on_metrics (\<lambda>m. m\<lparr>votes_received := u64_add (votes_received m) 1\<rparr>) w"
  have "signing_inv hist ?w" using assms(1) by simp
  from signing_on_vote [OF this] assms(2) Msg_Vote show ?thesis by (simp add: on_message_def)
next
  case (Msg_Evidence ev)
  with assms show ?thesis by (auto simp: on_message_def signing_apply_stakes)
qed

lemma signing_next_height:
  assumes "signing_inv hist w" "cs_height (wstate w) + 1 < 2 ^ 64"
  shows "signing_inv hist (next_height env w)"
proof -
  let ?w = "set_elapsed 0 (on_state (\<lambda>s. (state_new (u64_add (cs_height s) 1))\<lparr>cs_step := S_Propose\<rparr>) w)"
  have "cs_height (wstate ?w) = cs_height (wstate w) + 1"
    using assms(2) by (simp add: state_new_def u64_add_def)
  moreover have "sent ?w = sent w" by (simp add: sent_def)
  ultimately have "signing_inv hist ?w"
    using assms(1) by (auto simp: signing_inv_def elim: guard_inv_mono split: option.splits)
  then show ?thesis unfolding next_height_def by blast
qed

lemma signing_step:
  assumes "engine_step env i w w'" "signing_inv hist w" "cs_height (wstate w) + 1 < 2 ^ 64"
  shows "signing_inv hist w'"
  using assms(1)
proof (cases rule: engine_step.cases)
  case (step_block blk r)
  then show ?thesis using signing_on_block [OF assms(2), of env blk] by simp
qed (use assms(2,3) in \<open>auto intro: signing_tick signing_on_message signing_next_height\<close>)

section \<open>Properties\<close>

text \<open>
  C2. An engine under a guard with an unbounded set never double-signs: over any sequence of ticks,
  messages, blocks and height changes (fewer than fit into a height), the proposals and votes it
  has broadcast conflict neither with each other nor with what the guard held at the start, even
  where the engine's own rules would send two different votes in a round.
\<close>

theorem engine_never_double_signs:
  assumes "engine_new prom cfg vset h prev app l (Some g) = Ok (w_engine w)" "w_out w = []"
    and "max_entries (ds_cfg g) = 0" "conflict_free (held g)" "highest_height g \<le> h"
    and "engine_run env ins w w'" "h + length ins < 2 ^ 64"
  shows "conflict_free (held g \<union> sent w')"
proof -
  have new: "e_guard (w_engine w) = Some g" "cs_height (wstate w) = h"
    using engine_new_sel [OF assms(1)] by (simp_all add: state_new_def)
  have "guard_inv (held g \<union> sent w) h g"
    using assms(2-5) by (auto simp: guard_inv_def covers_def held_def sent_def)
  then have "signing_inv (held g) w" by (simp add: signing_inv_def new)
  with assms(6) have "signing_inv (held g) w'"
    by (rule engine_run_bounded) (use assms(7) in \<open>auto simp: new intro: signing_step\<close>)
  then show ?thesis by (simp add: signing_inv_def guard_inv_def split: option.splits)
qed

text \<open>A guarded engine that proposes and prevotes on its first tick.\<close>

definition guarded_world :: "(unit, block option, bytes option) world" where
  "guarded_world = \<lparr>w_engine = solo_engine (Some (sample_guard False 0)), w_store = None, w_out = [], w_fs = None\<rparr>"

theorem engine_never_double_signs_witness:
  "conflict_free (held (sample_guard False 0) \<union> sent (tick (solo_env [1]) 0 (\<lambda>_. []) guarded_world))"
proof -
  have new: "engine_new None default_engine_config solo_vset 4 hash_zero () ledger_default
      (Some (sample_guard False 0)) = Ok (w_engine guarded_world)"
    by (simp add: solo_engine_new guarded_world_def)
  have run: "engine_run (solo_env [1]) ([] @ [In_Tick 0 (\<lambda>_. [])]) guarded_world
      (tick (solo_env [1]) 0 (\<lambda>_. []) guarded_world)"
    by (rule run_snoc [OF run_nil step_tick])
  show ?thesis
    by (rule engine_never_double_signs [OF new _ _ _ _ run])
      (simp_all add: guarded_world_def sample_guard_def conflict_free_def held_def)
qed

end
