(* ===== verification/Engine_Outbox.thy ===== *)
theory Engine_Outbox
  imports Engine_Safety Engine_Sample
begin

text \<open>
  What an engine hands to its outbox over a run: the evidence it broadcasts always validates, and
  it commits at most once per height.
\<close>

section \<open>Commits and evidence in the outbox\<close>

text \<open>The commits and the evidence of an outbox. Only \<open>on_vote\<close> adds to them.\<close>

fun notable :: "'kv out_event \<Rightarrow> bool" where
  "notable (Broadcast (Msg_Evidence ev)) = True"
| "notable (OnCommit cert blk st fee rs) = True"
| "notable _ = False"

definition notables :: "('kv, 'st, 'fs) world \<Rightarrow> 'kv out_event list" where
  "notables w = filter notable (w_out w)"

lemma notables_on [simp]:
  "notables (on_engine k w) = notables w" "notables (on_state f w) = notables w" "notables (on_metrics g w) = notables w"
  "notables (set_elapsed t w) = notables w" "notables (put_block env b w) = notables w"
  "notables (request_block bid w) = notables w" "notables (enter_prevote w) = notables w"
  "notables (snd (guard_call c w)) = notables w"
  "notables (emit ev w) = notables w @ (if notable ev then [ev] else [])"
  by (simp_all add: notables_def guard_call_sel)

lemma notables_broadcast [simp]: "notables (broadcast_vote env vt bid w) = notables w"
  by (simp add: broadcast_vote_def split_def Let_def)

lemma notables_propose [simp]: "notables (maybe_propose env drain w) = notables w"
  by (simp add: maybe_propose_def split_def Let_def)

lemma notables_steps [simp]:
  "notables (advance_round env w) = notables w" "notables (tick env dt drain w) = notables w"
  "notables (snd (on_proposal env p w)) = notables w" "notables (snd (on_block_received env blk w)) = notables w"
  "notables (on_prevote_quorum env b w) = notables w" "notables (next_height env w) = notables w"
  by (simp_all add: advance_round_def tick_def on_proposal_def on_block_received_def on_prevote_quorum_def
      next_height_def Let_def split: step.splits sum.splits option.splits)

lemma notables_precommit:
  assumes "on_precommit_quorum env r b w = Some (res, w')"
  shows "notables w' = notables w \<and> decided (wstate w') = decided (wstate w) \<or>
    (\<exists>cert blk st fee rs. notables w' = notables w @ [OnCommit cert blk st fee rs] \<and>
      decided (wstate w') = Some cert \<and> cc_height cert = cs_height (wstate w'))"
  using assms
  by (auto simp: on_precommit_quorum_def Let_def split: option.splits prod.splits)

lemma notables_on_vote:
  assumes "on_vote env v w = Some (r, w')"
  shows "w' = w \<or> decided (wstate w) = None \<and> (\<exists>es.
    (es = [] \<or> (\<exists>ev. fst (record_vote_and_detect_evidence v (wstate w)) = Some ev \<and>
       verify_vote env (w_engine w) v = Ok () \<and> es = [Broadcast (Msg_Evidence ev)])) \<and>
    (notables w' = notables w @ es \<and> decided (wstate w') = None \<or>
     (\<exists>cert blk st fee rs. notables w' = notables w @ es @ [OnCommit cert blk st fee rs] \<and>
      decided (wstate w') = Some cert \<and> cc_height cert = cs_height (wstate w'))))"
  using assms
proof (cases rule: on_vote_cases)
  case (2 w2)
  define es where "es = (case fst (record_vote_and_detect_evidence v (wstate w)) of
      None \<Rightarrow> [] | Some ev \<Rightarrow> [Broadcast (Msg_Evidence ev) :: 'a out_event])"
  let ?w3 = "on_state (\<lambda>s. s\<lparr>votes := store_vote v (votes s)\<rparr>) w2"
  have w3: "notables ?w3 = notables w @ es" "decided (wstate ?w3) = None"
    using 2(1,3,5) by (simp_all add: notables_def es_def split: option.splits)
  have "es = [] \<or> (\<exists>ev. fst (record_vote_and_detect_evidence v (wstate w)) = Some ev \<and>
       verify_vote env (w_engine w) v = Ok () \<and> es = [Broadcast (Msg_Evidence ev)])"
    using 2(4) by (simp add: es_def split: option.splits)
  moreover have "notables w' = notables w @ es \<and> decided (wstate w') = None \<or>
     (\<exists>cert blk st fee rs. notables w' = notables w @ es @ [OnCommit cert blk st fee rs] \<and>
      decided (wstate w') = Some cert \<and> cc_height cert = cs_height (wstate w'))"
    using 2(8) unfolding Let_def
  proof (elim disjE exE conjE)
    fix b p assume "on_precommit_quorum env (v_round v) b ?w3 = Some (r, w')"
    from notables_precommit [OF this] show ?thesis unfolding w3 by auto
  qed (use w3 in simp_all)
  ultimately show ?thesis using 2(5) by - (rule disjI2, intro conjI exI [of _ es])
qed simp

lemma on_vote_evidence:
  assumes "on_vote env v w = Some (r, w')" "Broadcast (Msg_Evidence ev) \<in> set (notables w')"
  shows "Broadcast (Msg_Evidence ev) \<in> set (notables w) \<or>
    fst (record_vote_and_detect_evidence v (wstate w)) = Some ev \<and> verify_vote env (w_engine w) v = Ok ()"
  using notables_on_vote [OF assms(1)] assms(2) by (elim disjE exE conjE) auto

lemma notables_message:
  assumes "on_message env msg w = Some (r, w')"
  shows "notables w' = notables w \<and> decided (wstate w') = decided (wstate w) \<or>
    (\<exists>v w0. msg = Msg_Vote v \<and> e_state (w_engine w0) = wstate w \<and> e_vset (w_engine w0) = e_vset (w_engine w) \<and>
      notables w0 = notables w \<and> on_vote env v w0 = Some (r, w'))"
proof (cases msg)
  case (Msg_Proposal p)
  let ?w = "on_metrics (\<lambda>m. m\<lparr>proposals_received := u64_add (proposals_received m) 1\<rparr>) w"
  have "on_proposal env p ?w = (r, w')" using assms Msg_Proposal by (simp add: on_message_def)
  then have "w' = snd (on_proposal env p ?w)" by simp
  then show ?thesis by simp
next
  case (Msg_Vote v)
  let ?w = "on_metrics (\<lambda>m. m\<lparr>votes_received := u64_add (votes_received m) 1\<rparr>) w"
  have "on_vote env v ?w = Some (r, w')" using assms Msg_Vote by (simp add: on_message_def)
  moreover have "e_state (w_engine ?w) = wstate w \<and> e_vset (w_engine ?w) = e_vset (w_engine w) \<and> notables ?w = notables w"
    by simp
  ultimately show ?thesis using Msg_Vote by blast
next
  case (Msg_Evidence ev)
  then show ?thesis using assms by (auto simp: on_message_def notables_def apply_stakes_sel)
qed

subsection \<open>Evidence\<close>

definition evidence_ok :: "verifier \<Rightarrow> ('kv, 'st, 'fs) world \<Rightarrow> bool" where
  "evidence_ok verify w \<longleftrightarrow> (\<forall>ev. Broadcast (Msg_Evidence ev) \<in> set (notables w) \<longrightarrow>
     evidence_validate verify default_evidence_config ev = Ok ())"

lemma recorded_evidence_validates:
  assumes "index_wf verify vset h (vote_index s)" "vote_valid verify vset h v"
    "fst (record_vote_and_detect_evidence v s) = Some ev"
  shows "evidence_validate verify default_evidence_config ev = Ok ()"
proof -
  let ?key = "(v_voter v, v_height v, v_round v, v_type v)"
  from assms(3) obtain pb pv where got: "bt_get (vote_index s) ?key = Some (pb, pv)" and ne: "pb \<noteq> v_block_id v"
    and ev: "ev = DoubleVote (v_voter v) (v_height v) (v_round v) (v_type v) pb (v_block_id v) pv v"
    by (auto simp: record_vote_and_detect_evidence_def Let_def split: option.splits if_splits)
  from assms(1) have "bt_sorted (vote_index s)" by (simp add: index_wf_def)
  with got have "(?key, pb, pv) \<in> set (vote_index s)" by (simp add: bt.get_Some_iff)
  with assms(1) have "?key = (v_voter pv, v_height pv, v_round pv, v_type pv)" "pb = v_block_id pv"
    "vote_valid verify vset h pv" by (fastforce simp: index_wf_def Let_def)+
  then show ?thesis using assms(2) ne
    by (auto simp: ev vote_valid_def vote_bytes_def verify_both_ok default_evidence_config_def)
qed

lemma evidence_ok_step:
  assumes "engine_step env i w w'" "engine_inv (ee_verify env) w" "evidence_ok (ee_verify env) w"
  shows "evidence_ok (ee_verify env) w'"
  using assms(1)
proof (cases rule: engine_step.cases)
  case (step_block blk r)
  then have "notables w' = notables w" using notables_steps(4) [of env blk w] by simp
  then show ?thesis using assms(3) by (simp add: evidence_ok_def)
next
  case (step_msg msg r)
  from notables_message [OF step_msg(2)] show ?thesis
  proof (elim disjE exE conjE)
    assume "notables w' = notables w"
    then show ?thesis using assms(3) by (simp add: evidence_ok_def)
  next
    fix v w0 assume w0: "wstate w0 = wstate w" "e_vset (w_engine w0) = e_vset (w_engine w)" "notables w0 = notables w"
      and v: "on_vote env v w0 = Some (r, w')"
    have "evidence_validate (ee_verify env) default_evidence_config ev = Ok ()"
      if "fst (record_vote_and_detect_evidence v (wstate w0)) = Some ev" "verify_vote env (w_engine w0) v = Ok ()" for ev
    proof (rule recorded_evidence_validates [OF _ _ that(1)])
      show "index_wf (ee_verify env) (e_vset (w_engine w)) (cs_height (wstate w)) (vote_index (wstate w0))"
        unfolding w0(1) using assms(2) by (simp add: engine_inv_def core_inv_def)
      show "vote_valid (ee_verify env) (e_vset (w_engine w)) (cs_height (wstate w)) v"
        using verify_vote_valid [OF that(2)] unfolding w0(1,2) by blast
    qed
    moreover have "evidence_validate (ee_verify env) default_evidence_config ev = Ok ()"
      if "Broadcast (Msg_Evidence ev) \<in> set (notables w0)" for ev
      using assms(3) that unfolding evidence_ok_def w0(3) by simp
    ultimately show ?thesis using on_vote_evidence [OF v] unfolding evidence_ok_def by blast
  qed
next
  case (step_tick dt drain)
  then have "notables w' = notables w" by simp
  then show ?thesis using assms(3) by (simp add: evidence_ok_def)
next
  case step_next
  then have "notables w' = notables w" by simp
  then show ?thesis using assms(3) by (simp add: evidence_ok_def)
qed

lemma evidence_ok_run:
  "engine_run env ins w w' \<Longrightarrow> engine_inv (ee_verify env) w \<Longrightarrow> evidence_ok (ee_verify env) w \<Longrightarrow>
    evidence_ok (ee_verify env) w'"
proof (induction rule: engine_run.induct)
  case (run_snoc ins w w1 i w2)
  have "evidence_ok (ee_verify env) w1" using run_snoc by simp
  then show ?case
    by (rule evidence_ok_step [OF run_snoc.hyps(2) engine_run_inv [OF run_snoc.hyps(1) run_snoc.prems(1)]])
qed simp

subsection \<open>Commits\<close>

fun commits_at :: "height \<Rightarrow> 'kv out_event \<Rightarrow> bool" where
  "commits_at h (OnCommit cert blk st fee rs) = (cc_height cert = h)"
| "commits_at h _ = False"

definition commit_count :: "height \<Rightarrow> ('kv, 'st, 'fs) world \<Rightarrow> nat" where
  "commit_count h w = length (filter (commits_at h) (notables w))"

definition commit_inv :: "('kv, 'st, 'fs) world \<Rightarrow> bool" where
  "commit_inv w \<longleftrightarrow> (\<forall>h. commit_count h w \<le> 1) \<and>
     (\<forall>h. cs_height (wstate w) < h \<longrightarrow> commit_count h w = 0) \<and>
     (decided (wstate w) = None \<longrightarrow> commit_count (cs_height (wstate w)) w = 0)"

lemma commit_inv_cong:
  "notables w' = notables w \<Longrightarrow> cs_height (wstate w') = cs_height (wstate w) \<Longrightarrow>
    decided (wstate w') = decided (wstate w) \<Longrightarrow> commit_inv w' = commit_inv w"
  by (simp add: commit_inv_def commit_count_def)

lemma commit_count_notables: "commit_count h w = length (filter (commits_at h) (w_out w))"
proof -
  have "filter (commits_at h) (filter notable es) = filter (commits_at h) es" for es :: "'a out_event list"
  proof (induction es)
    case (Cons e es)
    then show ?case by (cases e) auto
  qed simp
  then show ?thesis by (simp add: commit_count_def notables_def)
qed

lemma commit_inv_on_vote:
  assumes "on_vote env v w = Some (r, w')" "commit_inv w"
  shows "commit_inv w'"
proof -
  have h: "cs_height (wstate w') = cs_height (wstate w)" using on_vote_sel [OF assms(1)] by simp
  from notables_on_vote [OF assms(1)] show ?thesis
  proof (elim disjE exE conjE)
    fix es cert blk st fee rs
    assume none: "decided (wstate w) = None" and es: "es = []"
      and n: "notables w' = notables w @ es @ [OnCommit cert blk st fee rs]"
      and d: "decided (wstate w') = Some cert" "cc_height cert = cs_height (wstate w')"
    show ?thesis using assms(2) none d by (auto simp: commit_inv_def commit_count_def n es h)
  next
    fix es ev cert blk st fee rs
    assume none: "decided (wstate w) = None" and es: "es = [Broadcast (Msg_Evidence ev)]"
      and n: "notables w' = notables w @ es @ [OnCommit cert blk st fee rs]"
      and d: "decided (wstate w') = Some cert" "cc_height cert = cs_height (wstate w')"
    show ?thesis using assms(2) none d by (auto simp: commit_inv_def commit_count_def n es h)
  qed (use assms(2) h in \<open>simp_all add: commit_inv_def commit_count_def\<close>)
qed

lemma commit_inv_step:
  assumes "engine_step env i w w'" "commit_inv w" "cs_height (wstate w) + 1 < 2 ^ 64"
  shows "commit_inv w'"
  using assms(1)
proof (cases rule: engine_step.cases)
  case (step_tick dt drain)
  then show ?thesis using assms(2) commit_inv_cong [of w' w] by simp
next
  case (step_block blk r)
  then have w': "w' = snd (on_block_received env blk w)" by simp
  show ?thesis using assms(2) unfolding w' by (subst commit_inv_cong) simp_all
next
  case (step_msg msg r)
  from notables_message [OF step_msg(2)] show ?thesis
  proof (elim disjE exE conjE)
    assume "notables w' = notables w" "decided (wstate w') = decided (wstate w)"
    then show ?thesis using assms(2) commit_inv_cong [of w' w] on_message_height [OF step_msg(2)] by simp
  next
    fix v w0 assume "wstate w0 = wstate w" "notables w0 = notables w" and v: "on_vote env v w0 = Some (r, w')"
    then have "commit_inv w0" using assms(2) commit_inv_cong [of w0 w] by simp
    then show ?thesis by (rule commit_inv_on_vote [OF v])
  qed
next
  case step_next
  have "cs_height (wstate w') = cs_height (wstate w) + 1"
    using assms(3) by (simp add: step_next next_height_def state_new_def u64_add_def)
  moreover have "notables w' = notables w" by (simp add: step_next)
  ultimately show ?thesis using assms(2) by (simp add: commit_inv_def commit_count_def)
qed

section \<open>Properties\<close>

text \<open>
  C22. All evidence an engine broadcasts validates: over any run, each piece of evidence in its outbox
  passes \<open>Evidence::validate\<close> with the default configuration, signatures included.
\<close>

theorem broadcast_evidence_validates:
  assumes "engine_new prom cfg vset h prev app l guard = Ok (w_engine w)" "vset_wf vset" "w_out w = []"
    and "engine_run env ins w w'" "Broadcast (Msg_Evidence ev) \<in> set (w_out w')"
  shows "evidence_validate (ee_verify env) default_evidence_config ev = Ok ()"
proof -
  have "engine_inv (ee_verify env) w" using engine_new_inv [OF assms(1,2) refl] by simp
  moreover have "evidence_ok (ee_verify env) w" using assms(3) by (simp add: evidence_ok_def notables_def)
  ultimately have "evidence_ok (ee_verify env) w'" by (rule evidence_ok_run [OF assms(4)])
  then show ?thesis using assms(5) by (simp add: evidence_ok_def notables_def)
qed

text \<open>
  C4. An engine commits at most once per height: over any run of fewer steps than fit into a height,
  the outbox holds at most one commit for each height.
\<close>

theorem one_commit_per_height:
  assumes "engine_new prom cfg vset h prev app l guard = Ok (w_engine w)" "w_out w = []"
    and "engine_run env ins w w'" "h + length ins < 2 ^ 64"
  shows "length (filter (commits_at k) (w_out w')) \<le> 1"
proof -
  have new: "wstate w = state_new h" using engine_new_sel [OF assms(1)] by simp
  have "commit_inv w" using assms(2) by (simp add: commit_inv_def commit_count_notables)
  with assms(3) have "commit_inv w'"
    by (rule engine_run_bounded) (use assms(4) in \<open>auto simp: new state_new_def intro: commit_inv_step\<close>)
  then show ?thesis by (simp add: commit_inv_def commit_count_notables)
qed

section \<open>Witnesses\<close>

text \<open>The single validator of the sample prevotes twice.\<close>

lemma solo_equivocation:
  "\<exists>w. engine_run (solo_env [1]) [In_Msg (Msg_Vote (solo_vote [1] Prevote)), In_Msg (Msg_Vote (solo_vote [2] Prevote))]
       solo_world w \<and>
     Broadcast (Msg_Evidence (DoubleVote [9] 4 0 Prevote (Some [1]) (Some [2])
       (solo_vote [1] Prevote) (solo_vote [2] Prevote))) \<in> set (w_out w)"
proof -
  have ver: "verify_vote (solo_env [1]) e (solo_vote b Prevote) = Ok ()"
    if "e_vset e = solo_vset" "cs_height (e_state e) = 4" "cs_round (e_state e) = 0" for e :: "unit engine" and b
    using that by (simp add: verify_vote_def solo_vote_def solo_vset_def contains_def echo_verify_def)
  let ?w1 = "on_state (\<lambda>_. (state_new 4)\<lparr>votes := [(0, [(Prevote, [([9], solo_vote [1] Prevote)])])],
     vote_index := [(([9], 4, 0, Prevote), (Some [1], solo_vote [1] Prevote))]\<rparr>)
     (on_metrics (\<lambda>m. m\<lparr>votes_received := u64_add (votes_received m) 1\<rparr>) solo_world)"
  have sel: "v_type (solo_vote b vt) = vt" "v_round (solo_vote b vt) = 0" "v_height (solo_vote b vt) = 4"
    "v_voter (solo_vote b vt) = [9]" "v_block_id (solo_vote b vt) = Some b" for b vt
    by (simp_all add: solo_vote_def)
  have one: "on_message (solo_env [1]) (Msg_Vote (solo_vote [1] Prevote)) solo_world = Some (Ok (), ?w1)"
    by (simp add: on_message_def on_vote_def ver solo_world_def solo_engine_eq state_new_def sel
        record_vote_and_detect_evidence_def store_vote_def on_state_def on_metrics_def on_engine_def)
  obtain w2 where two: "on_message (solo_env [1]) (Msg_Vote (solo_vote [2] Prevote)) ?w1 = Some (Ok (), w2)"
    and out: "Broadcast (Msg_Evidence (DoubleVote [9] 4 0 Prevote (Some [1]) (Some [2])
       (solo_vote [1] Prevote) (solo_vote [2] Prevote))) \<in> set (w_out w2)"
    by (simp add: on_message_def on_vote_def ver solo_world_def solo_engine_eq state_new_def sel
        record_vote_and_detect_evidence_def apply_stakes_def ledger_apply_evidence_def ledger_default_def ledger_new_def)
  from run_snoc [OF run_snoc [OF run_nil step_msg [OF one]] step_msg [OF two]] out show ?thesis by auto
qed

lemma solo_world_new:
  "engine_new None default_engine_config solo_vset 4 hash_zero () ledger_default None = Ok (w_engine solo_world)"
  "w_out solo_world = []"
  by (simp_all add: solo_engine_new solo_world_def)

theorem broadcast_evidence_validates_witness:
  "\<exists>w. engine_run (solo_env [1]) [In_Msg (Msg_Vote (solo_vote [1] Prevote)), In_Msg (Msg_Vote (solo_vote [2] Prevote))]
       solo_world w \<and>
     (\<exists>ev. Broadcast (Msg_Evidence ev) \<in> set (w_out w) \<and>
       evidence_validate echo_verify default_evidence_config ev = Ok ())"
  using solo_equivocation broadcast_evidence_validates [OF solo_world_new(1) solo_vset_wf(1) solo_world_new(2)]
  by (metis solo_env_sel(1))

theorem one_commit_per_height_witness:
  "\<exists>w. engine_run (solo_env [1]) (solo_inputs [1]) solo_world w \<and> decided (wstate w) = Some (solo_cert [1]) \<and>
     length (filter (commits_at 4) (w_out w)) \<le> 1"
proof -
  obtain w where w: "engine_run (solo_env [1]) (solo_inputs [1]) solo_world w" "wstate w = solo_s3 [1]"
    using solo_run by blast
  with one_commit_per_height [OF solo_world_new w(1), of 4] show ?thesis
    by (auto simp: solo_s3_def solo_inputs_def)
qed

end
