(* ===== verification/Evidence_Manager.thy ===== *)
theory Evidence_Manager
  imports Slashing
begin

text \<open>
  Applying evidence to a stake ledger and the evidence manager (the modules \<open>application\<close>,
  \<open>metrics\<close> and \<open>manager\<close> of \<open>src/src/evidence.rs\<close>).

  The ledger's \<open>current_height()\<close> that the code calls is not defined in the sources (the ledger
  only has a field of that name), so it is the parameter \<open>height_of\<close>. The processed set, a
  \<open>HashSet\<close>, is a set. As in the ledger, \<open>None\<close> is the panic of a division by a zero fraction.
\<close>

section \<open>Metrics\<close>

record evidence_metrics =
  evidence_received :: nat
  evidence_validated :: nat
  evidence_applied :: nat
  evidence_rejected :: nat
  em_total_slashed :: nat

definition zero_evidence_metrics :: evidence_metrics where
  "zero_evidence_metrics = \<lparr>evidence_received = 0, evidence_validated = 0, evidence_applied = 0,
     evidence_rejected = 0, em_total_slashed = 0\<rparr>"

definition inc_received :: "evidence_metrics \<Rightarrow> evidence_metrics" where
  "inc_received m = m\<lparr>evidence_received := u64_add (evidence_received m) 1\<rparr>"

definition inc_validated :: "evidence_metrics \<Rightarrow> evidence_metrics" where
  "inc_validated m = m\<lparr>evidence_validated := u64_add (evidence_validated m) 1\<rparr>"

definition inc_applied :: "evidence_metrics \<Rightarrow> evidence_metrics" where
  "inc_applied m = m\<lparr>evidence_applied := u64_add (evidence_applied m) 1\<rparr>"

definition inc_rejected :: "evidence_metrics \<Rightarrow> evidence_metrics" where
  "inc_rejected m = m\<lparr>evidence_rejected := u64_add (evidence_rejected m) 1\<rparr>"

definition add_slashed :: "nat \<Rightarrow> evidence_metrics \<Rightarrow> evidence_metrics" where
  "add_slashed amount m = m\<lparr>em_total_slashed := u64_add (em_total_slashed m) amount\<rparr>"

section \<open>Application\<close>

record slashing_outcome =
  so_slashed :: bool
  slashed_amount :: nat
  remaining_stake :: nat
  so_jailed :: bool
  so_tombstoned :: bool
  slash_height :: height

definition apply_evidence ::
    "(stake_ledger \<Rightarrow> height option) \<Rightarrow> evidence_config \<Rightarrow> evidence \<Rightarrow>
      stake_ledger \<times> evidence_id set \<times> evidence_metrics \<Rightarrow>
      ((evidence_error, slashing_outcome) result \<times> stake_ledger \<times> evidence_id set \<times> evidence_metrics) option" where
  "apply_evidence height_of c ev s =
     (let (l, processed, m) = s; k = offender ev; ident = evidence_id_of ev in
      if ident \<in> processed then Some (Err AlreadyProcessed, l, processed, inc_rejected m)
      else
        case bt_get (l_validators l) k of
          None \<Rightarrow> Some (Err EE_ValidatorNotFound, l, processed, m)
        | Some r \<Rightarrow>
            if status r = Tombstoned then Some (Err AlreadyTombstoned, l, processed, inc_rejected m)
            else
              let now = (case height_of l of Some h \<Rightarrow> h | None \<Rightarrow> 0) in
              if \<not> is_fresh ev now (max_age c)
              then Some (Err (StaleEvidence (evidence_height ev) (max_age c)), l, processed, inc_rejected m)
              else
                case slash_amount_of (stake r) (slash_fraction ev c) of
                  None \<Rightarrow> None
                | Some amount \<Rightarrow>
                    let new_stake = u64_sat_sub (stake r) amount;
                        r1 = r\<lparr>stake := new_stake, slashed_total := u64_add (slashed_total r) amount\<rparr>;
                        m1 = add_slashed amount m;
                        tomb = (case status r of Jailed _ n \<Rightarrow> n \<ge> 2 | _ \<Rightarrow> False);
                        r2 = (if tomb then r1\<lparr>status := Tombstoned\<rparr>
                              else r1\<lparr>status := Jailed now
                                (case status r of Jailed _ n \<Rightarrow> u32_add n 1 | _ \<Rightarrow> 1)\<rparr>)
                    in Some (Ok \<lparr>so_slashed = True, slashed_amount = amount, remaining_stake = new_stake,
                               so_jailed = True, so_tombstoned = tomb, slash_height = now\<rparr>,
                             l\<lparr>l_validators := bt_insert k r2 (l_validators l)\<rparr>,
                             insert ident processed, inc_applied m1))"

section \<open>The manager\<close>

record evidence_manager =
  em_config :: evidence_config
  em_metrics :: evidence_metrics
  em_processed :: "evidence_id set"
  em_initialised :: bool

definition evidence_manager_new :: "evidence_config \<Rightarrow> evidence_manager option" where
  "evidence_manager_new c =
     (case evidence_config_validate c of
        Inl _ \<Rightarrow> None
      | Inr _ \<Rightarrow> Some \<lparr>em_config = c, em_metrics = zero_evidence_metrics, em_processed = {},
                       em_initialised = False\<rparr>)"

definition evidence_manager_init :: "evidence_manager \<Rightarrow> evidence_manager" where
  "evidence_manager_init g = g\<lparr>em_initialised := True\<rparr>"

definition manager_validate ::
    "verifier \<Rightarrow> evidence \<Rightarrow> evidence_manager \<Rightarrow> (evidence_error, unit) result \<times> evidence_manager" where
  "manager_validate verify ev g =
     (let r = evidence_validate verify (em_config g) ev;
          m = inc_received (em_metrics g)
      in (r, g\<lparr>em_metrics := (if is_ok r then inc_validated m else inc_rejected m)\<rparr>))"

definition manager_apply ::
    "(stake_ledger \<Rightarrow> height option) \<Rightarrow> verifier \<Rightarrow> evidence \<Rightarrow> evidence_manager \<times> stake_ledger \<Rightarrow>
      ((evidence_error, slashing_outcome) result \<times> evidence_manager \<times> stake_ledger) option" where
  "manager_apply height_of verify ev s =
     (let (g, l) = s; (v, g1) = manager_validate verify ev g in
      case v of
        Inl e \<Rightarrow> Some (Err e, g1, l)
      | Inr _ \<Rightarrow>
          map_option (\<lambda>(r, l1, processed, m). (r, g1\<lparr>em_processed := processed, em_metrics := m\<rparr>, l1))
            (apply_evidence height_of (em_config g1) ev (l, em_processed g1, em_metrics g1)))"

definition is_processed :: "evidence_manager \<Rightarrow> evidence_id \<Rightarrow> bool" where
  "is_processed g i = (i \<in> em_processed g)"

definition processed_count :: "evidence_manager \<Rightarrow> nat" where
  "processed_count g = card (em_processed g)"

definition evidence_reset_metrics :: "evidence_manager \<Rightarrow> evidence_manager" where
  "evidence_reset_metrics g = g\<lparr>em_metrics := zero_evidence_metrics\<rparr>"

definition apply_evidence_legacy ::
    "(stake_ledger \<Rightarrow> height option) \<Rightarrow> evidence_config \<Rightarrow> evidence \<Rightarrow>
      stake_ledger \<times> evidence_id set \<times> evidence_metrics \<Rightarrow>
      ((evidence_error, slashing_outcome) result \<times> stake_ledger \<times> evidence_id set \<times> evidence_metrics) option" where
  "apply_evidence_legacy height_of c ev s =
     (let (l, processed, m) = s in
      map_option (\<lambda>(r, l1, p1, m1). (r, l1, p1, if is_ok r then inc_validated m1 else inc_rejected m1))
        (apply_evidence height_of c ev (l, processed, inc_received m)))"

text \<open>A sequence of submissions, with the results in order.\<close>

fun submit ::
    "(stake_ledger \<Rightarrow> height option) \<Rightarrow> verifier \<Rightarrow> evidence list \<Rightarrow> evidence_manager \<times> stake_ledger \<Rightarrow>
      ((evidence_error, slashing_outcome) result list \<times> evidence_manager \<times> stake_ledger) option" where
  "submit height_of verify [] s = Some ([], s)"
| "submit height_of verify (ev # evs) s =
     (case manager_apply height_of verify ev s of
        None \<Rightarrow> None
      | Some (r, s1) \<Rightarrow> map_option (\<lambda>(rs, s2). (r # rs, s2)) (submit height_of verify evs s1))"

text \<open>The submissions that were accepted.\<close>

definition accepted :: "evidence list \<Rightarrow> ('e, 'a) result list \<Rightarrow> evidence list" where
  "accepted evs rs = map fst (filter (\<lambda>p. is_ok (snd p)) (zip evs rs))"

section \<open>Deduplication\<close>

lemma manager_validate_sel [simp]:
  "em_config (snd (manager_validate verify ev g)) = em_config g"
  "em_processed (snd (manager_validate verify ev g)) = em_processed g"
  "fst (manager_validate verify ev g) = evidence_validate verify (em_config g) ev"
  by (simp_all add: manager_validate_def Let_def)

lemma apply_evidence_processed:
  assumes "apply_evidence height_of c ev (l, p, m) = Some (r, l', p', m')"
  shows "p' = (if is_ok r then insert (evidence_id_of ev) p else p) \<and>
    (is_ok r \<longrightarrow> evidence_id_of ev \<notin> p) \<and> (\<not> is_ok r \<longrightarrow> l' = l)"
  using assms by (auto simp: apply_evidence_def Let_def split: if_splits option.splits)

lemma manager_apply_processed:
  assumes "manager_apply height_of verify ev (g, l) = Some (r, g', l')"
  shows "em_processed g' = (if is_ok r then insert (evidence_id_of ev) (em_processed g) else em_processed g)
    \<and> (is_ok r \<longrightarrow> evidence_id_of ev \<notin> em_processed g) \<and> (\<not> is_ok r \<longrightarrow> l' = l)
    \<and> em_config g' = em_config g"
proof (cases "evidence_validate verify (em_config g) ev")
  case (Inl e)
  with assms show ?thesis by (auto simp: manager_apply_def manager_validate_def Let_def)
next
  case (Inr u)
  let ?g = "snd (manager_validate verify ev g)"
  obtain p m where "apply_evidence height_of (em_config g) ev (l, em_processed g, em_metrics ?g) = Some (r, l', p, m)"
    and g': "g' = ?g\<lparr>em_processed := p, em_metrics := m\<rparr>"
    using assms Inr manager_validate_sel [of verify ev g]
    by (auto simp: manager_apply_def split_def Let_def simp del: manager_validate_sel)
  from apply_evidence_processed [OF this(1)] show ?thesis by (simp add: g')
qed

lemma submit_dedup:
  "submit height_of verify evs (g, l) = Some (rs, g', l') \<Longrightarrow>
    length rs = length evs \<and>
    distinct (map evidence_id_of (accepted evs rs)) \<and>
    set (map evidence_id_of (accepted evs rs)) \<inter> em_processed g = {}"
proof (induction evs arbitrary: g l rs)
  case (Cons ev evs)
  from Cons.prems obtain r g1 l1 rs1 where step: "manager_apply height_of verify ev (g, l) = Some (r, g1, l1)"
    and rec: "submit height_of verify evs (g1, l1) = Some (rs1, g', l')" and rs: "rs = r # rs1"
    by (auto split: option.splits prod.splits)
  show ?case
    using Cons.IH [OF rec] manager_apply_processed [OF step]
    by (cases "is_ok r") (auto simp: rs accepted_def)
qed (simp add: accepted_def)

text \<open>A configuration that validates rules out the division by zero, so submissions return.\<close>

lemma apply_evidence_returns:
  "slash_fraction ev c \<noteq> 0 \<Longrightarrow> apply_evidence height_of c ev s \<noteq> None"
  by (cases s) (simp add: apply_evidence_def slash_amount_of_def Let_def split: option.splits)

lemma slash_fraction_nonzero: "evidence_config_validate c = Ok u \<Longrightarrow> slash_fraction ev c \<noteq> 0"
  by (cases ev) (auto simp: evidence_config_validate_def split: if_splits)

lemma manager_apply_returns:
  "evidence_config_validate (em_config g) = Ok u \<Longrightarrow> \<exists>r g' l'. manager_apply height_of verify ev (g, l) = Some (r, g', l')"
  using apply_evidence_returns [OF slash_fraction_nonzero, of "em_config g" u height_of ev]
    manager_validate_sel [of verify ev g]
  by (auto simp: manager_apply_def split_def Let_def simp del: manager_validate_sel split: sum.splits)

lemma submit_returns:
  "evidence_config_validate (em_config g) = Ok u \<Longrightarrow>
    \<exists>rs g' l'. submit height_of verify evs (g, l) = Some (rs, g', l')"
proof (induction evs arbitrary: g l)
  case (Cons ev evs)
  from manager_apply_returns [OF Cons.prems, of height_of verify ev l] obtain r g1 l1
    where step: "manager_apply height_of verify ev (g, l) = Some (r, g1, l1)" by blast
  then have "em_config g1 = em_config g" using manager_apply_processed [OF step] by simp
  with Cons.IH [of g1 l1] Cons.prems step show ?case by auto
qed simp

section \<open>Properties\<close>

text \<open>
  C27. The manager slashes at most once per evidence identifier: every sequence of submissions returns, and in any sequence of submissions to a
  new manager, the evidence that is accepted has pairwise different identifiers.
\<close>

theorem evidence_slashes_once:
  assumes "evidence_manager_new c = Some g"
  shows "\<exists>rs g' l'. submit height_of verify evs (g, l) = Some (rs, g', l') \<and>
    length rs = length evs \<and> distinct (map evidence_id_of (accepted evs rs))"
proof -
  have "evidence_config_validate (em_config g) = Ok ()"
    using assms by (auto simp: evidence_manager_new_def split: sum.splits)
  then obtain rs g' l' where "submit height_of verify evs (g, l) = Some (rs, g', l')"
    using submit_returns by blast
  with submit_dedup [OF this] show ?thesis by blast
qed

text \<open>
  The identifier leaves out the vote type: once evidence of a double prevote has been applied,
  evidence of a double precommit of the same validator at the same height and round is refused as
  already processed.
\<close>

theorem precommit_evidence_masked:
  assumes "apply_evidence height_of c (DoubleVote k h r Prevote a b va vb) (l, p, m) = Some (Ok out, l', p', m')"
  shows "apply_evidence height_of c' (DoubleVote k h r Precommit a' b' va' vb') (l'', p', m'') =
    Some (Err AlreadyProcessed, l'', p', inc_rejected m'')"
  using apply_evidence_processed [OF assms]
  by (simp add: apply_evidence_def evidence_id_of_def)

theorem evidence_slashes_once_witness:
  "\<exists>rs g' l'. submit (\<lambda>_. None) echo_verify [sample_evidence, sample_evidence]
      (the (evidence_manager_new default_evidence_config), sample_ledger 100) = Some (rs, g', l') \<and>
    length rs = length [sample_evidence, sample_evidence] \<and>
    distinct (map evidence_id_of (accepted [sample_evidence, sample_evidence] rs))"
  by (rule evidence_slashes_once [where c = default_evidence_config])
    (simp add: evidence_manager_new_def evidence_config_validate_def default_evidence_config_def)

theorem precommit_evidence_masked_witness:
  "\<exists>out l' p' m'. apply_evidence (\<lambda>_. None) default_evidence_config sample_evidence
      (sample_ledger 100, {}, zero_evidence_metrics) = Some (Ok out, l', p', m') \<and>
    apply_evidence (\<lambda>_. None) default_evidence_config
      (DoubleVote [9] 4 0 Precommit (Some [1]) None (echo_vote [9] (Some [1])) (echo_vote [9] None))
      (l', p', m') = Some (Err AlreadyProcessed, l', p', inc_rejected m')"
proof -
  obtain out l' p' m' where "apply_evidence (\<lambda>_. None) default_evidence_config sample_evidence
      (sample_ledger 100, {}, zero_evidence_metrics) = Some (Ok out, l', p', m')"
    by (simp add: apply_evidence_def sample_ledger_eq sample_evidence_def record_new_def is_fresh_def
        height_saturating_sub_def u64_sat_sub_def slash_amount_of_def default_evidence_config_def Let_def)
  with precommit_evidence_masked [OF this [unfolded sample_evidence_def]] show ?thesis by blast
qed

end
