(* ===== verification/Scheduler.thy ===== *)
theory Scheduler
  imports Ordered_Map
begin

text \<open>
  The preemptive scheduler (\<open>src/src/sched/mod.rs\<close>) over the tasks of \<open>src/src/task/mod.rs\<close>.

  A task's CPU context is opaque (the type \<open>'c\<close>); its stack is not modelled. The ready queues are
  a list of 256 queues indexed by priority. The pointers \<open>tick\<close> returns for the context switch are
  the two tasks whose contexts they point to. Reading the clock (\<open>uptime_ms\<close>) is the argument
  \<open>now\<close>. Functions of the module that lock \<open>SCHEDULER\<close> take and return the scheduler.
  \<open>exit_current\<close> and the reaping of a dead task report the exit to \<open>process::fork\<close>; here they
  return what they report, and \<open>oom_kill_lowest\<close> returns the task whose name it prints. Other
  serial output is not modelled.
\<close>

section \<open>Tasks\<close>

datatype task_state = T_New | T_Running | T_Ready | T_Blocked | T_Dead

fun is_schedulable :: "task_state \<Rightarrow> bool" where
  "is_schedulable T_Ready = True"
| "is_schedulable T_Running = True"
| "is_schedulable _ = False"

definition is_alive :: "task_state \<Rightarrow> bool" where
  "is_alive s \<longleftrightarrow> s \<noteq> T_Dead"

definition is_blocked :: "task_state \<Rightarrow> bool" where
  "is_blocked s \<longleftrightarrow> s = T_Blocked"

datatype wait_event = W_Io | W_Timer | W_Mutex nat | W_Pipe nat

record 'c task =
  tid :: nat
  tname :: string
  tstate :: task_state
  tcontext :: 'c
  priority :: u8
  ticks :: nat
  sleep_until :: "nat option"
  wait_ev :: "wait_event option"
  stolen_at_ms :: nat

section \<open>The scheduler\<close>

definition DEFAULT_QUANTUM :: nat where "DEFAULT_QUANTUM = 10"
definition AP_STUCK_THRESHOLD_MS :: nat where "AP_STUCK_THRESHOLD_MS = 5000"

record 'c scheduler =
  running_on_ap :: "(u8, 'c task) btree_map"
  current :: "'c task option"
  ready :: "'c task list list"
  blocked :: "(nat, 'c task) btree_map"
  quantum :: nat
  switches :: nat
  total_ticks :: nat

definition push_ready :: "'c task \<Rightarrow> 'c task list list \<Rightarrow> 'c task list list" where
  "push_ready t r = (let p = unat (priority t) in r[p := r ! p @ [t]])"

definition scheduler_new :: "'c task \<Rightarrow> 'c scheduler" where
  "scheduler_new idle =
     \<lparr>running_on_ap = [], current = None, ready = push_ready idle (replicate 256 []), blocked = [],
      quantum = DEFAULT_QUANTUM, switches = 0, total_ticks = 0\<rparr>"

definition spawn :: "'c task \<Rightarrow> 'c scheduler \<Rightarrow> 'c scheduler" where
  "spawn t s = s\<lparr>ready := push_ready (t\<lparr>tstate := T_Ready\<rparr>) (ready s)\<rparr>"

text \<open>The loop of \<open>pick_next\<close> over the priorities below \<open>p\<close>, from the top.\<close>

fun pick_below :: "nat \<Rightarrow> 'c task list list \<Rightarrow> ('c task \<times> 'c task list list) option" where
  "pick_below 0 r = None"
| "pick_below (Suc p) r = (case r ! p of t # q \<Rightarrow> Some (t, r[p := q]) | [] \<Rightarrow> pick_below p r)"

definition pick_next :: "'c scheduler \<Rightarrow> 'c task option \<times> 'c scheduler" where
  "pick_next s =
     (case pick_below 256 (ready s) of
        None \<Rightarrow> (None, s)
      | Some (t, r) \<Rightarrow> (Some t, s\<lparr>ready := r\<rparr>))"

definition enqueue_current :: "'c scheduler \<Rightarrow> 'c scheduler" where
  "enqueue_current s =
     (case current s of
        None \<Rightarrow> s
      | Some t \<Rightarrow> s\<lparr>current := None, ready := push_ready (t\<lparr>tstate := T_Ready\<rparr>) (ready s)\<rparr>)"

definition block_current_task :: "'c scheduler \<Rightarrow> 'c scheduler" where
  "block_current_task s =
     (case current s of
        None \<Rightarrow> s
      | Some t \<Rightarrow> s\<lparr>current := None,
          blocked := bt_insert (tid t) (t\<lparr>tstate := T_Blocked\<rparr>) (blocked s), quantum := 0\<rparr>)"

text \<open>A task back from an application processor; the result is what is reported to \<open>notify_exit\<close>.\<close>

definition ap_task_finished :: "u8 \<Rightarrow> 'c scheduler \<Rightarrow> (nat \<times> int) option \<times> 'c scheduler" where
  "ap_task_finished cpu s =
     (case bt_get (running_on_ap s) cpu of
        None \<Rightarrow> (None, s)
      | Some t \<Rightarrow>
          let s1 = s\<lparr>running_on_ap := bt_remove cpu (running_on_ap s)\<rparr> in
          case tstate t of
            T_Dead \<Rightarrow> (Some (tid t, 0), s1)
          | T_Blocked \<Rightarrow> (None, s1\<lparr>blocked := bt_insert (tid t) t (blocked s1)\<rparr>)
          | _ \<Rightarrow>
              let t1 = t\<lparr>tstate := T_Ready, ticks := u64_add (ticks t) 1\<rparr>; p = unat (priority t1)
              in (None,
                  if p < length (ready s1) then s1\<lparr>ready := push_ready t1 (ready s1)\<rparr>
                  else s1\<lparr>ready := (ready s1)[0 := ready s1 ! 0 @ [t1]]\<rparr>))"

definition ap_stuck :: "nat \<Rightarrow> 'c task \<Rightarrow> bool" where
  "ap_stuck now t \<longleftrightarrow>
     stolen_at_ms t \<noteq> 0 \<and> u64_sat_sub now (stolen_at_ms t) > AP_STUCK_THRESHOLD_MS"

fun finish_all :: "u8 list \<Rightarrow> 'c scheduler \<Rightarrow> 'c scheduler" where
  "finish_all [] s = s"
| "finish_all (cpu # cpus) s = finish_all cpus (snd (ap_task_finished cpu s))"

definition ap_audit_lost_tasks_inner :: "nat \<Rightarrow> 'c scheduler \<Rightarrow> 'c scheduler" where
  "ap_audit_lost_tasks_inner now s =
     finish_all (map fst (filter (\<lambda>(cpu, t). ap_stuck now t) (running_on_ap s))) s"

text \<open>\<open>tick\<close>: the switch it asks for is the pair of the task to save and the task to resume. The
  end of the current task's quantum is \<open>expire\<close>.\<close>

definition expire :: "'c task \<Rightarrow> 'c scheduler \<Rightarrow> ('c task \<times> 'c task) option \<times> 'c scheduler" where
  "expire c0 s =
     (let c = c0\<lparr>ticks := u64_add (ticks c0) DEFAULT_QUANTUM, tstate := T_Ready\<rparr>
      in case pick_next (s\<lparr>current := Some c\<rparr>) of
           (None, s5) \<Rightarrow> (None, s5)
         | (Some next, s5) \<Rightarrow>
             let old_prio = unat (priority c);
                 s6 = enqueue_current s5;
                 nt = next\<lparr>tstate := T_Running\<rparr>;
                 s7 = s6\<lparr>current := Some nt, quantum := DEFAULT_QUANTUM,
                         switches := u64_add (switches s6) 1\<rparr>
             in if ready s7 ! old_prio = [] then (None, s7)
                else (Some (last (ready s7 ! old_prio), nt), s7))"

definition sched_tick :: "nat \<Rightarrow> 'c scheduler \<Rightarrow> ('c task \<times> 'c task) option \<times> 'c scheduler" where
  "sched_tick now s0 =
     (let s1 = s0\<lparr>total_ticks := u64_add (total_ticks s0) 1\<rparr>;
          s = (if total_ticks s1 mod 1000 = 0 \<and> running_on_ap s1 \<noteq> []
               then ap_audit_lost_tasks_inner now s1 else s1)
      in case current s of
           None \<Rightarrow>
             (case pick_next s of
                (Some next, s2) \<Rightarrow> (None, s2\<lparr>current := Some next, quantum := DEFAULT_QUANTUM\<rparr>)
              | (None, s2) \<Rightarrow> (None, s2))
         | Some c \<Rightarrow>
             let q = (if quantum s > 0 then quantum s - 1 else quantum s)
             in if q = 0 then expire c (s\<lparr>quantum := q\<rparr>) else (None, s\<lparr>quantum := q\<rparr>))"

definition current_tid :: "'c scheduler \<Rightarrow> nat option" where
  "current_tid s = map_option tid (current s)"

text \<open>The loop of \<open>oom_kill_lowest\<close>, with \<open>n\<close> priorities left to look at.\<close>

fun kill_from :: "nat \<Rightarrow> nat \<Rightarrow> 'c task list list \<Rightarrow> 'c task option \<times> 'c task list list" where
  "kill_from p 0 r = (None, r)"
| "kill_from p (Suc n) r =
     (case r ! p of t # q \<Rightarrow> (Some t, r[p := q]) | [] \<Rightarrow> kill_from (Suc p) n r)"

definition oom_kill_lowest :: "'c scheduler \<Rightarrow> 'c task option \<times> 'c scheduler" where
  "oom_kill_lowest s = (let (victim, r) = kill_from 0 256 (ready s) in (victim, s\<lparr>ready := r\<rparr>))"

record sched_stats =
  st_current_tid :: "nat option"
  st_current_name :: "string option"
  st_ready_count :: nat
  st_blocked_count :: nat
  st_switches :: nat
  st_total_ticks :: nat
  st_quantum_left :: nat

definition scheduler_stats :: "'c scheduler \<Rightarrow> sched_stats" where
  "scheduler_stats s =
     \<lparr>st_current_tid = map_option tid (current s), st_current_name = map_option tname (current s),
      st_ready_count = sum_list (map length (ready s)), st_blocked_count = length (blocked s),
      st_switches = switches s, st_total_ticks = total_ticks s, st_quantum_left = quantum s\<rparr>"

section \<open>Blocking and waking\<close>

text \<open>The search of \<open>block_task\<close> through the ready queues, with \<open>n\<close> priorities left.\<close>

fun take_ready :: "nat \<Rightarrow> nat \<Rightarrow> nat \<Rightarrow> 'c task list list \<Rightarrow> ('c task \<times> 'c task list list) option" where
  "take_ready k p 0 r = None"
| "take_ready k p (Suc n) r =
     (case position (\<lambda>t. tid t = k) (r ! p) of
        Some i \<Rightarrow> Some (r ! p ! i, r[p := remove_at i (r ! p)])
      | None \<Rightarrow> take_ready k (Suc p) n r)"

definition block_task :: "nat \<Rightarrow> 'c scheduler \<Rightarrow> 'c scheduler" where
  "block_task k s =
     (if current_tid s = Some k then block_current_task s
      else
        case take_ready k 0 256 (ready s) of
          None \<Rightarrow> s
        | Some (t, r) \<Rightarrow> s\<lparr>ready := r, blocked := bt_insert k (t\<lparr>tstate := T_Blocked\<rparr>) (blocked s)\<rparr>)"

definition wake_task :: "nat \<Rightarrow> 'c scheduler \<Rightarrow> 'c scheduler" where
  "wake_task k s =
     (case bt_get (blocked s) k of
        None \<Rightarrow> s
      | Some t \<Rightarrow> s\<lparr>blocked := bt_remove k (blocked s), ready := push_ready (t\<lparr>tstate := T_Ready\<rparr>) (ready s)\<rparr>)"

definition exit_current :: "int \<Rightarrow> 'c scheduler \<Rightarrow> (nat \<times> int) \<times> 'c scheduler" where
  "exit_current code s =
     ((case current_tid s of Some k \<Rightarrow> k | None \<Rightarrow> 0, code), s\<lparr>current := None, quantum := 0\<rparr>)"

text \<open>The bookkeeping of \<open>start\<close> before it switches; \<open>None\<close> is the panic without tasks.\<close>

definition sched_start :: "'c scheduler \<Rightarrow> ('c task \<times> 'c scheduler) option" where
  "sched_start s =
     (case pick_next s of
        (None, _) \<Rightarrow> None
      | (Some first, s1) \<Rightarrow>
          let t = first\<lparr>tstate := T_Running\<rparr>
          in Some (t, s1\<lparr>current := Some t, quantum := DEFAULT_QUANTUM\<rparr>))"

text \<open>What \<open>sleep_ms\<close> does to the scheduler before it yields.\<close>

definition sleep_ms :: "nat \<Rightarrow> nat \<Rightarrow> 'c scheduler \<Rightarrow> 'c scheduler" where
  "sleep_ms now ms s =
     (if ms = 0 then s
      else s\<lparr>current := map_option (\<lambda>t. t\<lparr>sleep_until := Some (u64_add now ms)\<rparr>) (current s)\<rparr>)"

fun wake_keys :: "wait_event \<Rightarrow> nat list \<Rightarrow> 'c scheduler \<Rightarrow> 'c scheduler" where
  "wake_keys ev [] s = s"
| "wake_keys ev (k # ks) s =
     (case bt_get (blocked s) k of
        None \<Rightarrow> wake_keys ev ks s
      | Some t \<Rightarrow>
          if wait_ev t = Some ev then
            wake_keys ev ks (s\<lparr>blocked := bt_remove k (blocked s),
              ready := push_ready (t\<lparr>tstate := T_Ready, wait_ev := None\<rparr>) (ready s)\<rparr>)
          else wake_keys ev ks s)"

definition wake_on_event :: "wait_event \<Rightarrow> 'c scheduler \<Rightarrow> 'c scheduler" where
  "wake_on_event ev s = wake_keys ev (map fst (blocked s)) s"

definition wait_for_event :: "wait_event \<Rightarrow> 'c scheduler \<Rightarrow> 'c scheduler" where
  "wait_for_event ev s =
     block_current_task (s\<lparr>current := map_option (\<lambda>t. t\<lparr>wait_ev := Some ev\<rparr>) (current s)\<rparr>)"

definition steal_task_for_ap :: "u8 \<Rightarrow> nat \<Rightarrow> 'c scheduler \<Rightarrow> 'c task option \<times> 'c scheduler" where
  "steal_task_for_ap cpu now s =
     (case pick_below (length (ready s)) (ready s) of
        None \<Rightarrow> (None, s)
      | Some (t0, r) \<Rightarrow>
          let t = t0\<lparr>tstate := T_Running, stolen_at_ms := now\<rparr>
          in (Some t, s\<lparr>ready := r, running_on_ap := bt_insert cpu t (running_on_ap s)\<rparr>))"

definition ap_running_count :: "'c scheduler \<Rightarrow> nat" where
  "ap_running_count s = length (running_on_ap s)"

text \<open>\<open>sys_sched_yield\<close> of the system call table.\<close>

definition sys_sched_yield :: "'c scheduler \<Rightarrow> 'c scheduler" where
  "sys_sched_yield s = block_current_task s"

end
