(* ===== verification/Scheduler_Safety.thy ===== *)
theory Scheduler_Safety
  imports Scheduler
begin

text \<open>
  The scheduler neither loses nor duplicates tasks: the multiset of task identifiers over the
  running task, the ready queues, the blocked map and the application processors changes only by
  spawning, exiting and the out-of-memory killer.
\<close>

section \<open>Ready queues\<close>

definition queues_ok :: "'c task list list \<Rightarrow> bool" where
  "queues_ok r \<longleftrightarrow> length r = 256 \<and>
     (\<forall>p < 256. \<forall>t \<in> set (r ! p). unat (priority t) = p \<and> tstate t = T_Ready)"

lemma unat_u8_lt [simp]: "unat (x :: u8) < 256"
  using unsigned_less [of x, where 'a = nat] by simp

lemma mset_concat_update:
  "p < length r \<Longrightarrow> mset (concat (r[p := q])) + mset (r ! p) = mset (concat r) + mset q"
proof (induction r arbitrary: p)
  case (Cons x r)
  then show ?case by (cases p) (simp_all add: ac_simps)
qed simp

lemma queues_ok_update:
  "queues_ok r \<Longrightarrow> p < 256 \<Longrightarrow> \<forall>t \<in> set q. unat (priority t) = p \<and> tstate t = T_Ready \<Longrightarrow>
    queues_ok (r[p := q])"
  by (auto simp: queues_ok_def nth_list_update)

lemma push_ready_ok:
  assumes "queues_ok r" "tstate t = T_Ready"
  shows "queues_ok (push_ready t r)" "mset (concat (push_ready t r)) = add_mset t (mset (concat r))"
proof -
  have len: "unat (priority t) < length r" using assms(1) by (simp add: queues_ok_def)
  show "queues_ok (push_ready t r)"
    unfolding push_ready_def Let_def
    using assms unat_u8_lt [of "priority t"] by (intro queues_ok_update) (auto simp only: queues_ok_def set_append list.set)
  show "mset (concat (push_ready t r)) = add_mset t (mset (concat r))"
    using mset_concat_update [OF len, of "r ! unat (priority t) @ [t]"] by (simp add: push_ready_def Let_def)
qed

lemma pick_below_Some:
  "pick_below n r = Some (t, r') \<Longrightarrow>
    \<exists>p q. p < n \<and> r ! p = t # q \<and> r' = r[p := q] \<and> (\<forall>p'. p < p' \<and> p' < n \<longrightarrow> r ! p' = [])"
proof (induction n)
  case (Suc n)
  show ?case
  proof (cases "r ! n")
    case Nil
    with Suc obtain p q where "p < n" "r ! p = t # q" "r' = r[p := q]" "\<forall>p'. p < p' \<and> p' < n \<longrightarrow> r ! p' = []"
      by auto
    with Nil show ?thesis by (intro exI [of _ p] exI [of _ q]) (auto simp: less_Suc_eq)
  next
    case (Cons a list)
    with Suc.prems have "r ! n = t # list" "r' = r[n := list]" by simp_all
    then show ?thesis by (intro exI [of _ n] exI [of _ list]) auto
  qed
qed simp

lemma pick_below_None: "pick_below n r = None \<longleftrightarrow> (\<forall>p < n. r ! p = [])"
  by (induction n) (auto simp: less_Suc_eq split: list.splits)

lemma pick_below_top:
  "r ! p = t # q \<Longrightarrow> p < n \<Longrightarrow> \<forall>p'. p < p' \<and> p' < n \<longrightarrow> r ! p' = [] \<Longrightarrow> pick_below n r = Some (t, r[p := q])"
proof (induction n)
  case (Suc n)
  then show ?case by (cases "p = n") (auto simp: less_Suc_eq)
qed simp

lemma pop_ok:
  assumes "queues_ok r" "p < 256" "r ! p = xs @ t # ys" "r' = r[p := xs @ ys]"
  shows "queues_ok r'" "mset (concat r) = add_mset t (mset (concat r'))" "tstate t = T_Ready"
    "unat (priority t) = p"
proof -
  have mem: "\<forall>u \<in> set (xs @ t # ys). unat (priority u) = p \<and> tstate u = T_Ready"
    using assms(1,2) by (simp add: queues_ok_def flip: assms(3))
  then show "queues_ok r'" unfolding assms(4) by (intro queues_ok_update [OF assms(1,2)]) auto
  show "tstate t = T_Ready" "unat (priority t) = p" using mem by auto
  have "p < length r" using assms(1,2) by (simp add: queues_ok_def)
  from mset_concat_update [OF this, of "xs @ ys"] assms(3,4)
  show "mset (concat r) = add_mset t (mset (concat r'))" by simp
qed

lemma pick_below_ok:
  assumes "queues_ok r" "n \<le> 256" "pick_below n r = Some (t, r')"
  shows "queues_ok r'" "mset (concat r) = add_mset t (mset (concat r'))" "tstate t = T_Ready"
proof -
  obtain p q where "p < n" "r ! p = [] @ t # q" "r' = r[p := [] @ q]"
    using pick_below_Some [OF assms(3)] by auto
  with pop_ok [OF assms(1), of p "[]" t q r'] assms(2)
  show "queues_ok r'" "mset (concat r) = add_mset t (mset (concat r'))" "tstate t = T_Ready" by simp_all
qed

lemma kill_from_ok:
  assumes "queues_ok r" "p + n \<le> 256" "kill_from p n r = (v, r')"
  shows "queues_ok r' \<and> mset (concat r) = (case v of None \<Rightarrow> {#} | Some t \<Rightarrow> {#t#}) + mset (concat r')"
  using assms(2,3)
proof (induction n arbitrary: p)
  case (Suc n)
  show ?case
  proof (cases "r ! p")
    case (Cons t q)
    with Suc.prems have "r ! p = [] @ t # q" "r' = r[p := [] @ q]" "v = Some t" "p < 256" by simp_all
    with pop_ok [OF assms(1), of p "[]" t q r'] show ?thesis by simp
  next
    case Nil
    with Suc.prems Suc.IH [of "Suc p"] show ?thesis by simp
  qed
qed (use assms(1) in simp)

lemma take_ready_ok:
  assumes "queues_ok r" "p + n \<le> 256" "take_ready k p n r = Some (t, r')"
  shows "queues_ok r' \<and> mset (concat r) = add_mset t (mset (concat r')) \<and> tid t = k"
  using assms(2,3)
proof (induction n arbitrary: p)
  case (Suc n)
  show ?case
  proof (cases "position (\<lambda>t. tid t = k) (r ! p)")
    case (Some i)
    from position_Some [OF Some] have i: "i < length (r ! p)" "tid (r ! p ! i) = k" by simp_all
    with Suc.prems Some have eq: "t = r ! p ! i" "r' = r[p := take i (r ! p) @ drop (Suc i) (r ! p)]" "p < 256"
      by (simp_all add: remove_at_def)
    with pop_ok [OF assms(1), of p "take i (r ! p)" t "drop (Suc i) (r ! p)" r'] remove_at_split [OF i(1)] i(2)
    show ?thesis by simp
  next
    case None
    with Suc.prems Suc.IH [of "Suc p"] show ?thesis by simp
  qed
qed simp

section \<open>The invariant\<close>

definition running_tid :: "'c task option \<Rightarrow> nat multiset" where
  "running_tid c = (case c of None \<Rightarrow> {#} | Some t \<Rightarrow> {#tid t#})"

definition held_tids :: "('k \<times> 'c task) list \<Rightarrow> nat multiset" where
  "held_tids m = image_mset (\<lambda>e. tid (snd e)) (mset m)"

definition tids :: "'c scheduler \<Rightarrow> nat multiset" where
  "tids s = running_tid (current s) + image_mset tid (mset (concat (ready s))) +
     held_tids (blocked s) + held_tids (running_on_ap s)"

definition sched_ok :: "'c scheduler \<Rightarrow> bool" where
  "sched_ok s \<longleftrightarrow> queues_ok (ready s) \<and>
     bt_sorted (blocked s) \<and> (\<forall>e \<in> set (blocked s). tid (snd e) = fst e \<and> tstate (snd e) = T_Blocked) \<and>
     bt_sorted (running_on_ap s) \<and> (\<forall>e \<in> set (running_on_ap s). tstate (snd e) = T_Running) \<and>
     (\<forall>k. count (tids s) k \<le> 1)"

lemma running_tid_simps [simp]: "running_tid None = {#}" "running_tid (Some t) = {#tid t#}"
  by (simp_all add: running_tid_def)

lemma held_tids_insert:
  "bt_sorted m \<Longrightarrow> bt_get m k = None \<Longrightarrow> held_tids (bt_insert k t m) = add_mset (tid t) (held_tids m)"
  by (simp add: held_tids_def bt.mset_ins_fresh)

lemma held_tids_remove:
  assumes "bt_sorted m" "bt_get m k = Some t"
  shows "held_tids m = add_mset (tid t) (held_tids (bt_remove k m))"
  unfolding held_tids_def by (subst bt.filter_key_present [OF assms]) (simp add: bt.mset_del [OF assms(1)])

lemma not_blocked_twice:
  assumes "sched_ok s" "k \<in># running_tid (current s) + image_mset tid (mset (concat (ready s)))"
  shows "bt_get (blocked s) k = None"
proof (rule ccontr)
  assume "bt_get (blocked s) k \<noteq> None"
  then obtain t where "(k, t) \<in> set (blocked s)" by (auto dest: map_of_SomeD)
  with assms(1) have "k \<in># held_tids (blocked s)" by (force simp: sched_ok_def held_tids_def)
  then have "0 < count (held_tids (blocked s)) k" by simp
  moreover have "0 < count (running_tid (current s) + image_mset tid (mset (concat (ready s)))) k"
    using assms(2) by (simp only: count_greater_zero_iff)
  moreover have "count (tids s) k \<le> 1" using assms(1) by (simp add: sched_ok_def)
  ultimately show False unfolding tids_def count_union by linarith
qed

text \<open>Two scheduler states that hold the same tasks.\<close>

definition same_tasks :: "'c scheduler \<Rightarrow> 'c scheduler \<Rightarrow> bool" where
  "same_tasks s s' \<longleftrightarrow> (sched_ok s \<longrightarrow> sched_ok s' \<and> tids s' = tids s)"

lemma same_tasks_trans: "same_tasks s s1 \<Longrightarrow> same_tasks s1 s2 \<Longrightarrow> same_tasks s s2"
  by (simp add: same_tasks_def)

lemma same_tasks_refl [simp]: "same_tasks s s"
  by (simp add: same_tasks_def)

lemma same_tasksI:
  assumes "sched_ok s \<Longrightarrow> queues_ok (ready s')" "sched_ok s \<Longrightarrow> bt_sorted (blocked s')"
    "sched_ok s \<Longrightarrow> \<forall>e \<in> set (blocked s'). tid (snd e) = fst e \<and> tstate (snd e) = T_Blocked"
    "sched_ok s \<Longrightarrow> bt_sorted (running_on_ap s')"
    "sched_ok s \<Longrightarrow> \<forall>e \<in> set (running_on_ap s'). tstate (snd e) = T_Running"
    "sched_ok s \<Longrightarrow> tids s' = tids s"
  shows "same_tasks s s'"
  unfolding same_tasks_def
proof (intro impI conjI)
  assume ok: "sched_ok s"
  then show "tids s' = tids s" by (rule assms(6))
  moreover have "\<forall>k. count (tids s) k \<le> 1" using ok by (simp add: sched_ok_def)
  ultimately show "sched_ok s'" unfolding sched_ok_def using assms(1-5) ok by simp
qed

section \<open>Every operation keeps the tasks\<close>

lemma same_tasks_fields:
  "ready s' = ready s \<Longrightarrow> blocked s' = blocked s \<Longrightarrow> running_on_ap s' = running_on_ap s \<Longrightarrow>
    running_tid (current s') = running_tid (current s) \<Longrightarrow> same_tasks s s'"
  by (simp add: same_tasks_def sched_ok_def tids_def)

lemma block_current_task_keeps: "same_tasks s (block_current_task s)"
proof (cases "current s")
  case (Some t)
  have "bt_get (blocked s) (tid t) = None" if "sched_ok s"
    by (rule not_blocked_twice [OF that]) (simp add: Some)
  then have "tids (block_current_task s) = tids s" if "sched_ok s"
    using that by (simp add: block_current_task_def Some tids_def sched_ok_def held_tids_insert)
  then show ?thesis
    by (intro same_tasksI)
      (auto simp: block_current_task_def Some sched_ok_def bt_sorted_insert bt.set_ins)
qed (simp add: block_current_task_def)

lemma wake_task_keeps: "same_tasks s (wake_task k s)"
proof (cases "bt_get (blocked s) k")
  case (Some t)
  have "tids (wake_task k s) = tids s" if "sched_ok s"
    using that held_tids_remove [OF _ Some]
    by (simp add: wake_task_def Some tids_def sched_ok_def push_ready_ok)
  then show ?thesis
    by (intro same_tasksI)
      (auto simp: wake_task_def Some sched_ok_def bt_sorted_remove bt.set_del push_ready_ok)
qed (simp add: wake_task_def)

lemma block_task_keeps: "same_tasks s (block_task k s)"
proof (cases "current_tid s = Some k")
  case True
  then show ?thesis using block_current_task_keeps by (simp add: block_task_def)
next
  case False
  show ?thesis
  proof (cases "take_ready k 0 256 (ready s)")
    case (Some tr)
    obtain t r where tr: "tr = (t, r)" by fastforce
    have ok: "queues_ok r" "mset (concat (ready s)) = add_mset t (mset (concat r))" "tid t = k" if "sched_ok s"
      using take_ready_ok [of "ready s" 0 256 k t r] that Some tr by (simp_all add: sched_ok_def)
    have "bt_get (blocked s) k = None" if "sched_ok s"
      by (rule not_blocked_twice [OF that]) (use ok [OF that] in simp)
    then have "tids (block_task k s) = tids s" if "sched_ok s"
      using that ok [OF that] False Some tr
      by (simp add: block_task_def tids_def sched_ok_def held_tids_insert)
    then show ?thesis
      using False Some tr ok
      by (intro same_tasksI) (auto simp: block_task_def sched_ok_def bt_sorted_insert bt.set_ins)
  qed (use False in \<open>simp add: block_task_def\<close>)
qed

lemma wait_for_event_keeps: "same_tasks s (wait_for_event ev s)"
  unfolding wait_for_event_def
  by (rule same_tasks_trans [OF same_tasks_fields block_current_task_keeps])
    (simp_all add: running_tid_def split: option.splits)

lemma sleep_ms_keeps: "same_tasks s (sleep_ms now ms s)"
  by (rule same_tasks_fields) (simp_all add: sleep_ms_def running_tid_def split: option.splits)

lemma wake_keys_keeps: "same_tasks s (wake_keys ev ks s)"
proof (induction ks arbitrary: s)
  case (Cons k ks)
  show ?case
  proof (cases "bt_get (blocked s) k")
    case (Some t)
    let ?s = "s\<lparr>blocked := bt_remove k (blocked s),
      ready := push_ready (t\<lparr>tstate := T_Ready, wait_ev := None\<rparr>) (ready s)\<rparr>"
    have "tids ?s = tids s" if "sched_ok s"
      using that held_tids_remove [OF _ Some] by (simp add: tids_def sched_ok_def push_ready_ok)
    then have "same_tasks s ?s"
      by (intro same_tasksI) (auto simp: sched_ok_def bt_sorted_remove bt.set_del push_ready_ok)
    then have "same_tasks s (wake_keys ev ks ?s)" by (rule same_tasks_trans) (rule Cons.IH)
    then show ?thesis using Cons.IH [of s] by (simp add: Some)
  qed (use Cons.IH in simp)
qed simp

lemma ap_task_finished_keeps: "same_tasks s (snd (ap_task_finished cpu s))"
proof (cases "bt_get (running_on_ap s) cpu")
  case (Some t)
  let ?t = "t\<lparr>tstate := T_Ready, ticks := u64_add (ticks t) 1\<rparr>"
  let ?s = "s\<lparr>running_on_ap := bt_remove cpu (running_on_ap s), ready := push_ready ?t (ready s)\<rparr>"
  have run: "tstate t = T_Running" if "sched_ok s"
    using that map_of_SomeD [OF Some] by (force simp: sched_ok_def)
  have eq: "snd (ap_task_finished cpu s) = ?s" if "sched_ok s"
    using run [OF that] that unat_u8_lt [of "priority t"]
    by (simp add: ap_task_finished_def Some Let_def sched_ok_def queues_ok_def)
  have "tids ?s = tids s" if "sched_ok s"
    using that held_tids_remove [OF _ Some] by (simp add: tids_def sched_ok_def push_ready_ok)
  then have "same_tasks s ?s"
    by (intro same_tasksI) (auto simp: sched_ok_def bt_sorted_remove bt.set_del push_ready_ok)
  then show ?thesis using eq by (simp add: same_tasks_def)
qed (simp add: ap_task_finished_def)

lemma finish_all_keeps: "same_tasks s (finish_all cpus s)"
  by (induction cpus arbitrary: s) (auto intro: same_tasks_trans [OF ap_task_finished_keeps])

lemma pick_next_cases:
  obtains "pick_next s = (None, s)" "pick_below 256 (ready s) = None"
  | t r where "pick_next s = (Some t, s\<lparr>ready := r\<rparr>)" "pick_below 256 (ready s) = Some (t, r)"
  by (cases "pick_below 256 (ready s)") (auto simp: pick_next_def)

text \<open>Resuming a picked task, in place of no task or after queueing the current one.\<close>

lemma resume_keeps:
  assumes "pick_below 256 (ready s) = Some (t, r)" "tid t' = tid t" "current s = None"
  shows "same_tasks s (s\<lparr>ready := r, current := Some t', quantum := q\<rparr>)"
proof (rule same_tasksI)
  assume "sched_ok s"
  then show "queues_ok (ready (s\<lparr>ready := r, current := Some t', quantum := q\<rparr>))"
    "tids (s\<lparr>ready := r, current := Some t', quantum := q\<rparr>) = tids s"
    using pick_below_ok [of "ready s" 256 t r] assms by (simp_all add: sched_ok_def tids_def)
qed (simp_all add: sched_ok_def)

lemma swap_keeps:
  assumes "pick_below 256 (ready s) = Some (t, r)" "tid t' = tid t" "current s = Some c"
    "tid c' = tid c" "tstate c' = T_Ready"
  shows "same_tasks s (s\<lparr>ready := push_ready c' r, current := Some t', quantum := q, switches := n\<rparr>)" (is "same_tasks s ?s")
proof (rule same_tasksI)
  assume "sched_ok s"
  then have "queues_ok r" "mset (concat (ready s)) = add_mset t (mset (concat r))"
    using pick_below_ok [of "ready s" 256 t r] assms(1) by (simp_all add: sched_ok_def)
  then show "queues_ok (ready ?s)" "tids ?s = tids s"
    using assms(2-5) by (simp_all add: tids_def push_ready_ok)
qed (simp_all add: sched_ok_def)

lemma expire_keeps:
  assumes "current s = Some c"
  shows "same_tasks s (snd (expire c s))"
proof -
  define c' where "c' = c\<lparr>ticks := u64_add (ticks c) DEFAULT_QUANTUM, tstate := T_Ready\<rparr>"
  define s4 where "s4 = s\<lparr>current := Some c'\<rparr>"
  have s4: "same_tasks s s4" by (rule same_tasks_fields) (simp_all add: s4_def c'_def assms)
  have cur: "current s4 = Some c'" "tstate c' = T_Ready" by (simp_all add: s4_def c'_def)
  have expire: "expire c s = (case pick_next s4 of (None, s5) \<Rightarrow> (None, s5)
      | (Some next, s5) \<Rightarrow>
          let s6 = enqueue_current s5; nt = next\<lparr>tstate := T_Running\<rparr>;
              s7 = s6\<lparr>current := Some nt, quantum := DEFAULT_QUANTUM, switches := u64_add (switches s6) 1\<rparr>
          in if ready s7 ! unat (priority c') = [] then (None, s7)
             else (Some (last (ready s7 ! unat (priority c')), nt), s7))"
    unfolding expire_def c'_def s4_def Let_def by (rule refl)
  show ?thesis
  proof (cases rule: pick_next_cases [of s4])
    case 1
    then show ?thesis using s4 by (simp add: expire)
  next
    case (2 t r)
    have "snd (expire c s) = s4\<lparr>ready := push_ready (c'\<lparr>tstate := T_Ready\<rparr>) r,
        current := Some (t\<lparr>tstate := T_Running\<rparr>), quantum := DEFAULT_QUANTUM, switches := u64_add (switches s4) 1\<rparr>"
      by (simp add: expire 2(1) enqueue_current_def cur Let_def)
    moreover have "same_tasks s4 \<dots>" by (rule swap_keeps [OF 2(2) _ cur(1)]) simp_all
    ultimately show ?thesis using same_tasks_trans [OF s4] by simp
  qed
qed

lemma sched_tick_keeps: "same_tasks s0 (snd (sched_tick now s0))"
proof -
  define s1 where "s1 = s0\<lparr>total_ticks := u64_add (total_ticks s0) 1\<rparr>"
  define s where "s = (if total_ticks s1 mod 1000 = 0 \<and> running_on_ap s1 \<noteq> []
    then ap_audit_lost_tasks_inner now s1 else s1)"
  have "same_tasks s0 s1" by (rule same_tasks_fields) (simp_all add: s1_def)
  moreover have "same_tasks s1 s" by (simp add: s_def ap_audit_lost_tasks_inner_def finish_all_keeps)
  ultimately have s: "same_tasks s0 s" by (rule same_tasks_trans)
  have tick: "sched_tick now s0 = (case current s of
      None \<Rightarrow> (case pick_next s of
          (Some next, s2) \<Rightarrow> (None, s2\<lparr>current := Some next, quantum := DEFAULT_QUANTUM\<rparr>)
        | (None, s2) \<Rightarrow> (None, s2))
    | Some c \<Rightarrow> let q = (if quantum s > 0 then quantum s - 1 else quantum s)
        in if q = 0 then expire c (s\<lparr>quantum := q\<rparr>) else (None, s\<lparr>quantum := q\<rparr>))"
    unfolding sched_tick_def s1_def [symmetric] Let_def s_def [symmetric] by (rule refl)
  show ?thesis
  proof (cases "current s")
    case None
    show ?thesis
    proof (cases rule: pick_next_cases [of s])
      case (2 t r)
      then show ?thesis
        using same_tasks_trans [OF s resume_keeps [OF 2(2) refl None]] by (simp add: tick None)
    qed (use s in \<open>simp add: tick None\<close>)
  next
    case (Some c)
    have q: "same_tasks s (s\<lparr>quantum := n\<rparr>)" for n by (rule same_tasks_fields) simp_all
    have "same_tasks (s\<lparr>quantum := n\<rparr>) (snd (expire c (s\<lparr>quantum := n\<rparr>)))" for n
      by (rule expire_keeps) (simp add: Some)
    then have "same_tasks s0 (snd (expire c (s\<lparr>quantum := n\<rparr>)))" "same_tasks s0 (s\<lparr>quantum := n\<rparr>)" for n
      using same_tasks_trans [OF s q] same_tasks_trans [OF same_tasks_trans [OF s q]] by blast+
    then show ?thesis by (simp add: tick Some Let_def)
  qed
qed

section \<open>Histories\<close>

text \<open>
  A steal for a processor that still has a task drops that task: the map entry is overwritten. Nothing is dropped when the
  processor is idle or no task is ready.
\<close>

definition dropped_by_steal :: "u8 \<Rightarrow> 'c scheduler \<Rightarrow> nat multiset" where
  "dropped_by_steal cpu s =
     (if pick_below (length (ready s)) (ready s) = None then {#} else running_tid (bt_get (running_on_ap s) cpu))"

text \<open>
  A history of the scheduler, with the tasks it spawned, the tasks that exited or were killed, and the tasks dropped by steals for
  busy processors.
\<close>

inductive sched_run :: "'c scheduler \<Rightarrow> nat multiset \<Rightarrow> nat multiset \<Rightarrow> nat multiset \<Rightarrow> 'c scheduler \<Rightarrow> bool" where
  run_start: "sched_run s {#} {#} {#} s"
| run_tick: "sched_run s a e d s1 \<Longrightarrow> sched_run s a e d (snd (sched_tick now s1))"
| run_block: "sched_run s a e d s1 \<Longrightarrow> sched_run s a e d (block_task k s1)"
| run_yield: "sched_run s a e d s1 \<Longrightarrow> sched_run s a e d (sys_sched_yield s1)"
| run_wait: "sched_run s a e d s1 \<Longrightarrow> sched_run s a e d (wait_for_event ev s1)"
| run_sleep: "sched_run s a e d s1 \<Longrightarrow> sched_run s a e d (sleep_ms now ms s1)"
| run_wake: "sched_run s a e d s1 \<Longrightarrow> sched_run s a e d (wake_task k s1)"
| run_wake_on: "sched_run s a e d s1 \<Longrightarrow> sched_run s a e d (wake_on_event ev s1)"
| run_steal: "sched_run s a e d s1 \<Longrightarrow>
    sched_run s a e (d + dropped_by_steal cpu s1) (snd (steal_task_for_ap cpu now s1))"
| run_finished: "sched_run s a e d s1 \<Longrightarrow> sched_run s a e d (snd (ap_task_finished cpu s1))"
| run_spawn: "sched_run s a e d s1 \<Longrightarrow> tid t \<notin># tids s1 \<Longrightarrow> sched_run s (add_mset (tid t) a) e d (spawn t s1)"
| run_exit: "sched_run s a e d s1 \<Longrightarrow> sched_run s a (e + running_tid (current s1)) d (snd (exit_current code s1))"
| run_oom: "sched_run s a e d s1 \<Longrightarrow> sched_run s a (e + running_tid (fst (oom_kill_lowest s1))) d (snd (oom_kill_lowest s1))"

lemma yield_keeps: "same_tasks s (sys_sched_yield s)"
  unfolding sys_sched_yield_def by (rule block_current_task_keeps)

lemma wake_on_event_keeps: "same_tasks s (wake_on_event ev s)"
  unfolding wake_on_event_def by (rule wake_keys_keeps)

lemmas keeps = sched_tick_keeps block_task_keeps yield_keeps wait_for_event_keeps sleep_ms_keeps
  wake_task_keeps wake_on_event_keeps ap_task_finished_keeps

lemmas keeps_ok = keeps [unfolded same_tasks_def, rule_format, THEN conjunct1]
lemmas keeps_tids = keeps [unfolded same_tasks_def, rule_format, THEN conjunct2]

lemma spawn_adds:
  assumes "sched_ok s" "tid t \<notin># tids s"
  shows "sched_ok (spawn t s) \<and> tids (spawn t s) = add_mset (tid t) (tids s)"
proof -
  let ?t = "t\<lparr>tstate := T_Ready\<rparr>"
  have q: "queues_ok (push_ready ?t (ready s))"
    "mset (concat (push_ready ?t (ready s))) = add_mset ?t (mset (concat (ready s)))"
    using push_ready_ok [of "ready s" ?t] assms(1) by (simp_all add: sched_ok_def)
  then have tids: "tids (spawn t s) = add_mset (tid t) (tids s)" by (simp add: tids_def spawn_def)
  have "count (tids s) k \<le> 1" for k using assms(1) by (simp add: sched_ok_def)
  then have "\<forall>k. count (tids (spawn t s)) k \<le> 1" using assms(2) by (simp add: tids not_in_iff)
  then show ?thesis using assms(1) q(1) tids by (simp add: sched_ok_def spawn_def)
qed

lemma sched_ok_less:
  assumes "sched_ok s" "tids s' + e = tids s" "queues_ok (ready s')"
    "blocked s' = blocked s" "running_on_ap s' = running_on_ap s"
  shows "sched_ok s'"
proof -
  have "count (tids s') k \<le> count (tids s) k" for k using assms(2) by (metis count_union le_add1)
  then show ?thesis using assms(1,3-5) unfolding sched_ok_def by (metis le_trans)
qed

lemma steal_accounts:
  assumes "sched_ok s"
  shows "sched_ok (snd (steal_task_for_ap cpu now s)) \<and> tids (snd (steal_task_for_ap cpu now s)) + dropped_by_steal cpu s = tids s"
proof (cases "pick_below (length (ready s)) (ready s)")
  case (Some tr)
  obtain u r where tr: "tr = (u, r)" by fastforce
  let ?ap = "running_on_ap s" and ?u = "u\<lparr>tstate := T_Running, stolen_at_ms := now\<rparr>"
  define s' where "s' = s\<lparr>ready := r, running_on_ap := bt_insert cpu ?u ?ap\<rparr>"
  have steal: "snd (steal_task_for_ap cpu now s) = s'" by (simp add: steal_task_for_ap_def Some tr s'_def Let_def)
  have sorted: "bt_sorted ?ap" and r: "queues_ok r" "mset (concat (ready s)) = add_mset u (mset (concat r))"
    using assms pick_below_ok [of "ready s" "length (ready s)" u r] Some tr by (simp_all add: sched_ok_def queues_ok_def)
  have "held_tids (bt_insert cpu ?u ?ap) = add_mset (tid u) (held_tids (bt_remove cpu ?ap))"
    using sorted by (simp add: held_tids_def bt.mset_ins bt.mset_del)
  moreover have "held_tids ?ap = held_tids (bt_remove cpu ?ap) + running_tid (bt_get ?ap cpu)"
  proof (cases "bt_get ?ap cpu")
    case None
    then have "held_tids (bt_insert cpu ?u ?ap) = add_mset (tid u) (held_tids ?ap)" using sorted by (simp add: held_tids_insert)
    with calculation None show ?thesis by simp
  qed (simp add: held_tids_remove [OF sorted])
  ultimately have tids: "tids s' + dropped_by_steal cpu s = tids s"
    using r(2) by (simp add: s'_def tids_def dropped_by_steal_def Some ac_simps)
  have "count (tids s') k \<le> count (tids s) k" for k by (simp flip: tids)
  then have "\<forall>k. count (tids s') k \<le> 1" using assms unfolding sched_ok_def by (metis le_trans)
  moreover have "\<forall>e \<in> set (running_on_ap s'). tstate (snd e) = T_Running" "bt_sorted (running_on_ap s')"
    using assms by (auto simp: s'_def sched_ok_def bt.set_ins bt_sorted_insert)
  ultimately have "sched_ok s'" using assms r(1) by (simp add: sched_ok_def s'_def)
  with tids show ?thesis by (simp add: steal)
qed (use assms in \<open>simp add: steal_task_for_ap_def dropped_by_steal_def\<close>)

lemma exit_removes:
  assumes "sched_ok s"
  shows "sched_ok (snd (exit_current code s)) \<and> tids (snd (exit_current code s)) + running_tid (current s) = tids s"
proof -
  have "tids (snd (exit_current code s)) + running_tid (current s) = tids s" by (simp add: exit_current_def tids_def)
  moreover from sched_ok_less [OF assms this] assms have "sched_ok (snd (exit_current code s))"
    by (simp add: exit_current_def sched_ok_def)
  ultimately show ?thesis by simp
qed

lemma oom_removes:
  assumes "sched_ok s"
  shows "sched_ok (snd (oom_kill_lowest s)) \<and>
    tids (snd (oom_kill_lowest s)) + running_tid (fst (oom_kill_lowest s)) = tids s"
proof -
  obtain v r where k: "kill_from 0 256 (ready s) = (v, r)" by fastforce
  with kill_from_ok [of "ready s" 0 256] assms have q: "queues_ok r"
    "mset (concat (ready s)) = (case v of None \<Rightarrow> {#} | Some t \<Rightarrow> {#t#}) + mset (concat r)"
    by (simp_all add: sched_ok_def)
  have "tids (snd (oom_kill_lowest s)) + running_tid (fst (oom_kill_lowest s)) = tids s"
    using q(2) by (simp add: oom_kill_lowest_def k tids_def split: option.splits)
  moreover from sched_ok_less [OF assms this] q(1) have "sched_ok (snd (oom_kill_lowest s))"
    by (simp add: oom_kill_lowest_def k)
  ultimately show ?thesis by simp
qed

lemma taken_out:
  fixes x :: "'a multiset"
  assumes "x' + y = x" "x + e + d = z"
  shows "x' + (e + y) + d = z" "x' + e + (d + y) = z"
  using assms by (auto simp: ac_simps)

lemma sched_run_accounts:
  assumes "sched_run s a e d s'" "sched_ok s"
  shows "sched_ok s' \<and> tids s' + e + d = tids s + a"
  using assms
proof (induction rule: sched_run.induct)
  case (run_spawn s a e d s1 t)
  then show ?case using spawn_adds [of s1 t] by simp
next
  case (run_exit s a e d s1 code)
  then show ?case using exit_removes [of s1 code] taken_out(1) by blast
next
  case (run_oom s a e d s1)
  then show ?case using oom_removes [of s1] taken_out(1) by blast
next
  case (run_steal s a e d s1 cpu now)
  then show ?case using steal_accounts [of s1 cpu now] taken_out(2) by blast
qed (simp_all add: keeps_ok keeps_tids)

section \<open>Progress within a priority\<close>

abbreviation ticked :: "nat \<Rightarrow> nat \<Rightarrow> 'c scheduler \<Rightarrow> 'c scheduler" where
  "ticked now n s \<equiv> ((\<lambda>s. snd (sched_tick now s)) ^^ n) s"

lemma tick_runs_on:
  assumes "running_on_ap s = []" "current s = Some c" "1 < quantum s"
  shows "snd (sched_tick now s) = s\<lparr>total_ticks := u64_add (total_ticks s) 1, quantum := quantum s - 1\<rparr>"
  using assms by (simp add: sched_tick_def Let_def)

lemma tick_switches:
  assumes "running_on_ap s = []" "current s = Some c" "quantum s = 1" "pick_below 256 (ready s) = Some (t, r)"
  shows "snd (sched_tick now s) = s\<lparr>total_ticks := u64_add (total_ticks s) 1,
    ready := push_ready (c\<lparr>ticks := u64_add (ticks c) DEFAULT_QUANTUM, tstate := T_Ready\<rparr>) r,
    current := Some (t\<lparr>tstate := T_Running\<rparr>), quantum := DEFAULT_QUANTUM, switches := u64_add (switches s) 1\<rparr>"
  using assms by (simp add: sched_tick_def expire_def pick_next_def enqueue_current_def Let_def)

lemma ticked_countdown:
  assumes "running_on_ap s = []" "current s = Some c" "n < quantum s"
  shows "\<exists>k. ticked now n s = s\<lparr>total_ticks := k, quantum := quantum s - n\<rparr>"
  using assms(3)
proof (induction n)
  case 0
  have "s = s\<lparr>total_ticks := total_ticks s, quantum := quantum s\<rparr>" by simp
  then show ?case by (metis funpow_0 diff_zero)
next
  case (Suc n)
  then obtain k where k: "ticked now n s = s\<lparr>total_ticks := k, quantum := quantum s - n\<rparr>" by auto
  have "snd (sched_tick now (s\<lparr>total_ticks := k, quantum := quantum s - n\<rparr>)) =
      s\<lparr>total_ticks := u64_add k 1, quantum := quantum s - Suc n\<rparr>"
    using Suc.prems assms(1,2) by (subst tick_runs_on [of _ c]) (simp_all add: Suc_diff_Suc)
  then show ?case by (auto simp: k)
qed

lemma ticked_switch:
  assumes "running_on_ap s = []" "current s = Some c" "0 < quantum s" "pick_below 256 (ready s) = Some (t, r)"
  shows "\<exists>k. ticked now (quantum s) s = s\<lparr>total_ticks := k,
    ready := push_ready (c\<lparr>ticks := u64_add (ticks c) DEFAULT_QUANTUM, tstate := T_Ready\<rparr>) r,
    current := Some (t\<lparr>tstate := T_Running\<rparr>), quantum := DEFAULT_QUANTUM, switches := u64_add (switches s) 1\<rparr>"
proof -
  obtain n where n: "quantum s = Suc n" using assms(3) gr0_implies_Suc by blast
  obtain k where k: "ticked now n s = s\<lparr>total_ticks := k, quantum := quantum s - n\<rparr>"
    using ticked_countdown [OF assms(1,2), of n] n by auto
  show ?thesis
    using tick_switches [of "s\<lparr>total_ticks := k, quantum := quantum s - n\<rparr>" c t r now] assms n
    by (auto simp: k)
qed

text \<open>
  C28. Within the highest priority that has tasks, the scheduler is round robin and nobody starves: a
  task with \<open>n\<close> tasks before it in its queue runs after the rest of the current quantum and
  \<open>n\<close> further quanta, when no task of a higher priority is ready or running.
\<close>

theorem round_robin_progress:
  assumes "queues_ok (ready s)" "running_on_ap s = []" "0 < quantum s"
    and "current s = Some c" "unat (priority c) \<le> p" "p < 256"
    and "ready s ! p = pre @ t # post" "\<And>p'. p < p' \<Longrightarrow> p' < 256 \<Longrightarrow> ready s ! p' = []"
  shows "current_tid (ticked now (quantum s + DEFAULT_QUANTUM * length pre) s) = Some (tid t)"
  using assms
proof (induction pre arbitrary: s c post)
  case Nil
  then have "pick_below 256 (ready s) = Some (t, (ready s)[p := post])" by (intro pick_below_top) auto
  from ticked_switch [OF Nil.prems(2,4,3) this, of now] show ?case by (auto simp: current_tid_def)
next
  case (Cons h pre)
  let ?r = "(ready s)[p := pre @ t # post]"
  let ?c = "c\<lparr>ticks := u64_add (ticks c) DEFAULT_QUANTUM, tstate := T_Ready\<rparr>"
  have pick: "pick_below 256 (ready s) = Some (h, ?r)" using Cons.prems by (intro pick_below_top) auto
  from ticked_switch [OF Cons.prems(2,4,3) pick, of now] obtain k where
    k: "ticked now (quantum s) s = s\<lparr>total_ticks := k, ready := push_ready ?c ?r,
      current := Some (h\<lparr>tstate := T_Running\<rparr>), quantum := DEFAULT_QUANTUM, switches := u64_add (switches s) 1\<rparr>"
    (is "_ = ?s") by blast
  have r: "queues_ok ?r" "unat (priority h) = p" "length ?r = 256"
    using pop_ok [OF Cons.prems(1,6), of "[]" h "pre @ t # post" ?r] Cons.prems(7) by (simp_all add: queues_ok_def)
  have above: "?r ! p' = []" if "p < p'" "p' < 256" for p' using Cons.prems(8) [OF that] that r(3) by simp
  obtain post' where p: "push_ready ?c ?r ! p = pre @ t # post'"
    using r(3) Cons.prems(6) by (cases "unat (priority c) = p") (simp_all add: push_ready_def Let_def)
  have hi: "push_ready ?c ?r ! p' = []" if "p < p'" "p' < 256" for p'
    using above [OF that] that Cons.prems(5) by (simp add: push_ready_def Let_def)
  have "current_tid (ticked now (quantum ?s + DEFAULT_QUANTUM * length pre) ?s) = Some (tid t)"
    using Cons.prems(2,6) r(2) p hi push_ready_ok(1) [OF r(1), of ?c]
    by (intro Cons.IH) (auto simp: DEFAULT_QUANTUM_def)
  moreover have "quantum s + DEFAULT_QUANTUM * length (h # pre) =
      (DEFAULT_QUANTUM + DEFAULT_QUANTUM * length pre) + quantum s" by simp
  ultimately show ?case unfolding \<open>_ = _ + quantum s\<close> funpow_add comp_def k by simp
qed

section \<open>Further properties\<close>

lemma scheduler_new_ok:
  assumes "tstate idle = T_Ready"
  shows "sched_ok (scheduler_new idle)" "tids (scheduler_new idle) = {#tid idle#}"
proof -
  define n :: nat where "n = 256"
  have empty: "queues_ok (replicate n [] :: 'a task list list)" by (simp add: queues_ok_def n_def)
  have none: "mset (concat (replicate n [] :: 'a task list list)) = {#}" by (simp only: concat_replicate_trivial mset.simps)
  note q = push_ready_ok [OF empty assms]
  have new: "scheduler_new idle = \<lparr>running_on_ap = [], current = None, ready = push_ready idle (replicate n []),
      blocked = [], quantum = DEFAULT_QUANTUM, switches = 0, total_ticks = 0\<rparr>"
    by (simp only: scheduler_new_def n_def)
  show t: "tids (scheduler_new idle) = {#tid idle#}"
    by (simp only: new tids_def scheduler.simps q(2) none held_tids_def running_tid_simps) simp
  show "sched_ok (scheduler_new idle)"
    using q(1) by (simp add: sched_ok_def t) (simp add: new)
qed

text \<open>
  C16. No task is lost or duplicated, with one exception that is accounted for. From a fresh scheduler, over any history of
  ticks, blocking, waking, stealing by processors, returns from them, spawning of new tasks, exits and out-of-memory kills, the
  tasks spawned are those held by the scheduler, those that exited or were killed, and those that a steal for a processor that still had
  a task has overwritten. Each task held is in exactly one place, running, ready, blocked or on a processor, and the
  ready queues hold only ready tasks of their priority.
\<close>

theorem no_task_lost:
  assumes "tstate idle = T_Ready" "sched_run (scheduler_new idle) spawned ended dropped s"
  shows "tids s + ended + dropped = add_mset (tid idle) spawned \<and> (\<forall>k. count (tids s) k \<le> 1) \<and> queues_ok (ready s)"
proof -
  note new = scheduler_new_ok [OF assms(1)]
  have "sched_ok s" "tids s + ended + dropped = tids (scheduler_new idle) + spawned"
    using sched_run_accounts [OF assms(2) new(1)] by blast+
  then show ?thesis unfolding new(2) sched_ok_def by simp
qed

text \<open>
  A processor that steals while it still has a task drops that task: it is neither running,
  ready nor blocked any more.
\<close>

theorem steal_drops_task:
  assumes "sched_ok s" "bt_get (running_on_ap s) cpu = Some old" "fst (steal_task_for_ap cpu now s) = Some t"
  shows "tid old \<in># tids s \<and> tid old \<notin># tids (snd (steal_task_for_ap cpu now s))"
proof -
  have "dropped_by_steal cpu s = {#tid old#}"
    using assms(2,3) by (auto simp: dropped_by_steal_def steal_task_for_ap_def split: option.splits)
  then have "tids s = add_mset (tid old) (tids (snd (steal_task_for_ap cpu now s)))"
    using steal_accounts [OF assms(1), of cpu now] by simp
  moreover have "count (tids s) (tid old) \<le> 1" using assms(1) by (simp add: sched_ok_def)
  ultimately show ?thesis by (simp add: not_in_iff)
qed

text \<open>
  The tick after the current task blocks chooses another task but asks for no context switch:
  the processor goes on executing the blocked task under the name of the chosen one.
\<close>

theorem no_switch_after_block:
  assumes "current s = Some t" "running_on_ap s = []" "pick_below 256 (ready s) = Some (u, r)"
  shows "fst (sched_tick now (block_current_task s)) = None \<and>
    current (snd (sched_tick now (block_current_task s))) = Some u"
  using assms by (simp add: block_current_task_def sched_tick_def pick_next_def Let_def)

section \<open>Witnesses\<close>

definition sample_task :: "nat \<Rightarrow> u8 \<Rightarrow> unit task" where
  "sample_task k p = \<lparr>tid = k, tname = ''t'', tstate = T_Ready, tcontext = (), priority = p, ticks = 0,
     sleep_until = None, wait_ev = None, stolen_at_ms = 0\<rparr>"

theorem no_task_lost_witness:
  "\<exists>s. sched_run (scheduler_new (sample_task 0 0)) {#7#} {#} {#} s \<and>
     tids s + {#} + {#} = add_mset 0 {#7#} \<and> (\<forall>k. count (tids s) k \<le> 1) \<and> queues_ok (ready s)"
proof -
  let ?s = "scheduler_new (sample_task 0 0)"
  have idle: "tstate (sample_task 0 0) = T_Ready" "tid (sample_task 0 0) = 0" "tid (sample_task 7 3) = 7"
    by (simp_all add: sample_task_def)
  have "tid (sample_task 7 3) \<notin># tids ?s" using scheduler_new_ok(2) [OF idle(1)] idle(2,3) by simp
  then have "tid (sample_task 7 3) \<notin># tids (snd (sched_tick 0 ?s))"
    using keeps_tids(1) [OF scheduler_new_ok(1) [OF idle(1)], of 0] by simp
  from run_spawn [OF run_tick [OF run_start] this]
  have run: "sched_run ?s {#7#} {#} {#} (spawn (sample_task 7 3) (snd (sched_tick 0 ?s)))" by (simp only: idle(3))
  with no_task_lost [OF idle(1) run] show ?thesis unfolding idle(2) by blast
qed

text \<open>Task 0 runs, tasks 1 and 2 wait behind it at the same priority, and processor 1 may hold task 9.\<close>

definition sample_queues :: "nat \<Rightarrow> unit task list list" where
  "sample_queues n = push_ready (sample_task 2 0) (push_ready (sample_task 1 0) (replicate n []))"

definition sample_sched :: "(u8 \<times> unit task) list \<Rightarrow> unit scheduler" where
  "sample_sched ap = \<lparr>running_on_ap = ap, current = Some (sample_task 0 0), ready = sample_queues 256,
     blocked = [], quantum = 10, switches = 0, total_ticks = 0\<rparr>"

lemma sample_queues_ok:
  assumes "n = 256"
  shows "queues_ok (sample_queues n)" "sample_queues n ! 0 = [sample_task 1 0, sample_task 2 0]"
    "mset (concat (sample_queues n)) = {#sample_task 2 0, sample_task 1 0#}" "length (sample_queues n) = 256"
    "\<And>p. 0 < p \<Longrightarrow> p < 256 \<Longrightarrow> sample_queues n ! p = []"
proof -
  have ready: "tstate (sample_task k p) = T_Ready" for k p by (simp add: sample_task_def)
  have r: "queues_ok (replicate n [] :: unit task list list)" using assms by (simp add: queues_ok_def)
  note one = push_ready_ok [OF r ready [of 1 0]]
  note two = push_ready_ok [OF one(1) ready [of 2 0]]
  show "queues_ok (sample_queues n)" using two(1) by (simp only: sample_queues_def)
  show "mset (concat (sample_queues n)) = {#sample_task 2 0, sample_task 1 0#}"
    by (simp only: sample_queues_def two(2) one(2) concat_replicate_trivial mset.simps)
  show "sample_queues n ! 0 = [sample_task 1 0, sample_task 2 0]" "length (sample_queues n) = 256"
    "\<And>p. 0 < p \<Longrightarrow> p < 256 \<Longrightarrow> sample_queues n ! p = []"
    using assms by (simp_all add: sample_queues_def push_ready_def sample_task_def)
qed

lemma sample_pick:
  "pick_below 256 (sample_queues 256) = Some (sample_task 1 0, (sample_queues 256)[0 := [sample_task 2 0]])"
  by (rule pick_below_top) (simp_all add: sample_queues_ok)

theorem round_robin_progress_witness:
  "current_tid (ticked 5 (10 + 10 * 1) (sample_sched [])) = Some 2"
  using round_robin_progress [where s = "sample_sched []" and c = "sample_task 0 0" and p = 0
      and pre = "[sample_task 1 0]" and t = "sample_task 2 0" and post = "[]" and now = 5]
    sample_queues_ok [OF refl]
  by (simp add: sample_sched_def sample_task_def DEFAULT_QUANTUM_def)

theorem no_switch_after_block_witness:
  "fst (sched_tick 5 (block_current_task (sample_sched []))) = None \<and>
   current (snd (sched_tick 5 (block_current_task (sample_sched [])))) = Some (sample_task 1 0)"
  by (rule no_switch_after_block) (simp_all add: sample_sched_def sample_pick)

theorem steal_drops_task_witness:
  "9 \<in># tids (sample_sched [(1, (sample_task 9 0)\<lparr>tstate := T_Running\<rparr>)]) \<and>
   9 \<notin># tids (snd (steal_task_for_ap 1 5 (sample_sched [(1, (sample_task 9 0)\<lparr>tstate := T_Running\<rparr>)])))"
proof -
  let ?old = "(sample_task 9 0)\<lparr>tstate := T_Running\<rparr>"
  let ?s = "sample_sched [(1, ?old)]"
  have tids: "tids ?s = {#0, 2, 1, 9#}"
    by (simp add: tids_def sample_sched_def sample_queues_ok held_tids_def del: mset_concat)
      (simp add: sample_task_def add_mset_commute)
  have ok: "sched_ok ?s"
    unfolding sched_ok_def tids by (simp add: sample_sched_def sample_queues_ok bt_sorted_def)
  have steal: "fst (steal_task_for_ap 1 5 ?s) = Some ((sample_task 1 0)\<lparr>tstate := T_Running, stolen_at_ms := 5\<rparr>)"
    by (simp add: steal_task_for_ap_def sample_sched_def sample_queues_ok sample_pick Let_def)
  have "bt_get (running_on_ap ?s) 1 = Some ?old" "tid ?old = 9"
    by (simp_all add: sample_sched_def sample_task_def)
  with steal_drops_task [OF ok _ steal] show ?thesis by metis
qed

end
