(* ===== verification/Wait_Queue.thy ===== *)
theory Wait_Queue
  imports Scheduler_Safety
begin

text \<open>
  The wait queue (\<open>src/src/wait/mod.rs\<close>) on top of the scheduler. The clock, the mailboxes and the
  sockets that wake-up conditions look at are the environment \<open>wait_env\<close>.
\<close>

datatype wake_condition = WC_Timer nat | WC_IpcMessage | WC_NetData nat | WC_Any

record wait_entry =
  we_tid :: nat
  we_condition :: wake_condition

record wait_env =
  uptime :: nat
  has_message :: "nat \<Rightarrow> bool"
  socket_has_data :: "nat \<Rightarrow> bool"

type_synonym 'c kernel = "wait_entry list \<times> 'c scheduler"

definition block_current :: "nat \<Rightarrow> wake_condition \<Rightarrow> 'c kernel \<Rightarrow> 'c kernel" where
  "block_current k cond ker =
     (fst ker @ [\<lparr>we_tid = k, we_condition = cond\<rparr>], block_task k (snd ker))"

fun should_wake :: "wait_env \<Rightarrow> wait_entry \<Rightarrow> bool" where
  "should_wake env \<lparr>we_tid = k, we_condition = WC_Timer t\<rparr> = (uptime env \<ge> t)"
| "should_wake env \<lparr>we_tid = k, we_condition = WC_Any\<rparr> = True"
| "should_wake env \<lparr>we_tid = k, we_condition = WC_IpcMessage\<rparr> = has_message env k"
| "should_wake env \<lparr>we_tid = k, we_condition = WC_NetData fd\<rparr> = socket_has_data env fd"

text \<open>The loop of \<open>tick_wakeups\<close>: remove and wake at the index, or go to the next one.\<close>

function wake_from :: "wait_env \<Rightarrow> nat \<Rightarrow> 'c kernel \<Rightarrow> 'c kernel" where
  "wake_from env i (wq, s) =
     (if i < length wq then
        if should_wake env (wq ! i)
        then wake_from env i (remove_at i wq, wake_task (we_tid (wq ! i)) s)
        else wake_from env (Suc i) (wq, s)
      else (wq, s))"
  by pat_completeness auto
termination
  by (relation "measure (\<lambda>(env, i, ker). length (fst ker) - i)") (auto simp: length_remove_at)

declare wake_from.simps [simp del]

definition tick_wakeups :: "wait_env \<Rightarrow> 'c kernel \<Rightarrow> 'c kernel" where
  "tick_wakeups env ker = wake_from env 0 ker"

fun wake_all :: "nat list \<Rightarrow> 'c scheduler \<Rightarrow> 'c scheduler" where
  "wake_all [] s = s"
| "wake_all (k # ks) s = wake_all ks (wake_task k s)"

definition wake_ipc :: "nat \<Rightarrow> 'c kernel \<Rightarrow> 'c kernel" where
  "wake_ipc k ker =
     (let hit = (\<lambda>e. we_tid e = k \<and> we_condition e = WC_IpcMessage)
      in (filter (\<lambda>e. \<not> hit e) (fst ker), wake_all (map we_tid (filter hit (fst ker))) (snd ker)))"

definition wake_net :: "nat \<Rightarrow> 'c kernel \<Rightarrow> 'c kernel" where
  "wake_net fd ker =
     (let hit = (\<lambda>e. we_condition e = WC_NetData fd)
      in (filter (\<lambda>e. \<not> hit e) (fst ker), wake_all (map we_tid (filter hit (fst ker))) (snd ker)))"

section \<open>What a wake-up scan does\<close>

lemma wake_from_spec:
  "wake_from env i (wq, s) =
    (take i wq @ filter (\<lambda>e. \<not> should_wake env e) (drop i wq),
     wake_all (map we_tid (filter (should_wake env) (drop i wq))) s)"
proof (induction env i "(wq, s)" arbitrary: wq s rule: wake_from.induct)
  case (1 env i wq s)
  show ?case
  proof (cases "i < length wq")
    case True
    then have split: "drop i wq = wq ! i # drop (Suc i) wq" by (simp add: Cons_nth_drop_Suc)
    show ?thesis
    proof (cases "should_wake env (wq ! i)")
      case wake: True
      have "take i (remove_at i wq) = take i wq" "drop i (remove_at i wq) = drop (Suc i) wq"
        using True by (simp_all add: remove_at_def)
      with 1(1) [OF True wake] True wake split show ?thesis by (subst wake_from.simps) simp
    next
      case False
      with 1(2) [OF True False] True split show ?thesis
        by (subst wake_from.simps) (simp add: take_Suc_conv_app_nth)
    qed
  qed (subst wake_from.simps, simp)
qed

text \<open>
  C30. The wake-up scan is exact: in one pass over the queue, with removals while it scans, it wakes the
  tasks whose condition holds, in queue order, and keeps exactly the other entries.
\<close>

theorem tick_wakeups_exact:
  "tick_wakeups env (wq, s) =
    (filter (\<lambda>e. \<not> should_wake env e) wq, wake_all (map we_tid (filter (should_wake env) wq)) s)"
  by (simp add: tick_wakeups_def wake_from_spec)

section \<open>Tasks nobody wakes\<close>

text \<open>A timer interrupt: the scheduler's tick and the wake-up scan.\<close>

definition timer_interrupt :: "wait_env \<Rightarrow> 'c kernel \<Rightarrow> 'c kernel" where
  "timer_interrupt env ker = (let (wq, s) = tick_wakeups env ker in (wq, snd (sched_tick (uptime env) s)))"

lemma wake_all_keeps: "same_tasks s (wake_all ks s)"
  by (induction ks arbitrary: s) (auto intro: same_tasks_trans [OF wake_task_keeps])

lemma finish_all_blocked: "bt_sorted (blocked s) \<Longrightarrow> bt_get (blocked s) k \<noteq> None \<Longrightarrow>
    bt_get (blocked (finish_all cpus s)) k \<noteq> None"
proof (induction cpus arbitrary: s)
  case (Cons cpu cpus)
  have "bt_sorted (blocked (snd (ap_task_finished cpu s))) \<and> bt_get (blocked (snd (ap_task_finished cpu s))) k \<noteq> None"
    using Cons.prems
    by (auto simp: ap_task_finished_def Let_def bt.get_ins bt_sorted_insert split: option.splits task_state.splits)
  with Cons.IH show ?case by simp
qed simp

lemma expire_blocked: "blocked (snd (expire c s)) = blocked s"
proof -
  let ?s = "s\<lparr>current := Some (c\<lparr>ticks := u64_add (ticks c) DEFAULT_QUANTUM, tstate := T_Ready\<rparr>)\<rparr>"
  show ?thesis
    by (cases rule: pick_next_cases [of ?s]) (simp_all add: expire_def Let_def enqueue_current_def)
qed

lemma tick_blocked_audit:
  defines "audited now s \<equiv> (let s1 = s\<lparr>total_ticks := u64_add (total_ticks s) 1\<rparr> in
    if total_ticks s1 mod 1000 = 0 \<and> running_on_ap s1 \<noteq> [] then ap_audit_lost_tasks_inner now s1 else s1)"
  shows "blocked (snd (sched_tick now s)) = blocked (audited now s)"
proof -
  have tick: "sched_tick now s = (case current (audited now s) of
      None \<Rightarrow> (case pick_next (audited now s) of
          (Some next, s2) \<Rightarrow> (None, s2\<lparr>current := Some next, quantum := DEFAULT_QUANTUM\<rparr>)
        | (None, s2) \<Rightarrow> (None, s2))
    | Some c \<Rightarrow> let q = (if quantum (audited now s) > 0 then quantum (audited now s) - 1 else quantum (audited now s))
        in if q = 0 then expire c ((audited now s)\<lparr>quantum := q\<rparr>) else (None, (audited now s)\<lparr>quantum := q\<rparr>))"
    unfolding sched_tick_def audited_def Let_def by (rule refl)
  show ?thesis
  proof (cases "current (audited now s)")
    case None
    then show ?thesis by (cases rule: pick_next_cases [of "audited now s"]) (simp_all add: tick)
  qed (simp add: tick Let_def expire_blocked)
qed

lemma tick_blocked:
  assumes "bt_sorted (blocked s)" "bt_get (blocked s) k \<noteq> None"
  shows "bt_get (blocked (snd (sched_tick now s))) k \<noteq> None"
proof -
  let ?s = "s\<lparr>total_ticks := u64_add (total_ticks s) 1\<rparr>"
  have "bt_get (blocked (ap_audit_lost_tasks_inner now ?s)) k \<noteq> None"
    unfolding ap_audit_lost_tasks_inner_def by (rule finish_all_blocked) (use assms in simp_all)
  then show ?thesis using assms(2) by (simp add: tick_blocked_audit Let_def)
qed

lemma wake_all_blocked:
  "k \<notin> set ks \<Longrightarrow> bt_sorted (blocked s) \<Longrightarrow> bt_get (blocked s) k \<noteq> None \<Longrightarrow> bt_get (blocked (wake_all ks s)) k \<noteq> None"
proof (induction ks arbitrary: s)
  case (Cons j ks)
  have "bt_sorted (blocked (wake_task j s)) \<and> bt_get (blocked (wake_task j s)) k \<noteq> None"
    using Cons.prems by (auto simp: wake_task_def bt.get_del bt_sorted_remove split: option.splits)
  with Cons show ?case by simp
qed simp

text \<open>A blocked task of a well-formed kernel with no wait entry but timers at \<open>d\<close>.\<close>

definition stranded :: "nat \<Rightarrow> nat \<Rightarrow> 'c kernel \<Rightarrow> bool" where
  "stranded d k ker \<longleftrightarrow> (\<forall>e \<in> set (fst ker). we_tid e = k \<longrightarrow> we_condition e = WC_Timer d) \<and>
     sched_ok (snd ker) \<and> bt_get (blocked (snd ker)) k \<noteq> None"

lemma timer_not_due: "we_condition e = WC_Timer d \<Longrightarrow> uptime env < d \<Longrightarrow> \<not> should_wake env e"
  by (cases e) simp

lemma timer_interrupt_stranded:
  assumes "stranded d k ker" "uptime env < d"
  shows "stranded d k (timer_interrupt env ker)"
proof -
  obtain wq s where ker: "ker = (wq, s)" by fastforce
  let ?ks = "map we_tid (filter (should_wake env) wq)" let ?s = "wake_all ?ks s"
  have s: "sched_ok s" "bt_get (blocked s) k \<noteq> None" "\<forall>e \<in> set wq. we_tid e = k \<longrightarrow> we_condition e = WC_Timer d"
    using assms by (simp_all add: ker stranded_def)
  have "sched_ok ?s" using wake_all_keeps [of s ?ks] s(1) by (simp only: same_tasks_def)
  moreover have "k \<notin> set ?ks" using s(3) timer_not_due assms(2) by fastforce
  then have "bt_get (blocked ?s) k \<noteq> None" using s by (intro wake_all_blocked) (auto simp: sched_ok_def)
  moreover have "bt_sorted (blocked ?s)" using \<open>sched_ok ?s\<close> by (simp add: sched_ok_def)
  ultimately have "sched_ok (snd (sched_tick (uptime env) ?s))" "bt_get (blocked (snd (sched_tick (uptime env) ?s))) k \<noteq> None"
    by (simp_all only: keeps_ok(1) tick_blocked not_False_eq_True)
  moreover have "timer_interrupt env ker = (filter (\<lambda>e. \<not> should_wake env e) wq, snd (sched_tick (uptime env) ?s))"
    by (simp add: timer_interrupt_def ker tick_wakeups_def wake_from_spec)
  ultimately show ?thesis using s(3) by (simp add: stranded_def)
qed

lemma stranded_not_running:
  assumes "stranded d k ker"
  shows "current_tid (snd ker) \<noteq> Some k"
proof
  assume "current_tid (snd ker) = Some k"
  then have "k \<in># running_tid (current (snd ker)) + image_mset tid (mset (concat (ready (snd ker))))"
    by (auto simp: current_tid_def)
  with assms not_blocked_twice [of "snd ker" k] show False by (simp add: stranded_def)
qed

lemma stranded_forever:
  assumes "stranded d k ker" "\<forall>env \<in> set envs. uptime env < d"
  shows "current_tid (snd (fold timer_interrupt envs ker)) \<noteq> Some k"
proof -
  have "stranded d k (fold timer_interrupt envs ker)"
    using assms by (induction envs arbitrary: ker) (simp_all add: timer_interrupt_stranded)
  then show ?thesis by (rule stranded_not_running)
qed

lemma block_current_task_stranded:
  assumes "sched_ok s" "current s = Some t" "\<forall>e \<in> set wq. we_tid e = tid t \<longrightarrow> we_condition e = WC_Timer d"
  shows "stranded d (tid t) (wq, block_current_task s)"
proof -
  have "sched_ok (block_current_task s)" using keeps_ok(3) [OF assms(1)] by (simp only: sys_sched_yield_def)
  moreover have "bt_sorted (blocked s)" using assms(1) by (simp add: sched_ok_def)
  then have "bt_get (blocked (block_current_task s)) (tid t) \<noteq> None"
    using assms(2) by (simp add: block_current_task_def bt.get_ins)
  ultimately show ?thesis using assms(3) by (simp add: stranded_def)
qed

text \<open>
  \<open>sched_yield\<close> never returns: the system call moves the calling task to the blocked map without a
  wait entry, and no sequence of timer interrupts makes it run again.
\<close>

theorem yield_never_returns:
  assumes "sched_ok s" "current s = Some t" "tid t \<notin> we_tid ` set wq"
  shows "current_tid (snd (fold timer_interrupt envs (wq, sys_sched_yield s))) \<noteq> Some (tid t)"
proof -
  let ?d = "Suc (sum_list (map uptime envs))"
  have "stranded ?d (tid t) (wq, sys_sched_yield s)"
    unfolding sys_sched_yield_def by (rule block_current_task_stranded) (use assms in force)+
  then show ?thesis by (rule stranded_forever) (auto simp: less_Suc_eq_le intro: member_le_sum_list)
qed

section \<open>Witnesses\<close>

lemma sample_sched_ok: "sched_ok (sample_sched [])"
proof -
  have tids: "tids (sample_sched []) = {#0, 2, 1#}"
    by (simp add: tids_def sample_sched_def sample_queues_ok held_tids_def del: mset_concat)
      (simp add: sample_task_def add_mset_commute)
  show ?thesis unfolding sched_ok_def tids by (simp add: sample_sched_def sample_queues_ok bt_sorted_def)
qed

lemma sample_sched_current: "current (sample_sched []) = Some (sample_task 0 0)" "tid (sample_task 0 0) = 0"
  by (simp_all add: sample_sched_def sample_task_def)

theorem yield_never_returns_witness:
  "current_tid (snd (fold timer_interrupt [\<lparr>uptime = 1, has_message = (\<lambda>_. True), socket_has_data = (\<lambda>_. True)\<rparr>]
     ([], sys_sched_yield (sample_sched [])))) \<noteq> Some 0"
proof -
  note cur = sample_sched_current
  show ?thesis
    using yield_never_returns [OF sample_sched_ok cur(1), of "[]" "[\<lparr>uptime = 1, has_message = (\<lambda>_. True),
        socket_has_data = (\<lambda>_. True)\<rparr>]"] by (simp only: cur(2) list.set image_empty empty_iff not_False_eq_True)
qed

end
