(* ===== verification/Pipe.thy ===== *)
theory Pipe
  imports Wait_Queue
begin

text \<open>
  Anonymous pipes (\<open>src/src/process/pipe/mod.rs\<close>).

  A \<open>PipeBuffer\<close> is a ring buffer with two lists of waiting tasks. A call that has to wait is in
  two parts, before and after \<open>block_current\<close>, because the registry's lock is released in
  between: \<open>pipe_write_begin\<close> and \<open>pipe_read_begin\<close> return the result, or that the task blocks
  and on which condition; \<open>pipe_write_resume\<close> and \<open>pipe_read_resume\<close> are the code after the
  task has been woken. Waking a task, raising \<open>SIGPIPE\<close> and notifying epoll are returned as
  effects, in the order of the calls; \<open>close_pipe\<close>, which takes the lock twice, is one step. The clock is the argument \<open>now\<close>. Buffer positions stay
  below the capacity, at most 1 MiB, so that their \<open>usize\<close> arithmetic does not overflow. Tracing
  is not modelled.
\<close>

section \<open>Errors, configuration, metrics\<close>

datatype pipe_error =
    WouldBlock | BrokenPipe | InvalidPipe | TooManyPipes | BufferFull | BufferEmpty | Interrupted
  | PE_Io | InvalidArgument | Unsupported

fun pipe_error_code :: "pipe_error \<Rightarrow> int" where
  "pipe_error_code WouldBlock = -1"
| "pipe_error_code BrokenPipe = -2"
| "pipe_error_code InvalidPipe = -3"
| "pipe_error_code TooManyPipes = -4"
| "pipe_error_code BufferFull = -5"
| "pipe_error_code BufferEmpty = -6"
| "pipe_error_code Interrupted = -7"
| "pipe_error_code PE_Io = -8"
| "pipe_error_code InvalidArgument = -9"
| "pipe_error_code Unsupported = -10"

definition DEFAULT_PIPE_BUF_SIZE :: nat where "DEFAULT_PIPE_BUF_SIZE = 65536"
definition MIN_PIPE_BUF_SIZE :: nat where "MIN_PIPE_BUF_SIZE = 4096"
definition MAX_PIPE_BUF_SIZE :: nat where "MAX_PIPE_BUF_SIZE = 1048576"
definition DEFAULT_MAX_PIPES :: nat where "DEFAULT_MAX_PIPES = 1024"
definition MAX_PIPES_LIMIT :: nat where "MAX_PIPES_LIMIT = 4096"

record pipe_config =
  default_buffer_size :: nat
  max_pipes :: nat
  pc_collect_metrics :: bool
  pc_debug_logging :: bool

definition default_pipe_config :: pipe_config where
  "default_pipe_config = \<lparr>default_buffer_size = DEFAULT_PIPE_BUF_SIZE, max_pipes = DEFAULT_MAX_PIPES,
     pc_collect_metrics = True, pc_debug_logging = False\<rparr>"

definition pipe_config_validate :: "pipe_config \<Rightarrow> (pipe_error, unit) result" where
  "pipe_config_validate c =
     (if default_buffer_size c < MIN_PIPE_BUF_SIZE \<or> default_buffer_size c > MAX_PIPE_BUF_SIZE then Err InvalidArgument
      else if max_pipes c = 0 \<or> max_pipes c > MAX_PIPES_LIMIT then Err InvalidArgument
      else Ok ())"

record pipe_metrics =
  pipes_created :: nat
  pipes_closed :: nat
  bytes_written :: nat
  bytes_read :: nat
  write_ops :: nat
  read_ops :: nat
  writer_blocks :: nat
  reader_blocks :: nat
  broken_pipes :: nat

definition zero_pipe_metrics :: pipe_metrics where
  "zero_pipe_metrics = \<lparr>pipes_created = 0, pipes_closed = 0, bytes_written = 0, bytes_read = 0, write_ops = 0,
     read_ops = 0, writer_blocks = 0, reader_blocks = 0, broken_pipes = 0\<rparr>"

section \<open>The buffer\<close>

record pipe_buffer =
  buf :: bytes
  head :: nat
  tail :: nat
  pcount :: nat
  capacity :: nat
  readers_waiting :: "nat list"
  writers_waiting :: "nat list"
  write_closed :: bool
  read_closed :: bool
  nonblock :: bool
  pipe_id :: nat

definition pipe_buffer_new :: "nat \<Rightarrow> nat \<Rightarrow> pipe_buffer" where
  "pipe_buffer_new i cap =
     (let c = min (max cap MIN_PIPE_BUF_SIZE) MAX_PIPE_BUF_SIZE
      in \<lparr>buf = replicate c 0, head = 0, tail = 0, pcount = 0, capacity = c, readers_waiting = [],
          writers_waiting = [], write_closed = False, read_closed = False, nonblock = False, pipe_id = i\<rparr>)"

definition pb_is_empty :: "pipe_buffer \<Rightarrow> bool" where
  "pb_is_empty p \<longleftrightarrow> pcount p = 0"

definition pb_is_full :: "pipe_buffer \<Rightarrow> bool" where
  "pb_is_full p \<longleftrightarrow> pcount p = capacity p"

definition available :: "pipe_buffer \<Rightarrow> nat" where
  "available p = pcount p"

definition space :: "pipe_buffer \<Rightarrow> nat" where
  "space p = capacity p - pcount p"

fun write_loop :: "bytes \<Rightarrow> pipe_buffer \<Rightarrow> pipe_buffer" where
  "write_loop [] p = p"
| "write_loop (x # xs) p =
     write_loop xs (p\<lparr>buf := (buf p)[tail p := x], tail := (tail p + 1) mod capacity p\<rparr>)"

definition write_bytes :: "bytes \<Rightarrow> pipe_buffer \<Rightarrow> nat \<times> pipe_buffer" where
  "write_bytes data p =
     (let n = min (length data) (space p); p1 = write_loop (take n data) p
      in (n, p1\<lparr>pcount := pcount p1 + n\<rparr>))"

text \<open>The caller's buffer is filled from index \<open>i\<close> on.\<close>

fun read_loop :: "nat \<Rightarrow> nat \<Rightarrow> bytes \<Rightarrow> pipe_buffer \<Rightarrow> bytes \<times> pipe_buffer" where
  "read_loop i 0 dst p = (dst, p)"
| "read_loop i (Suc n) dst p =
     read_loop (Suc i) n (dst[i := buf p ! head p]) (p\<lparr>head := (head p + 1) mod capacity p\<rparr>)"

definition read_bytes :: "bytes \<Rightarrow> pipe_buffer \<Rightarrow> nat \<times> bytes \<times> pipe_buffer" where
  "read_bytes dst p =
     (let n = min (length dst) (pcount p); (dst1, p1) = read_loop 0 n dst p
      in (n, dst1, p1\<lparr>pcount := pcount p1 - n\<rparr>))"

fun peek_loop :: "pipe_buffer \<Rightarrow> nat \<Rightarrow> nat \<Rightarrow> nat \<Rightarrow> bytes \<Rightarrow> bytes" where
  "peek_loop p pos i 0 dst = dst"
| "peek_loop p pos i (Suc n) dst = peek_loop p ((pos + 1) mod capacity p) (Suc i) n (dst[i := buf p ! pos])"

definition peek_bytes :: "bytes \<Rightarrow> pipe_buffer \<Rightarrow> nat \<times> bytes" where
  "peek_bytes dst p = (let n = min (length dst) (pcount p) in (n, peek_loop p (head p) 0 n dst))"

definition wake_readers :: "pipe_buffer \<Rightarrow> nat list \<times> pipe_buffer" where
  "wake_readers p = (readers_waiting p, p\<lparr>readers_waiting := []\<rparr>)"

definition wake_writers :: "pipe_buffer \<Rightarrow> nat list \<times> pipe_buffer" where
  "wake_writers p = (writers_waiting p, p\<lparr>writers_waiting := []\<rparr>)"

definition add_reader :: "nat \<Rightarrow> pipe_buffer \<Rightarrow> pipe_buffer" where
  "add_reader k p =
     (if k \<in> set (readers_waiting p) then p else p\<lparr>readers_waiting := readers_waiting p @ [k]\<rparr>)"

definition add_writer :: "nat \<Rightarrow> pipe_buffer \<Rightarrow> pipe_buffer" where
  "add_writer k p =
     (if k \<in> set (writers_waiting p) then p else p\<lparr>writers_waiting := writers_waiting p @ [k]\<rparr>)"

definition remove_reader :: "nat \<Rightarrow> pipe_buffer \<Rightarrow> bool \<times> pipe_buffer" where
  "remove_reader k p =
     (case position (\<lambda>t. t = k) (readers_waiting p) of
        Some i \<Rightarrow> (True, p\<lparr>readers_waiting := remove_at i (readers_waiting p)\<rparr>)
      | None \<Rightarrow> (False, p))"

definition remove_writer :: "nat \<Rightarrow> pipe_buffer \<Rightarrow> bool \<times> pipe_buffer" where
  "remove_writer k p =
     (case position (\<lambda>t. t = k) (writers_waiting p) of
        Some i \<Rightarrow> (True, p\<lparr>writers_waiting := remove_at i (writers_waiting p)\<rparr>)
      | None \<Rightarrow> (False, p))"

definition set_nonblock :: "bool \<Rightarrow> pipe_buffer \<Rightarrow> pipe_buffer" where
  "set_nonblock b p = p\<lparr>nonblock := b\<rparr>"

section \<open>The registry\<close>

record pipe_sys =
  pipes :: "(nat, pipe_buffer) btree_map"
  next_id :: nat
  pipe_cfg :: pipe_config
  pmetrics :: pipe_metrics

definition pipe_sys_boot :: pipe_sys where
  "pipe_sys_boot = \<lparr>pipes = [], next_id = 1, pipe_cfg = default_pipe_config, pmetrics = zero_pipe_metrics\<rparr>"

definition pipe_init :: "pipe_config \<Rightarrow> pipe_sys \<Rightarrow> (pipe_error, unit) result \<times> pipe_sys" where
  "pipe_init c g =
     (case pipe_config_validate c of Err e \<Rightarrow> (Err e, g) | Ok _ \<Rightarrow> (Ok (), g\<lparr>pipe_cfg := c\<rparr>))"

definition reset_pipe_metrics :: "pipe_sys \<Rightarrow> pipe_sys" where
  "reset_pipe_metrics g = g\<lparr>pmetrics := zero_pipe_metrics\<rparr>"

definition next_pipe_id :: "pipe_sys \<Rightarrow> nat \<times> pipe_sys" where
  "next_pipe_id g = (next_id g, g\<lparr>next_id := u64_add (next_id g) 1\<rparr>)"

text \<open>A counter is updated only if the configuration collects metrics.\<close>

definition metered :: "(pipe_metrics \<Rightarrow> pipe_metrics) \<Rightarrow> pipe_sys \<Rightarrow> pipe_sys" where
  "metered f g = (if pc_collect_metrics (pipe_cfg g) then g\<lparr>pmetrics := f (pmetrics g)\<rparr> else g)"

definition put_pipe :: "nat \<Rightarrow> pipe_buffer \<Rightarrow> pipe_sys \<Rightarrow> pipe_sys" where
  "put_pipe i p g = g\<lparr>pipes := bt_insert i p (pipes g)\<rparr>"

definition create_pipe :: "pipe_sys \<Rightarrow> (pipe_error, nat) result \<times> pipe_sys" where
  "create_pipe g =
     (let (i, g1) = next_pipe_id g
      in if length (pipes g1) \<ge> max_pipes (pipe_cfg g1) then (Err TooManyPipes, g1)
         else (Ok i, metered (\<lambda>m. m\<lparr>pipes_created := u64_add (pipes_created m) 1\<rparr>)
                (put_pipe i (pipe_buffer_new i (default_buffer_size (pipe_cfg g1))) g1)))"

datatype pipe_effect = FX_Wake nat | FX_Sigpipe nat | FX_Epoll nat

definition close_write_end :: "nat \<Rightarrow> pipe_sys \<Rightarrow> (pipe_error, unit) result \<times> pipe_effect list \<times> pipe_sys" where
  "close_write_end i g =
     (case bt_get (pipes g) i of
        None \<Rightarrow> (Err InvalidPipe, [], g)
      | Some p \<Rightarrow>
          if write_closed p then (Ok (), [], g)
          else let (readers, p1) = wake_readers (p\<lparr>write_closed := True\<rparr>)
               in (Ok (), map FX_Wake readers, put_pipe i p1 g))"

definition close_read_end :: "nat \<Rightarrow> pipe_sys \<Rightarrow> (pipe_error, unit) result \<times> pipe_effect list \<times> pipe_sys" where
  "close_read_end i g =
     (case bt_get (pipes g) i of
        None \<Rightarrow> (Err InvalidPipe, [], g)
      | Some p \<Rightarrow>
          if read_closed p then (Ok (), [], g)
          else let (writers, p1) = wake_writers (p\<lparr>read_closed := True\<rparr>)
               in (Ok (), map FX_Wake writers, put_pipe i p1 g))"

definition close_pipe :: "nat \<Rightarrow> pipe_sys \<Rightarrow> (pipe_error, unit) result \<times> pipe_effect list \<times> pipe_sys" where
  "close_pipe i g =
     (case bt_get (pipes g) i of
        None \<Rightarrow> (Err InvalidPipe, [], g)
      | Some p \<Rightarrow>
          let (readers, p1) = wake_readers p; (writers, p2) = wake_writers p1; g1 = put_pipe i p2 g
          in (Ok (), map FX_Wake readers @ map FX_Wake writers,
              metered (\<lambda>m. m\<lparr>pipes_closed := u64_add (pipes_closed m) 1\<rparr>)
                (g1\<lparr>pipes := bt_remove i (pipes g1)\<rparr>)))"

section \<open>Reading and writing\<close>

datatype 'a call_outcome = Returned (call_result: "(pipe_error, 'a) result") | Blocks wake_condition

text \<open>The deadline: a timeout of zero stands for no deadline.\<close>

definition pipe_deadline :: "nat \<Rightarrow> nat option \<Rightarrow> nat option" where
  "pipe_deadline now t = map_option (\<lambda>ms. if ms = 0 then U64_MAX else u64_add now ms) t"

definition block_condition :: "nat option \<Rightarrow> wake_condition" where
  "block_condition d = (case d of Some t \<Rightarrow> WC_Timer t | None \<Rightarrow> WC_Any)"

definition write_now ::
  "nat \<Rightarrow> bytes \<Rightarrow> pipe_buffer \<Rightarrow> pipe_sys \<Rightarrow> nat call_outcome \<times> pipe_effect list \<times> pipe_sys" where
  "write_now i data p g =
     (let (n, p1) = write_bytes data p; (readers, p2) = wake_readers p1
      in (Returned (Ok n), map FX_Wake readers @ [FX_Epoll i],
          metered (\<lambda>m. m\<lparr>bytes_written := u64_add (bytes_written m) n, write_ops := u64_add (write_ops m) 1\<rparr>)
            (put_pipe i p2 g)))"

definition pipe_write_begin ::
  "nat \<Rightarrow> nat \<Rightarrow> nat \<Rightarrow> bytes \<Rightarrow> bool \<Rightarrow> nat option \<Rightarrow> pipe_sys \<Rightarrow> nat call_outcome \<times> pipe_effect list \<times> pipe_sys" where
  "pipe_write_begin now i k data nonblocking timeout_ms g =
     (if data = [] then (Returned (Err InvalidArgument), [], g)
      else case bt_get (pipes g) i of
        None \<Rightarrow> (Returned (Err InvalidPipe), [], g)
      | Some p \<Rightarrow>
          if read_closed p then
            (Returned (Err BrokenPipe), [FX_Sigpipe k],
             metered (\<lambda>m. m\<lparr>broken_pipes := u64_add (broken_pipes m) 1\<rparr>) g)
          else if write_closed p then (Returned (Err BrokenPipe), [], g)
          else if nonblocking \<and> pb_is_full p then (Returned (Err WouldBlock), [], g)
          else if \<not> pb_is_full p then write_now i data p g
          else (Blocks (block_condition (pipe_deadline now timeout_ms)), [],
                put_pipe i (add_writer k p)
                  (metered (\<lambda>m. m\<lparr>writer_blocks := u64_add (writer_blocks m) 1\<rparr>) g)))"

definition pipe_write_resume ::
  "nat \<Rightarrow> nat \<Rightarrow> bytes \<Rightarrow> pipe_sys \<Rightarrow> nat call_outcome \<times> pipe_effect list \<times> pipe_sys" where
  "pipe_write_resume i k data g =
     (case bt_get (pipes g) i of
        None \<Rightarrow> (Returned (Err InvalidPipe), [], g)
      | Some p \<Rightarrow>
          let (was_removed, p1) = remove_writer k p; g1 = put_pipe i p1 g
          in if read_closed p1 then (Returned (Err BrokenPipe), [FX_Sigpipe k], g1)
             else if write_closed p1 then (Returned (Err BrokenPipe), [], g1)
             else if \<not> was_removed then
               if \<not> pb_is_full p1 then write_now i data p1 g1 else (Returned (Err WouldBlock), [], g1)
             else (Returned (Err WouldBlock), [], g1))"

text \<open>A read also returns the caller's buffer.\<close>

definition read_now ::
  "nat \<Rightarrow> bytes \<Rightarrow> pipe_buffer \<Rightarrow> pipe_sys \<Rightarrow> (nat call_outcome \<times> bytes) \<times> pipe_effect list \<times> pipe_sys" where
  "read_now i dst p g =
     (let (n, dst1, p1) = read_bytes dst p; (writers, p2) = wake_writers p1
      in ((Returned (Ok n), dst1), map FX_Wake writers @ [FX_Epoll i],
          metered (\<lambda>m. m\<lparr>bytes_read := u64_add (bytes_read m) n, read_ops := u64_add (read_ops m) 1\<rparr>)
            (put_pipe i p2 g)))"

definition pipe_read_begin ::
  "nat \<Rightarrow> nat \<Rightarrow> nat \<Rightarrow> bytes \<Rightarrow> bool \<Rightarrow> nat option \<Rightarrow> pipe_sys \<Rightarrow>
     (nat call_outcome \<times> bytes) \<times> pipe_effect list \<times> pipe_sys" where
  "pipe_read_begin now i k dst nonblocking timeout_ms g =
     (if dst = [] then ((Returned (Err InvalidArgument), dst), [], g)
      else case bt_get (pipes g) i of
        None \<Rightarrow> ((Returned (Err InvalidPipe), dst), [], g)
      | Some p \<Rightarrow>
          if write_closed p \<and> pb_is_empty p then ((Returned (Ok 0), dst), [], g)
          else if read_closed p then ((Returned (Err BrokenPipe), dst), [], g)
          else if nonblocking \<and> pb_is_empty p then ((Returned (Err WouldBlock), dst), [], g)
          else if \<not> pb_is_empty p then read_now i dst p g
          else ((Blocks (block_condition (pipe_deadline now timeout_ms)), dst), [],
                put_pipe i (add_reader k p)
                  (metered (\<lambda>m. m\<lparr>reader_blocks := u64_add (reader_blocks m) 1\<rparr>) g)))"

definition pipe_read_resume ::
  "nat \<Rightarrow> nat \<Rightarrow> bytes \<Rightarrow> pipe_sys \<Rightarrow> (nat call_outcome \<times> bytes) \<times> pipe_effect list \<times> pipe_sys" where
  "pipe_read_resume i k dst g =
     (case bt_get (pipes g) i of
        None \<Rightarrow> ((Returned (Err InvalidPipe), dst), [], g)
      | Some p \<Rightarrow>
          let (was_removed, p1) = remove_reader k p; g1 = put_pipe i p1 g
          in if read_closed p1 then ((Returned (Err BrokenPipe), dst), [], g1)
             else if write_closed p1 \<and> pb_is_empty p1 then ((Returned (Ok 0), dst), [], g1)
             else if \<not> was_removed then
               if \<not> pb_is_empty p1 then read_now i dst p1 g1 else ((Returned (Err WouldBlock), dst), [], g1)
             else ((Returned (Err WouldBlock), dst), [], g1))"

section \<open>Queries and helpers\<close>

definition pipe_query :: "(pipe_buffer \<Rightarrow> 'a) \<Rightarrow> 'a \<Rightarrow> nat \<Rightarrow> pipe_sys \<Rightarrow> 'a" where
  "pipe_query f d i g = (case bt_get (pipes g) i of Some p \<Rightarrow> f p | None \<Rightarrow> d)"

definition pipe_has_data :: "nat \<Rightarrow> pipe_sys \<Rightarrow> bool" where
  "pipe_has_data = pipe_query (\<lambda>p. \<not> pb_is_empty p) False"

definition pipe_has_space :: "nat \<Rightarrow> pipe_sys \<Rightarrow> bool" where
  "pipe_has_space = pipe_query (\<lambda>p. \<not> pb_is_full p) False"

definition pipe_available :: "nat \<Rightarrow> pipe_sys \<Rightarrow> nat" where
  "pipe_available = pipe_query available 0"

definition pipe_space :: "nat \<Rightarrow> pipe_sys \<Rightarrow> nat" where
  "pipe_space = pipe_query space 0"

definition pipe_set_nonblock :: "nat \<Rightarrow> bool \<Rightarrow> pipe_sys \<Rightarrow> (pipe_error, unit) result \<times> pipe_sys" where
  "pipe_set_nonblock i b g =
     (case bt_get (pipes g) i of
        None \<Rightarrow> (Err InvalidPipe, g)
      | Some p \<Rightarrow> (Ok (), put_pipe i (set_nonblock b p) g))"

definition pipe_is_nonblock :: "nat \<Rightarrow> pipe_sys \<Rightarrow> bool" where
  "pipe_is_nonblock = pipe_query nonblock False"

definition pipe_buffer_size :: "nat \<Rightarrow> pipe_sys \<Rightarrow> nat" where
  "pipe_buffer_size = pipe_query capacity 0"

definition pipe_write_timeout where
  "pipe_write_timeout now i k data ms = pipe_write_begin now i k data False (Some ms)"

definition pipe_read_timeout where
  "pipe_read_timeout now i k dst ms = pipe_read_begin now i k dst False (Some ms)"

definition pipe_write_nonblock where
  "pipe_write_nonblock now i k data = pipe_write_begin now i k data True None"

definition pipe_read_nonblock where
  "pipe_read_nonblock now i k dst = pipe_read_begin now i k dst True None"

end
