(* ===== verification/Pipe_Refine.thy ===== *)
theory Pipe_Refine
  imports Pipe
begin

text \<open>
  A pipe is a bounded first-in first-out byte queue. The locale \<open>bounded_fifo\<close> is that contract,
  with its consequence for any sequence of operations; the ring buffer of \<open>Pipe\<close> is an
  interpretation of it. On top of the refinement, every sequence of calls of the registry keeps
  the buffers well-formed and each pipe's stream in order.
\<close>

section \<open>The contract\<close>

datatype 'b fifo_op = Put "'b list" | Get "'b list"

text \<open>Running operations, with what was accepted and what was delivered.\<close>

fun fifo_run :: "('b list \<Rightarrow> 's \<Rightarrow> nat \<times> 's) \<Rightarrow> ('b list \<Rightarrow> 's \<Rightarrow> nat \<times> 'b list \<times> 's) \<Rightarrow> 'b fifo_op list \<Rightarrow> 's \<Rightarrow>
    'b list \<times> 'b list \<times> 's" where
  "fifo_run put get [] s = ([], [], s)"
| "fifo_run put get (Put xs # ops) s =
     (let (n, s1) = put xs s; (sent, got, s2) = fifo_run put get ops s1 in (take n xs @ sent, got, s2))"
| "fifo_run put get (Get d # ops) s =
     (let (n, d1, s1) = get d s; (sent, got, s2) = fifo_run put get ops s1 in (sent, take n d1 @ got, s2))"

locale bounded_fifo =
  fixes put :: "'b list \<Rightarrow> 's \<Rightarrow> nat \<times> 's"
    and get :: "'b list \<Rightarrow> 's \<Rightarrow> nat \<times> 'b list \<times> 's"
    and queue :: "'s \<Rightarrow> 'b list"
    and cap :: "'s \<Rightarrow> nat"
    and ok :: "'s \<Rightarrow> bool"
  assumes bound: "ok s \<Longrightarrow> length (queue s) \<le> cap s"
    and put_ok: "ok s \<Longrightarrow> ok (snd (put xs s))"
    and put_cap: "ok s \<Longrightarrow> cap (snd (put xs s)) = cap s"
    and put_count: "ok s \<Longrightarrow> fst (put xs s) = min (length xs) (cap s - length (queue s))"
    and put_queue: "ok s \<Longrightarrow> queue (snd (put xs s)) = queue s @ take (fst (put xs s)) xs"
    and get_ok: "ok s \<Longrightarrow> ok (snd (snd (get d s)))"
    and get_cap: "ok s \<Longrightarrow> cap (snd (snd (get d s))) = cap s"
    and get_count: "ok s \<Longrightarrow> fst (get d s) = min (length d) (length (queue s))"
    and get_out: "ok s \<Longrightarrow> fst (snd (get d s)) = take (fst (get d s)) (queue s) @ drop (fst (get d s)) d"
    and get_queue: "ok s \<Longrightarrow> queue (snd (snd (get d s))) = drop (fst (get d s)) (queue s)"
begin

lemma delivered: "ok s \<Longrightarrow> take (fst (get d s)) (fst (snd (get d s))) = take (fst (get d s)) (queue s)"
  by (simp add: get_out get_count)

lemma run_fifo:
  "ok s \<Longrightarrow> fifo_run put get ops s = (sent, got, s') \<Longrightarrow>
    ok s' \<and> cap s' = cap s \<and> queue s @ sent = got @ queue s'"
proof (induction ops arbitrary: s sent got s')
  case (Cons x ops)
  show ?case
  proof (cases x)
    case (Put xs)
    obtain sent1 got1 s1 where rest: "fifo_run put get ops (snd (put xs s)) = (sent1, got1, s1)"
      by (metis prod_cases3)
    with Cons.prems(2) Put have "sent = take (fst (put xs s)) xs @ sent1" "got = got1" "s' = s1"
      by (auto simp: split_def Let_def)
    with Cons.IH [OF put_ok rest] Cons.prems(1) put_queue put_cap show ?thesis by simp
  next
    case (Get d)
    obtain sent1 got1 s1 where rest: "fifo_run put get ops (snd (snd (get d s))) = (sent1, got1, s1)"
      by (metis prod_cases3)
    with Cons.prems(2) Get have eqs: "sent = sent1" "got = take (fst (get d s)) (queue s) @ got1" "s' = s1"
      using delivered [OF Cons.prems(1)] by (auto simp: split_def Let_def)
    have "queue s @ sent = take (fst (get d s)) (queue s) @ (drop (fst (get d s)) (queue s) @ sent1)"
      by (simp add: eqs)
    with Cons.IH [OF get_ok rest] Cons.prems(1) get_queue [of s d] get_cap [of s d] eqs show ?thesis by simp
  qed
qed simp

lemma put_get:
  assumes "ok s" "length (queue s) + length xs \<le> cap s" "length d = length (queue s) + length xs"
  shows "fst (snd (get d (snd (put xs s)))) = queue s @ xs"
  using assms by (simp add: get_out get_count put_ok put_queue put_count)

end

section \<open>The ring buffer implements it\<close>

definition pipe_wf :: "pipe_buffer \<Rightarrow> bool" where
  "pipe_wf p \<longleftrightarrow> 0 < capacity p \<and> length (buf p) = capacity p \<and> head p < capacity p \<and> pcount p \<le> capacity p \<and>
     tail p = (head p + pcount p) mod capacity p"

text \<open>The bytes of the ring from the read position on.\<close>

definition ring :: "bytes \<Rightarrow> nat \<Rightarrow> nat \<Rightarrow> bytes" where
  "ring b h n = map (\<lambda>j. b ! ((h + j) mod length b)) [0..<n]"

definition contents :: "pipe_buffer \<Rightarrow> bytes" where
  "contents p = ring (buf p) (head p) (pcount p)"

lemma length_ring [simp]: "length (ring b h n) = n"
  by (simp add: ring_def)

lemma length_contents [simp]: "length (contents p) = pcount p"
  by (simp add: contents_def)

lemma ring_Suc_front: "ring b h (Suc n) = b ! (h mod length b) # ring b ((h + 1) mod length b) n"
proof -
  have "(h + Suc j) mod length b = ((h + 1) mod length b + j) mod length b" for j
    by (simp add: mod_simps)
  then show ?thesis unfolding ring_def upt_conv_Cons [OF zero_less_Suc] map_Suc_upt [symmetric]
    by (simp add: o_def)
qed

lemma ring_index_inj:
  assumes "n < (c::nat)" "j < n"
  shows "(h + j) mod c \<noteq> (h + n) mod c"
proof
  assume "(h + j) mod c = (h + n) mod c"
  then have "c dvd (h + n) - (h + j)" using assms by (intro mod_eq_dvd_iff_nat [THEN iffD1]) simp_all
  with assms show False by (auto dest: dvd_imp_le)
qed

lemma ring_write_back:
  assumes "n < length b"
  shows "ring (b[(h + n) mod length b := x]) h (Suc n) = ring b h n @ [x]"
proof -
  have "ring (b[(h + n) mod length b := x]) h n = ring b h n"
    using ring_index_inj [OF assms, of _ h] unfolding ring_def
    by (intro map_cong refl) (simp add: nth_list_update_neq [OF not_sym])
  moreover have "0 < length b" using assms by linarith
  ultimately show ?thesis by (simp add: ring_def)
qed

text \<open>The loops: \<open>n\<close> bytes are in the ring so far.\<close>

lemma write_loop_sel [simp]:
  "head (write_loop xs p) = head p" "pcount (write_loop xs p) = pcount p" "capacity (write_loop xs p) = capacity p"
  "length (buf (write_loop xs p)) = length (buf p)" "readers_waiting (write_loop xs p) = readers_waiting p"
  "writers_waiting (write_loop xs p) = writers_waiting p" "write_closed (write_loop xs p) = write_closed p"
  "read_closed (write_loop xs p) = read_closed p" "nonblock (write_loop xs p) = nonblock p"
  "pipe_id (write_loop xs p) = pipe_id p"
  by (induction xs arbitrary: p) simp_all

lemma write_loop_ring:
  assumes "length (buf p) = capacity p" "n + length xs \<le> capacity p" "tail p = (head p + n) mod capacity p"
  shows "ring (buf (write_loop xs p)) (head p) (n + length xs) = ring (buf p) (head p) n @ xs \<and>
    tail (write_loop xs p) = (head p + (n + length xs)) mod capacity p"
  using assms
proof (induction xs arbitrary: p n)
  case (Cons x xs)
  let ?p = "p\<lparr>buf := (buf p)[tail p := x], tail := (tail p + 1) mod capacity p\<rparr>"
  have "ring (buf ?p) (head p) (Suc n) = ring (buf p) (head p) n @ [x]"
    using Cons.prems ring_write_back [of n "buf p" "head p" x] by simp
  moreover have "tail ?p = (head ?p + Suc n) mod capacity ?p" using Cons.prems by (simp add: mod_simps)
  ultimately show ?case using Cons.IH [of ?p "Suc n"] Cons.prems by simp
qed simp

lemma write_bytes_spec:
  assumes "pipe_wf p"
  shows "pipe_wf (snd (write_bytes xs p)) \<and>
    fst (write_bytes xs p) = min (length xs) (capacity p - pcount p) \<and>
    contents (snd (write_bytes xs p)) = contents p @ take (fst (write_bytes xs p)) xs"
proof -
  let ?n = "min (length xs) (capacity p - pcount p)"
  have "pcount p + ?n \<le> capacity p" using assms by (auto simp: pipe_wf_def)
  then show ?thesis
    using write_loop_ring [of p "pcount p" "take ?n xs"] assms
    by (simp add: write_bytes_def Let_def space_def pipe_wf_def contents_def)
qed

lemma read_loop_spec:
  assumes "length (buf p) = capacity p" "head p < capacity p" "i + n \<le> length dst"
  shows "fst (read_loop i n dst p) = take i dst @ ring (buf p) (head p) n @ drop (i + n) dst \<and>
    snd (read_loop i n dst p) = p\<lparr>head := (head p + n) mod capacity p\<rparr>"
  using assms
proof (induction n arbitrary: i dst p)
  case (Suc n)
  let ?p = "p\<lparr>head := (head p + 1) mod capacity p\<rparr>" and ?d = "dst[i := buf p ! head p]"
  have "fst (read_loop (Suc i) n ?d ?p) = take (Suc i) ?d @ ring (buf p) (head ?p) n @ drop (Suc i + n) ?d"
    "snd (read_loop (Suc i) n ?d ?p) = ?p\<lparr>head := (head ?p + n) mod capacity p\<rparr>"
    using Suc.IH [where p = ?p and dst = ?d and i = "Suc i"] Suc.prems by simp_all
  moreover have "take (Suc i) ?d = take i dst @ [buf p ! head p]" "drop (Suc i + n) ?d = drop (Suc i + n) dst"
    using Suc.prems by (simp_all add: take_Suc_conv_app_nth)
  moreover have "ring (buf p) (head p) (Suc n) = buf p ! head p # ring (buf p) (head ?p) n"
    using Suc.prems by (simp add: ring_Suc_front)
  ultimately show ?case by (simp add: mod_simps)
qed (simp add: ring_def)

lemma ring_drop: "n \<le> m \<Longrightarrow> drop n (ring b h m) = ring b ((h + n) mod length b) (m - n)"
  by (rule nth_equalityI) (auto simp: ring_def mod_simps add.assoc)

lemma ring_take: "n \<le> m \<Longrightarrow> take n (ring b h m) = ring b h n"
  by (simp add: ring_def take_map)

lemma read_bytes_spec:
  assumes "pipe_wf p"
  shows "pipe_wf (snd (snd (read_bytes d p))) \<and>
    fst (read_bytes d p) = min (length d) (pcount p) \<and>
    fst (snd (read_bytes d p)) = take (fst (read_bytes d p)) (contents p) @ drop (fst (read_bytes d p)) d \<and>
    contents (snd (snd (read_bytes d p))) = drop (fst (read_bytes d p)) (contents p) \<and>
    capacity (snd (snd (read_bytes d p))) = capacity p"
proof -
  let ?n = "min (length d) (pcount p)"
  have "fst (read_loop 0 ?n d p) = ring (buf p) (head p) ?n @ drop ?n d"
    "snd (read_loop 0 ?n d p) = p\<lparr>head := (head p + ?n) mod capacity p\<rparr>"
    using read_loop_spec [of p 0 ?n d] assms by (simp_all add: pipe_wf_def)
  moreover have "(head p + pcount p) mod capacity p = ((head p + ?n) mod capacity p + (pcount p - ?n)) mod capacity p"
    by (subst mod_add_left_eq) simp
  ultimately show ?thesis
    using assms by (auto simp: read_bytes_def Let_def split_def pipe_wf_def contents_def ring_drop ring_take mod_simps)
qed

interpretation ring: bounded_fifo write_bytes read_bytes contents capacity pipe_wf
proof
  fix s xs d
  assume wf: "pipe_wf s"
  show "length (contents s) \<le> capacity s" using wf by (simp add: pipe_wf_def)
  show "capacity (snd (write_bytes xs s)) = capacity s" by (simp add: write_bytes_def Let_def)
qed (use write_bytes_spec read_bytes_spec in \<open>simp_all\<close>)

lemma peek_loop_read: "peek_loop p pos i n dst = fst (read_loop i n dst (p\<lparr>head := pos\<rparr>))"
  by (induction n arbitrary: pos i dst) simp_all

text \<open>
  The ring buffer is a bounded byte queue: along any sequence of writes and reads from a
  well-formed buffer, what has been delivered followed by what is still in the buffer is what
  was in the buffer followed by what has been accepted, whatever the wrap-arounds, and the buffer
  never holds more than its capacity.
\<close>

theorem pipe_refines_fifo:
  assumes "pipe_wf p" "fifo_run write_bytes read_bytes ops p = (sent, got, p')"
  shows "contents p @ sent = got @ contents p' \<and> pipe_wf p' \<and> length (contents p') \<le> capacity p"
  using ring.run_fifo [OF assms] ring.bound by metis

text \<open>A two-byte ring that wraps around.\<close>

definition small_pipe :: pipe_buffer where
  "small_pipe = (pipe_buffer_new 1 0)\<lparr>buf := [0, 0], capacity := 2\<rparr>"

lemma small_pipe_wf: "pipe_wf small_pipe"
  by (simp add: small_pipe_def pipe_buffer_new_def Let_def pipe_wf_def)

theorem pipe_refines_fifo_witness:
  "pipe_wf small_pipe \<and>
    (\<exists>p'. fifo_run write_bytes read_bytes [Put [1, 2, 3], Get [0], Put [4], Get [0, 0, 0]] small_pipe
        = ([1, 2, 4], [1, 2, 4], p') \<and> contents small_pipe @ [1, 2, 4] = [1, 2, 4] @ contents p')"
proof -
  let ?ops = "[Put [1, 2, 3], Get [0], Put [4], Get [0, 0, 0]] :: u8 fifo_op list"
  obtain p' where run: "fifo_run write_bytes read_bytes ?ops small_pipe = ([1, 2, 4], [1, 2, 4], p')"
    by (simp add: small_pipe_def pipe_buffer_new_def Let_def write_bytes_def read_bytes_def space_def
        numeral_2_eq_2 numeral_3_eq_3)
  with pipe_refines_fifo [OF small_pipe_wf run] small_pipe_wf show ?thesis by blast
qed

section \<open>The registry under any sequence of calls\<close>

text \<open>The calls of the module; a blocking call is two of them, and other calls may come in between.\<close>

datatype pipe_call =
    C_Init pipe_config | C_Create | C_CloseWrite nat | C_CloseRead nat | C_Close nat | C_SetNonblock nat bool
  | C_Write nat nat nat bytes bool "nat option" | C_WriteResume nat nat bytes
  | C_Read nat nat nat bytes bool "nat option" | C_ReadResume nat nat bytes

fun accepted :: "bytes \<Rightarrow> nat call_outcome \<Rightarrow> bytes" where
  "accepted xs (Returned (Inr n)) = take n xs"
| "accepted xs _ = []"

text \<open>A call's effect on the registry, with the bytes it puts into and takes from pipe \<open>i\<close>.\<close>

fun pipe_exec :: "nat \<Rightarrow> pipe_call \<Rightarrow> pipe_sys \<Rightarrow> bytes \<times> bytes \<times> pipe_sys" where
  "pipe_exec i (C_Init c) g = ([], [], snd (pipe_init c g))"
| "pipe_exec i C_Create g = ([], [], snd (create_pipe g))"
| "pipe_exec i (C_CloseWrite j) g = ([], [], snd (snd (close_write_end j g)))"
| "pipe_exec i (C_CloseRead j) g = ([], [], snd (snd (close_read_end j g)))"
| "pipe_exec i (C_Close j) g = ([], [], snd (snd (close_pipe j g)))"
| "pipe_exec i (C_SetNonblock j b) g = ([], [], snd (pipe_set_nonblock j b g))"
| "pipe_exec i (C_Write now j k xs nb t) g =
     (let (r, fx, g1) = pipe_write_begin now j k xs nb t g in (if i = j then accepted xs r else [], [], g1))"
| "pipe_exec i (C_WriteResume j k xs) g =
     (let (r, fx, g1) = pipe_write_resume j k xs g in (if i = j then accepted xs r else [], [], g1))"
| "pipe_exec i (C_Read now j k d nb t) g =
     (let ((r, d1), fx, g1) = pipe_read_begin now j k d nb t g in ([], if i = j then accepted d1 r else [], g1))"
| "pipe_exec i (C_ReadResume j k d) g =
     (let ((r, d1), fx, g1) = pipe_read_resume j k d g in ([], if i = j then accepted d1 r else [], g1))"

fun pipe_trace :: "nat \<Rightarrow> pipe_call list \<Rightarrow> pipe_sys \<Rightarrow> bytes \<times> bytes \<times> pipe_sys" where
  "pipe_trace i [] g = ([], [], g)"
| "pipe_trace i (c # cs) g =
     (let (put, got, g1) = pipe_exec i c g; (puts, gots, g2) = pipe_trace i cs g1 in (put @ puts, got @ gots, g2))"

text \<open>Well-formed registries: sorted, well-formed buffers, and no pipe with an identifier not handed out yet.\<close>

definition registry_ok :: "pipe_sys \<Rightarrow> bool" where
  "registry_ok g \<longleftrightarrow> bt_sorted (pipes g) \<and>
     (\<forall>i p. bt_get (pipes g) i = Some p \<longrightarrow> pipe_wf p \<and> i < next_id g)"

text \<open>
  What one call does to the registry: it replaces the buffer of pipe \<open>j\<close> by \<open>p\<close>, or changes only the
  configuration and the metrics.
\<close>

definition at_pipe :: "nat \<Rightarrow> pipe_buffer \<Rightarrow> pipe_sys \<Rightarrow> pipe_sys \<Rightarrow> bool" where
  "at_pipe j p g g' \<longleftrightarrow> pipes g' = bt_insert j p (pipes g) \<and> next_id g' = next_id g"

definition no_pipe_change :: "pipe_sys \<Rightarrow> pipe_sys \<Rightarrow> bool" where
  "no_pipe_change g g' \<longleftrightarrow> pipes g' = pipes g \<and> next_id g' = next_id g"

lemma metered_sel [simp]:
  "pipes (metered f g) = pipes g" "next_id (metered f g) = next_id g" "pipe_cfg (metered f g) = pipe_cfg g"
  by (simp_all add: metered_def)

lemma put_pipe_sel [simp]:
  "pipes (put_pipe i p g) = bt_insert i p (pipes g)" "next_id (put_pipe i p g) = next_id g"
  "pipe_cfg (put_pipe i p g) = pipe_cfg g"
  by (simp_all add: put_pipe_def)

lemma pipe_new_wf: "pipe_wf (pipe_buffer_new i c) \<and> contents (pipe_buffer_new i c) = []"
  by (auto simp: pipe_wf_def pipe_buffer_new_def Let_def contents_def ring_def MIN_PIPE_BUF_SIZE_def MAX_PIPE_BUF_SIZE_def)

text \<open>The flags and the wait lists have no part in the queue.\<close>

lemma wf_cong: "buf p = buf q \<Longrightarrow> head p = head q \<Longrightarrow> tail p = tail q \<Longrightarrow> pcount p = pcount q \<Longrightarrow>
    capacity p = capacity q \<Longrightarrow> pipe_wf p = pipe_wf q \<and> contents p = contents q"
  by (simp add: pipe_wf_def contents_def)

definition waiters_only :: "pipe_buffer \<Rightarrow> pipe_buffer \<Rightarrow> bool" where
  "waiters_only p q \<longleftrightarrow> buf q = buf p \<and> head q = head p \<and> tail q = tail p \<and> pcount q = pcount p \<and> capacity q = capacity p"

lemma waiters_only_wf: "waiters_only p q \<Longrightarrow> pipe_wf q = pipe_wf p \<and> contents q = contents p"
  by (simp add: waiters_only_def pipe_wf_def contents_def)

lemma waiters_only_ops [simp]:
  "waiters_only p p" "waiters_only p (add_reader k p)" "waiters_only p (add_writer k p)"
  "waiters_only p (snd (remove_reader k p))" "waiters_only p (snd (remove_writer k p))"
  "waiters_only p (set_nonblock b p)" "waiters_only p (p\<lparr>readers_waiting := rs\<rparr>)"
  "waiters_only p (p\<lparr>writers_waiting := ws\<rparr>)" "waiters_only p (p\<lparr>write_closed := b1, readers_waiting := rs\<rparr>)"
  "waiters_only p (p\<lparr>read_closed := b2, writers_waiting := ws\<rparr>)"
  by (simp_all add: waiters_only_def add_reader_def add_writer_def remove_reader_def remove_writer_def set_nonblock_def
      split: option.splits)

lemma bt_insert_twice: "bt_insert k v (bt_insert k u m) = bt_insert k v m"
  by (induction m) auto

text \<open>What the calls on pipe \<open>j\<close> that do not close it have in common.\<close>

definition moves :: "nat \<Rightarrow> bytes \<Rightarrow> bytes \<Rightarrow> pipe_sys \<Rightarrow> pipe_sys \<Rightarrow> bool" where
  "moves j put got g g' \<longleftrightarrow> no_pipe_change g g' \<and> put = [] \<and> got = [] \<or>
     (\<exists>p p'. bt_get (pipes g) j = Some p \<and> at_pipe j p' g g' \<and>
        (pipe_wf p \<longrightarrow> pipe_wf p' \<and> contents p @ put = got @ contents p'))"

lemma moves_none [simp]: "moves j [] [] g g" "moves j [] [] g (metered f g)"
  by (simp_all add: moves_def no_pipe_change_def)

lemma moves_waiters:
  "bt_get (pipes g) j = Some p \<Longrightarrow> waiters_only p q \<Longrightarrow> pipes g' = pipes g \<Longrightarrow> next_id g' = next_id g \<Longrightarrow>
    moves j [] [] g (put_pipe j q g')"
  unfolding moves_def
  by (rule disjI2, intro exI [of _ p] exI [of _ q]) (simp add: at_pipe_def waiters_only_wf)

lemma moves_close_write: "moves j [] [] g (snd (snd (close_write_end j g)))"
  by (auto simp: close_write_end_def wake_readers_def split: option.splits intro: moves_waiters)

lemma moves_close_read: "moves j [] [] g (snd (snd (close_read_end j g)))"
  by (auto simp: close_read_end_def wake_writers_def split: option.splits intro: moves_waiters)

lemma moves_set_nonblock: "moves j [] [] g (snd (pipe_set_nonblock j b g))"
  by (auto simp: pipe_set_nonblock_def split: option.splits intro: moves_waiters)

lemma moves_write_now:
  assumes "bt_get (pipes g) j = Some p" "waiters_only p q" "pipes g1 = bt_insert j q (pipes g) \<or> pipes g1 = pipes g"
    "next_id g1 = next_id g" "bt_sorted (pipes g)" "write_now j xs q g1 = (r, fx, g')"
  shows "moves j (accepted xs r) [] g g'"
proof -
  let ?p = "snd (write_bytes xs q)\<lparr>readers_waiting := []\<rparr>"
  have g': "pipes g' = bt_insert j ?p (pipes g)" "next_id g' = next_id g" "r = Returned (Ok (fst (write_bytes xs q)))"
    using assms by (auto simp: write_now_def wake_readers_def Let_def split_def bt_insert_twice)
  note same = waiters_only_wf [OF waiters_only_ops(7) [where p = "snd (write_bytes xs q)" and rs = "[]"]]
  have "pipe_wf p \<Longrightarrow> pipe_wf ?p \<and> contents p @ accepted xs r = contents ?p"
    using write_bytes_spec [of q xs] waiters_only_wf [OF assms(2)] g'(3) by (simp add: same)
  with assms(1) g' show ?thesis
    unfolding moves_def at_pipe_def by (intro disjI2 exI [of _ p] exI [of _ ?p]) simp
qed

lemma moves_read_now:
  assumes "bt_get (pipes g) j = Some p" "waiters_only p q" "pipes g1 = bt_insert j q (pipes g) \<or> pipes g1 = pipes g"
    "next_id g1 = next_id g" "bt_sorted (pipes g)" "read_now j d q g1 = ((r, d'), fx, g')"
  shows "moves j [] (accepted d' r) g g'"
proof -
  let ?p = "snd (snd (read_bytes d q))\<lparr>writers_waiting := []\<rparr>"
  have g': "pipes g' = bt_insert j ?p (pipes g)" "next_id g' = next_id g" "r = Returned (Ok (fst (read_bytes d q)))"
    "d' = fst (snd (read_bytes d q))"
    using assms by (auto simp: read_now_def wake_writers_def Let_def split_def bt_insert_twice)
  note same = waiters_only_wf [OF waiters_only_ops(8) [where p = "snd (snd (read_bytes d q))" and ws = "[]"]]
  have "pipe_wf p \<Longrightarrow> pipe_wf ?p \<and> contents p = accepted d' r @ contents ?p"
    using ring.get_ok [of q d] ring.get_queue [of q d] ring.delivered [of q d] waiters_only_wf [OF assms(2)]
      g'(3,4) by (simp add: same)
  with assms(1) g' show ?thesis
    unfolding moves_def at_pipe_def by (intro disjI2 exI [of _ p] exI [of _ ?p]) simp
qed

lemma moves_write_begin:
  assumes "bt_sorted (pipes g)" "pipe_write_begin now j k xs nb t g = (r, fx, g')"
  shows "moves j (accepted xs r) [] g g'"
proof (cases "bt_get (pipes g) j")
  case (Some p)
  have again: "write_now j xs p g = (r, fx, g') \<Longrightarrow> moves j (accepted xs r) [] g g'"
    by (rule moves_write_now [OF Some waiters_only_ops(1)]) (use assms in auto)
  have stay: "moves j [] [] g (put_pipe j (add_writer k p) (metered f g))" for f by (rule moves_waiters [OF Some]) simp_all
  show ?thesis
    using assms(2) Some stay by (auto simp: pipe_write_begin_def intro: again split: if_splits)
qed (use assms in \<open>auto simp: pipe_write_begin_def split: if_splits\<close>)

lemma moves_write_resume:
  assumes "bt_sorted (pipes g)" "pipe_write_resume j k xs g = (r, fx, g')"
  shows "moves j (accepted xs r) [] g g'"
proof (cases "bt_get (pipes g) j")
  case (Some p)
  let ?q = "snd (remove_writer k p)"
  have again: "write_now j xs ?q (put_pipe j ?q g) = (r, fx, g') \<Longrightarrow> moves j (accepted xs r) [] g g'"
    by (rule moves_write_now [OF Some waiters_only_ops(5)]) (use assms in auto)
  have stay: "moves j [] [] g (put_pipe j ?q g)" by (rule moves_waiters [OF Some]) simp_all
  show ?thesis
    using assms(2) Some stay by (auto simp: pipe_write_resume_def split_def Let_def intro: again split: if_splits)
qed (use assms in \<open>auto simp: pipe_write_resume_def\<close>)

lemma moves_read_begin:
  assumes "bt_sorted (pipes g)" "pipe_read_begin now j k d nb t g = ((r, d'), fx, g')"
  shows "moves j [] (accepted d' r) g g'"
proof (cases "bt_get (pipes g) j")
  case (Some p)
  have again: "read_now j d p g = ((r, d'), fx, g') \<Longrightarrow> moves j [] (accepted d' r) g g'"
    by (rule moves_read_now [OF Some waiters_only_ops(1)]) (use assms in auto)
  have stay: "moves j [] [] g (put_pipe j (add_reader k p) (metered f g))" for f by (rule moves_waiters [OF Some]) simp_all
  show ?thesis
    using assms(2) Some stay by (auto simp: pipe_read_begin_def intro: again split: if_splits)
qed (use assms in \<open>auto simp: pipe_read_begin_def split: if_splits\<close>)

lemma moves_read_resume:
  assumes "bt_sorted (pipes g)" "pipe_read_resume j k d g = ((r, d'), fx, g')"
  shows "moves j [] (accepted d' r) g g'"
proof (cases "bt_get (pipes g) j")
  case (Some p)
  let ?q = "snd (remove_reader k p)"
  have again: "read_now j d ?q (put_pipe j ?q g) = ((r, d'), fx, g') \<Longrightarrow> moves j [] (accepted d' r) g g'"
    by (rule moves_read_now [OF Some waiters_only_ops(4)]) (use assms in auto)
  have stay: "moves j [] [] g (put_pipe j ?q g)" by (rule moves_waiters [OF Some]) simp_all
  show ?thesis
    using assms(2) Some stay by (auto simp: pipe_read_resume_def split_def Let_def intro: again split: if_splits)
qed (use assms in \<open>auto simp: pipe_read_resume_def\<close>)

text \<open>Every call is one of four.\<close>

lemma pipe_exec_cases:
  assumes "bt_sorted (pipes g)" "pipe_exec i c g = (put, got, g')"
  obtains (other) j where "moves j [] [] g g'" "put = []" "got = []"
  | (here) "moves i put got g g'"
  | (elsewhere) j put' got' where "j \<noteq> i" "moves j put' got' g g'" "put = []" "got = []"
  | (create) "c = C_Create" "g' = snd (create_pipe g)" "put = []" "got = []"
  | (close) j where "c = C_Close j" "g' = snd (snd (close_pipe j g))" "put = []" "got = []"
proof (cases c)
  case (C_Init c)
  then show ?thesis using assms by (intro other [of 0]) (auto simp: pipe_init_def moves_def no_pipe_change_def split: sum.splits)
next
  case (C_CloseWrite j)
  then show ?thesis using assms moves_close_write by (intro other [of j]) auto
next
  case (C_CloseRead j)
  then show ?thesis using assms moves_close_read by (intro other [of j]) auto
next
  case (C_SetNonblock j b)
  then show ?thesis using assms moves_set_nonblock by (intro other [of j]) auto
next
  case (C_Write now j k xs nb t)
  obtain r fx where run: "pipe_write_begin now j k xs nb t g = (r, fx, g')"
    using assms(2) C_Write by (auto simp: Let_def split: prod.splits)
  then show ?thesis using assms(2) C_Write moves_write_begin [OF assms(1) run]
    by (cases "i = j") (auto intro: here elsewhere)
next
  case (C_WriteResume j k xs)
  obtain r fx where run: "pipe_write_resume j k xs g = (r, fx, g')"
    using assms(2) C_WriteResume by (auto simp: Let_def split: prod.splits)
  then show ?thesis using assms(2) C_WriteResume moves_write_resume [OF assms(1) run]
    by (cases "i = j") (auto intro: here elsewhere)
next
  case (C_Read now j k d nb t)
  obtain r d' fx where run: "pipe_read_begin now j k d nb t g = ((r, d'), fx, g')"
    using assms(2) C_Read by (auto simp: Let_def split: prod.splits)
  then show ?thesis using assms(2) C_Read moves_read_begin [OF assms(1) run]
    by (cases "i = j") (auto intro: here elsewhere)
next
  case (C_ReadResume j k d)
  obtain r d' fx where run: "pipe_read_resume j k d g = ((r, d'), fx, g')"
    using assms(2) C_ReadResume by (auto simp: Let_def split: prod.splits)
  then show ?thesis using assms(2) C_ReadResume moves_read_resume [OF assms(1) run]
    by (cases "i = j") (auto intro: here elsewhere)
qed (use assms in \<open>auto intro: create close\<close>)

lemma moves_registry:
  assumes "registry_ok g" "moves j put got g g'"
  shows "registry_ok g' \<and> next_id g' = next_id g"
  using assms unfolding registry_ok_def moves_def no_pipe_change_def at_pipe_def
  by (auto simp: bt_sorted_insert bt.get_ins split: if_splits)

lemma moves_stream:
  assumes "registry_ok g" "moves j put got g g'" "bt_get (pipes g) i = Some p"
  shows "\<exists>p'. bt_get (pipes g') i = Some p' \<and>
    (if i = j then contents p @ put = got @ contents p' else contents p' = contents p)"
  using assms unfolding registry_ok_def moves_def no_pipe_change_def at_pipe_def
  by (cases "i = j") (auto simp: bt.get_ins)

lemma create_registry:
  assumes "registry_ok g" "next_id g < U64_MAX"
  shows "registry_ok (snd (create_pipe g)) \<and> next_id (snd (create_pipe g)) = next_id g + 1 \<and>
    (\<forall>i p. bt_get (pipes g) i = Some p \<longrightarrow> bt_get (pipes (snd (create_pipe g))) i = Some p)"
  using assms pipe_new_wf unfolding registry_ok_def
  by (auto simp: create_pipe_def next_pipe_id_def Let_def bt.get_ins bt_sorted_insert u64_add_def U64_MAX_def
      intro: less_SucI split: if_splits)

lemma close_registry:
  assumes "registry_ok g"
  shows "registry_ok (snd (snd (close_pipe j g))) \<and> next_id (snd (snd (close_pipe j g))) = next_id g \<and>
    (\<forall>i. i \<noteq> j \<longrightarrow> bt_get (pipes (snd (snd (close_pipe j g)))) i = bt_get (pipes g) i)"
  using assms unfolding registry_ok_def
  by (auto simp: close_pipe_def wake_readers_def wake_writers_def Let_def bt.get_ins bt.get_del bt_sorted_insert
      bt_sorted_remove split: option.splits if_splits)

lemma registry_sorted: "registry_ok g \<Longrightarrow> bt_sorted (pipes g)"
  by (simp add: registry_ok_def)

lemma pipe_exec_registry:
  assumes "registry_ok g" "pipe_exec i c g = (put, got, g')" "next_id g < U64_MAX"
  shows "registry_ok g' \<and> next_id g' \<le> next_id g + 1"
  using registry_sorted [OF assms(1)] assms(2)
  by (cases rule: pipe_exec_cases) (use assms(1,3) moves_registry create_registry close_registry in fastforce)+

lemma pipe_exec_stream:
  assumes "registry_ok g" "pipe_exec i c g = (put, got, g')" "next_id g < U64_MAX"
    "bt_get (pipes g) i = Some p" "c \<noteq> C_Close i"
  shows "\<exists>p'. bt_get (pipes g') i = Some p' \<and> contents p @ put = got @ contents p'"
  using registry_sorted [OF assms(1)] assms(2)
proof (cases rule: pipe_exec_cases)
  case (other j)
  with moves_stream [OF assms(1) other(1) assms(4)] show ?thesis by (auto split: if_splits)
next
  case here
  with moves_stream [OF assms(1) here assms(4)] show ?thesis by simp
next
  case (elsewhere j put' got')
  with moves_stream [OF assms(1) elsewhere(2) assms(4)] show ?thesis by auto
next
  case create
  with create_registry [OF assms(1,3)] assms(4) show ?thesis by simp
next
  case (close j)
  with close_registry [OF assms(1), of j] assms(4,5) show ?thesis by auto
qed

text \<open>
  C31. Whatever the calls, from the boot on every buffer of the registry stays well-formed: the read and
  write positions are inside the buffer, which has the size of the capacity, so that no index is
  out of range; the count never exceeds the capacity; and the write position is the read position
  plus the count, wrapped. The bound on the number of calls is that of the 64-bit identifiers.
\<close>

theorem pipes_stay_well_formed:
  assumes "pipe_trace i cs pipe_sys_boot = (puts, gots, g)" "length cs < U64_MAX - 1" "bt_get (pipes g) j = Some p"
  shows "head p < length (buf p) \<and> tail p < length (buf p) \<and> pcount p \<le> capacity p \<and>
    length (buf p) = capacity p \<and> tail p = (head p + pcount p) mod capacity p"
proof -
  have "registry_ok g' \<Longrightarrow> pipe_trace i cs g' = (puts, gots, g) \<Longrightarrow> next_id g' + length cs \<le> U64_MAX \<Longrightarrow> registry_ok g"
    for g' :: pipe_sys and puts gots cs
  proof (induction cs arbitrary: g' puts gots)
    case (Cons c cs)
    obtain put got g1 where step: "pipe_exec i c g' = (put, got, g1)" by (metis prod_cases3)
    obtain puts1 gots1 where rest: "pipe_trace i cs g1 = (puts1, gots1, g)"
      using Cons.prems(2) step by (auto simp: Let_def split: prod.splits)
    have "registry_ok g1 \<and> next_id g1 \<le> next_id g' + 1"
      by (rule pipe_exec_registry [OF Cons.prems(1) step]) (use Cons.prems(3) in simp)
    with Cons.IH [OF _ rest] Cons.prems(3) show ?case by simp
  qed simp
  from this [OF _ assms(1)] assms(2) have "registry_ok g"
    by (simp add: registry_ok_def pipe_sys_boot_def bt_sorted_def U64_MAX_def)
  with assms(3) show ?thesis by (auto simp: registry_ok_def pipe_wf_def)
qed

text \<open>
  C5. A pipe delivers its bytes in order, none lost, none duplicated and none from another pipe: along any
  sequence of calls on the registry, blocked readers and writers resuming in any order, that does
  not close pipe \<open>i\<close>, what readers received from it followed by its contents is its initial contents
  followed by what its writers were told has been written.
\<close>

theorem pipe_stream_order:
  assumes "registry_ok g" "bt_get (pipes g) i = Some p" "C_Close i \<notin> set cs" "next_id g + length cs \<le> U64_MAX"
    "pipe_trace i cs g = (puts, gots, g')"
  shows "\<exists>p'. bt_get (pipes g') i = Some p' \<and> contents p @ puts = gots @ contents p'"
  using assms
proof (induction cs arbitrary: g p puts gots)
  case (Cons c cs)
  obtain put got g1 where step: "pipe_exec i c g = (put, got, g1)" by (metis prod_cases3)
  obtain puts1 gots1 where rest: "pipe_trace i cs g1 = (puts1, gots1, g')" "puts = put @ puts1" "gots = got @ gots1"
    using Cons.prems(5) step by (auto simp: Let_def split: prod.splits)
  have small: "next_id g < U64_MAX" using Cons.prems(4) by simp
  obtain p1 where p1: "bt_get (pipes g1) i = Some p1" "contents p @ put = got @ contents p1"
    using pipe_exec_stream [OF Cons.prems(1) step small Cons.prems(2)] Cons.prems(3) by auto
  have g1: "registry_ok g1" "next_id g1 + length cs \<le> U64_MAX" "C_Close i \<notin> set cs"
    using pipe_exec_registry [OF Cons.prems(1) step small] Cons.prems(3,4) by auto
  obtain p' where "bt_get (pipes g') i = Some p'" "contents p1 @ puts1 = gots1 @ contents p'"
    using Cons.IH [OF g1(1) p1(1) g1(3,2) rest(1)] by blast
  with p1(2) rest(2,3) show ?case by (metis append.assoc)
qed simp

text \<open>A registry with the two-byte pipe, and with a reader that waits on it.\<close>

definition small_registry :: pipe_sys where
  "small_registry = pipe_sys_boot\<lparr>pipes := [(1, small_pipe)], next_id := 2\<rparr>"

lemma small_registry_ok: "registry_ok small_registry" "bt_get (pipes small_registry) 1 = Some small_pipe"
  using small_pipe_wf by (auto simp: small_registry_def registry_ok_def bt_sorted_def split: if_splits)

lemmas pipe_eval = small_registry_def small_pipe_def pipe_sys_boot_def pipe_buffer_new_def default_pipe_config_def
  zero_pipe_metrics_def pipe_write_begin_def pipe_write_resume_def pipe_read_begin_def pipe_read_resume_def write_now_def
  read_now_def write_bytes_def read_bytes_def space_def pb_is_full_def pb_is_empty_def wake_readers_def
  wake_writers_def add_reader_def add_writer_def remove_reader_def remove_writer_def put_pipe_def metered_def
  block_condition_def pipe_deadline_def Let_def split_def

theorem pipe_stream_order_witness:
  "\<exists>g' p'. pipe_trace 1 [C_Read 0 1 7 [0, 0] False None, C_Write 0 1 8 [5, 6, 7] False None, C_ReadResume 1 7 [0, 0]]
      small_registry = ([5, 6], [5, 6], g') \<and> bt_get (pipes g') 1 = Some p' \<and>
    contents small_pipe @ [5, 6] = [5, 6] @ contents p'"
proof -
  let ?cs = "[C_Read 0 1 7 [0, 0] False None, C_Write 0 1 8 [5, 6, 7] False None, C_ReadResume 1 7 [0, 0]]"
  obtain g' where run: "pipe_trace 1 ?cs small_registry = ([5, 6], [5, 6], g')"
    by (simp add: pipe_eval numeral_2_eq_2 numeral_3_eq_3)
  have "C_Close 1 \<notin> set ?cs" "next_id small_registry + length ?cs \<le> U64_MAX"
    by (simp_all add: small_registry_def U64_MAX_def)
  from pipe_stream_order [OF small_registry_ok this run] run show ?thesis by blast
qed

theorem pipes_stay_well_formed_witness:
  "\<exists>g p. pipe_trace 1 [C_Create, C_SetNonblock 1 True] pipe_sys_boot = ([], [], g) \<and> bt_get (pipes g) 1 = Some p \<and>
    head p < length (buf p) \<and> pcount p \<le> capacity p"
proof -
  obtain g p where run: "pipe_trace 1 [C_Create, C_SetNonblock 1 True] pipe_sys_boot = ([], [], g)"
      "bt_get (pipes g) 1 = Some p"
    by (simp add: create_pipe_def next_pipe_id_def pipe_sys_boot_def pipe_set_nonblock_def put_pipe_def metered_def
        default_pipe_config_def DEFAULT_MAX_PIPES_def Let_def split_def)
  with pipes_stay_well_formed [OF run(1) _ run(2)] show ?thesis by (auto simp: U64_MAX_def)
qed

end
