(* ===== verification/Pipe_Blocking.thy ===== *)
theory Pipe_Blocking
  imports Pipe_Refine
begin

text \<open>
  Pipes and the wait queue together: how long a blocking read waits. The statements are about the
  calls of \<open>pipe_read\<close> around \<open>block_current\<close>, with what other tasks do in between.
\<close>

text \<open>An open pipe with nothing in it.\<close>

definition open_empty :: "pipe_buffer \<Rightarrow> bool" where
  "open_empty p \<longleftrightarrow> pipe_wf p \<and> pb_is_empty p \<and> \<not> write_closed p \<and> \<not> read_closed p"

lemma read_begin_blocks:
  assumes "bt_get (pipes g) i = Some p" "open_empty p" "d \<noteq> []"
  shows "pipe_read_begin now i k d False tm g =
    ((Blocks (block_condition (pipe_deadline now tm)), d), [],
     put_pipe i (add_reader k p) (metered (\<lambda>m. m\<lparr>reader_blocks := u64_add (reader_blocks m) 1\<rparr>) g))"
  using assms by (simp add: pipe_read_begin_def open_empty_def)

lemma add_reader_sel [simp]:
  "pcount (add_reader k p) = pcount p" "capacity (add_reader k p) = capacity p" "write_closed (add_reader k p) = write_closed p"
  "read_closed (add_reader k p) = read_closed p" "k \<in> set (readers_waiting (add_reader k p))"
  by (simp_all add: add_reader_def)

lemma remove_reader_waiting:
  "k \<in> set (readers_waiting p) \<Longrightarrow> \<exists>rs. remove_reader k p = (True, p\<lparr>readers_waiting := rs\<rparr>)"
proof -
  assume "k \<in> set (readers_waiting p)"
  then have "position (\<lambda>t. t = k) (readers_waiting p) \<noteq> None" by (auto simp: position_None_iff)
  then show ?thesis by (auto simp: remove_reader_def)
qed

lemma block_any_wakes:
  assumes "bt_sorted (blocked (block_task k s))"
  shows "bt_get (blocked (snd (tick_wakeups env (block_current k WC_Any (wq, s))))) k = None"
proof -
  have "bt_sorted (blocked (wake_all ks s))" if "bt_sorted (blocked s)" for ks and s :: "'a scheduler"
    using that by (induction ks arbitrary: s) (auto simp: wake_task_def bt_sorted_remove split: option.splits)
  moreover have "wake_all (ks @ [k]) s = wake_task k (wake_all ks s)" for ks and s :: "'a scheduler"
    by (induction ks arbitrary: s) simp_all
  ultimately show ?thesis using assms
    by (auto simp: tick_wakeups_def block_current_def wake_from_spec wake_task_def bt.get_del split: option.splits)
qed

text \<open>
  A blocking read without a timeout does not wait for data: it blocks on the condition \<open>Any\<close>, the
  next scan of the wait queue wakes the task whatever has happened, and the call returns
  \<open>WouldBlock\<close> with the pipe still empty, although it was not in non-blocking mode.
\<close>

theorem blocking_read_gives_up:
  assumes "bt_get (pipes g) i = Some p" "open_empty p" "bt_sorted (pipes g)" "d \<noteq> []" "sched_ok s"
    "pipe_read_begin now i k d False None g = (out1, fx, g1)"
  shows "out1 = (Blocks WC_Any, d) \<and>
    bt_get (blocked (snd (tick_wakeups env (block_current k WC_Any (wq, s))))) k = None \<and>
    fst (pipe_read_resume i k d g1) = (Returned (Err WouldBlock), d)"
proof -
  let ?m = "metered (\<lambda>m. m\<lparr>reader_blocks := u64_add (reader_blocks m) 1\<rparr>) g"
  have begin_eq: "out1 = (Blocks WC_Any, d)" "g1 = put_pipe i (add_reader k p) ?m"
    using read_begin_blocks [OF assms(1,2,4), of now k None] assms(6)
    by (simp_all add: pipe_deadline_def block_condition_def)
  obtain rs where "remove_reader k (add_reader k p) = (True, (add_reader k p)\<lparr>readers_waiting := rs\<rparr>)"
    using remove_reader_waiting [of k "add_reader k p"] by auto
  moreover have "bt_get (pipes g1) i = Some (add_reader k p)" using assms(3) by (simp add: begin_eq bt.get_ins)
  ultimately have "fst (pipe_read_resume i k d g1) = (Returned (Err WouldBlock), d)"
    using assms(2) by (simp add: pipe_read_resume_def open_empty_def)
  moreover have "bt_sorted (blocked (block_task k s))"
    using keeps_ok(2) [OF assms(5), of k] by (simp only: sched_ok_def)
  ultimately show ?thesis using begin_eq(1) block_any_wakes by blast
qed

text \<open>
  C36. A wake-up can be lost: \<open>pipe_read\<close> releases the registry before it calls \<open>block_current\<close>. A write
  in between takes the reader off the pipe's list while it is still running; the reader then blocks
  although the pipe has data. With a timeout of zero, which stands for no deadline, no timer
  interrupt makes it run again and no later write wakes it.
\<close>

theorem pipe_lost_wakeup:
  assumes "bt_get (pipes g) i = Some p" "open_empty p" "bt_sorted (pipes g)" "d \<noteq> []" "xs \<noteq> []"
    "pipe_read_begin now i k d False (Some 0) g = (out1, fx1, g1)"
    "pipe_write_begin now2 i w xs nb tm g1 = (out2, fx2, g2)"
    "sched_ok s" "current s = Some t" "tid t = k" "k \<notin> we_tid ` set wq" "\<forall>env \<in> set envs. uptime env < U64_MAX"
  shows "out1 = (Blocks (WC_Timer U64_MAX), d) \<and> pipe_has_data i g2 \<and>
    current_tid (snd (fold timer_interrupt envs (block_current k (WC_Timer U64_MAX) (wq, s)))) \<noteq> Some k \<and>
    FX_Wake k \<notin> set (fst (snd (pipe_write_begin now3 i w3 ys nb3 tm3 g2)))"
proof -
  let ?q = "snd (write_bytes xs (add_reader k p))\<lparr>readers_waiting := []\<rparr>"
  have out1: "out1 = (Blocks (WC_Timer U64_MAX), d)" and g1: "bt_get (pipes g1) i = Some (add_reader k p)"
      "bt_sorted (pipes g1)"
    using read_begin_blocks [OF assms(1,2,4), of now k "Some 0"] assms(3,6)
    by (auto simp: pipe_deadline_def block_condition_def bt.get_ins bt_sorted_insert)
  have "\<not> pb_is_full (add_reader k p)"
    using assms(2) by (simp add: open_empty_def pb_is_full_def pb_is_empty_def pipe_wf_def)
  then have "write_now i xs (add_reader k p) g1 = (out2, fx2, g2)"
    using assms(2,5,7) g1(1) by (simp add: pipe_write_begin_def open_empty_def)
  then have g2: "bt_get (pipes g2) i = Some ?q"
    using g1(2) by (auto simp: write_now_def wake_readers_def Let_def split_def bt.get_ins)
  have "pipe_has_data i g2"
    using g2 assms(2,5)
    by (simp add: pipe_has_data_def pipe_query_def pb_is_empty_def write_bytes_def Let_def space_def open_empty_def pipe_wf_def)
  moreover have "FX_Wake k \<notin> set (fst (snd (pipe_write_begin now3 i w3 ys nb3 tm3 g2)))"
    using g2 by (auto simp: pipe_write_begin_def write_now_def wake_readers_def write_bytes_def Let_def)
  moreover have "stranded U64_MAX (tid t) (wq @ [\<lparr>we_tid = k, we_condition = WC_Timer U64_MAX\<rparr>], block_current_task s)"
    by (rule block_current_task_stranded [OF assms(8,9)]) (use assms(10,11) in force)
  then have "stranded U64_MAX (tid t) (block_current k (WC_Timer U64_MAX) (wq, s))"
    using assms(9,10) by (simp add: block_current_def block_task_def current_tid_def)
  ultimately show ?thesis using out1 stranded_forever assms(10,12) by metis
qed

section \<open>Witnesses\<close>

lemma small_pipe_open_empty: "open_empty small_pipe" "bt_sorted (pipes small_registry)"
  using small_pipe_wf small_registry_ok(1) by (simp_all add: registry_ok_def open_empty_def pipe_eval)

theorem blocking_read_gives_up_witness:
  "\<exists>g1. pipe_read_begin 0 1 0 [0] False None small_registry = ((Blocks WC_Any, [0]), [], g1) \<and>
    fst (pipe_read_resume 1 0 [0] g1) = (Returned (Err WouldBlock), [0])"
proof -
  obtain out1 fx g1 where run: "pipe_read_begin 0 1 0 [0] False None small_registry = (out1, fx, g1)"
    by (metis prod_cases3)
  have "fx = []" using run by (auto simp: pipe_eval)
  with run blocking_read_gives_up [OF small_registry_ok(2) small_pipe_open_empty _ sample_sched_ok run]
  show ?thesis by blast
qed

theorem pipe_lost_wakeup_witness:
  "\<exists>g1 g2 out2 fx2. pipe_read_begin 0 1 0 [0] False (Some 0) small_registry = ((Blocks (WC_Timer U64_MAX), [0]), [], g1) \<and>
    pipe_write_begin 0 1 5 [9] False None g1 = (out2, fx2, g2) \<and> pipe_has_data 1 g2 \<and>
    current_tid (snd (fold timer_interrupt [] (block_current 0 (WC_Timer U64_MAX) ([], sample_sched [])))) \<noteq> Some 0"
proof -
  obtain out1 fx g1 where read: "pipe_read_begin 0 1 0 [0] False (Some 0) small_registry = (out1, fx, g1)"
    by (metis prod_cases3)
  obtain out2 fx2 g2 where wr: "pipe_write_begin 0 1 5 [9] False None g1 = (out2, fx2, g2)"
    by (metis prod_cases3)
  have "fx = []" using read by (auto simp: pipe_eval)
  with read wr pipe_lost_wakeup [OF small_registry_ok(2) small_pipe_open_empty _ _ read wr sample_sched_ok
      sample_sched_current, of "[]" "[]"] show ?thesis by auto
qed

end
