(* ===== verification/Buddy.thy ===== *)
theory Buddy
  imports Iona_Prelude "HOL-Library.Multiset"
begin

text \<open>
  The buddy allocator (\<open>src/src/mm/buddy/mod.rs\<close>): one list of free block addresses per order, a
  block of order \<open>o\<close> having \<open>2\<^sup>o\<close> pages. Addresses and page counts are 64-bit values. The manager
  calls \<open>expect\<close> on the validation of its configuration, so that its construction may fail;
  \<open>max_order - 1\<close> is the code's for the positive \<open>max_order\<close> the validation asks for. Logging is
  not modelled. \<open>BuddyManager\<close> declares two methods \<open>free_pages\<close>; the one without arguments is
  \<open>manager_free_count\<close>.
\<close>

unbundle bit_operations_syntax

definition DEFAULT_MAX_ORDER :: nat where "DEFAULT_MAX_ORDER = 11"
definition DEFAULT_PAGE_SIZE :: nat where "DEFAULT_PAGE_SIZE = 4096"

record buddy_config =
  max_order :: nat
  page_size :: nat
  bc_collect_metrics :: bool
  bc_log_operations :: bool

definition default_buddy_config :: buddy_config where
  "default_buddy_config = \<lparr>max_order = DEFAULT_MAX_ORDER, page_size = DEFAULT_PAGE_SIZE,
     bc_collect_metrics = True, bc_log_operations = False\<rparr>"

definition buddy_config_validate :: "buddy_config \<Rightarrow> (string, unit) result" where
  "buddy_config_validate c =
     (if max_order c = 0 then Err ''max_order must be > 0''
      else if page_size c = 0 then Err ''page_size must be > 0''
      else if page_size c AND (page_size c - 1) \<noteq> 0 then Err ''page_size must be a power of two''
      else Ok ())"

datatype buddy_error =
    AllocationFailed nat
  | InvalidOrder nat nat
  | InvalidAddress nat
  | DoubleFree nat
  | BuddyNotFound nat
  | BuddyConfigError string

record buddy_stats =
  st_total_pages :: nat
  st_free_pages :: nat
  st_allocated_pages :: nat
  st_largest_free_order :: "nat option"
  st_fragmentation_count :: nat

record buddy =
  bcfg :: buddy_config
  bfree :: "nat list list"
  total_pages :: nat
  free_pages :: nat

definition buddy_new :: "buddy_config \<Rightarrow> buddy" where
  "buddy_new c = \<lparr>bcfg = c, bfree = replicate (max_order c) [], total_pages = 0, free_pages = 0\<rparr>"

text \<open>\<open>1 << order\<close> takes the shift distance modulo the width.\<close>

definition shl1 :: "nat \<Rightarrow> nat" where
  "shl1 k = 2 ^ (k mod 64)"

definition block_size :: "buddy_config \<Rightarrow> nat \<Rightarrow> nat" where
  "block_size c k = u64_mul (shl1 k) (page_size c)"

definition push_free :: "nat \<Rightarrow> nat \<Rightarrow> nat list list \<Rightarrow> nat list list" where
  "push_free k a fr = fr[k := fr ! k @ [a]]"

fun pick_order :: "buddy_config \<Rightarrow> nat \<Rightarrow> nat \<Rightarrow> nat \<Rightarrow> nat" where
  "pick_order c addr rem 0 = 0"
| "pick_order c addr rem (Suc k) =
     (if shl1 (Suc k) \<le> rem \<and> addr mod block_size c (Suc k) = 0 then Suc k else pick_order c addr rem k)"

lemma shl1_pos [simp]: "0 < shl1 k" "shl1 k \<noteq> 0"
  by (simp_all add: shl1_def)

function region_loop :: "buddy_config \<Rightarrow> nat \<Rightarrow> nat \<Rightarrow> nat list list \<Rightarrow> nat list list" where
  "region_loop c addr rem fr =
     (if rem > 0 then
        let k = pick_order c addr rem (max_order c - 1)
        in region_loop c (u64_add addr (block_size c k)) (rem - shl1 k) (push_free k addr fr)
      else fr)"
  by pat_completeness auto
termination
  by (relation "measure (\<lambda>(c, addr, rem, fr). rem)") auto

declare region_loop.simps [simp del]

definition add_region :: "nat \<Rightarrow> nat \<Rightarrow> buddy \<Rightarrow> buddy" where
  "add_region base n b =
     b\<lparr>total_pages := u64_add (total_pages b) n, free_pages := u64_add (free_pages b) n,
       bfree := region_loop (bcfg b) base n (bfree b)\<rparr>"

function first_nonempty :: "nat \<Rightarrow> nat \<Rightarrow> nat list list \<Rightarrow> nat" where
  "first_nonempty m k fr = (if k < m \<and> fr ! k = [] then first_nonempty m (Suc k) fr else k)"
  by pat_completeness auto
termination
  by (relation "measure (\<lambda>(m, k, fr). m - k)") auto

declare first_nonempty.simps [simp del]

fun split_down :: "buddy_config \<Rightarrow> nat \<Rightarrow> nat \<Rightarrow> nat \<Rightarrow> nat list list \<Rightarrow> nat list list" where
  "split_down c addr order 0 fr = fr"
| "split_down c addr order (Suc k) fr =
     (if Suc k > order then split_down c addr order k (push_free k (u64_add addr (block_size c k)) fr) else fr)"

definition alloc :: "nat \<Rightarrow> buddy \<Rightarrow> (buddy_error, nat) result \<times> buddy" where
  "alloc order b =
     (let m = max_order (bcfg b); fo = first_nonempty m order (bfree b)
      in if order \<ge> m then (Err (InvalidOrder order (m - 1)), b)
         else if fo \<ge> m then (Err (AllocationFailed order), b)
         else let addr = last (bfree b ! fo); fr = (bfree b)[fo := butlast (bfree b ! fo)]
           in (Ok addr, b\<lparr>bfree := split_down (bcfg b) addr order fo fr,
                          free_pages := u64_sub (free_pages b) (shl1 order)\<rparr>))"

text \<open>\<open>Vec::swap_remove\<close>: the last element takes the place of the removed one.\<close>

definition swap_remove :: "nat \<Rightarrow> 'a list \<Rightarrow> 'a list" where
  "swap_remove i xs = butlast (xs[i := last xs])"

definition buddy_of :: "buddy_config \<Rightarrow> nat \<Rightarrow> nat \<Rightarrow> nat" where
  "buddy_of c a k =
     (let bs = block_size c k in if a mod u64_mul bs 2 = 0 then u64_add a bs else u64_sub a bs)"

function coalesce :: "buddy_config \<Rightarrow> nat \<Rightarrow> nat \<Rightarrow> nat list list \<Rightarrow> nat \<times> nat \<times> nat list list" where
  "coalesce c a k fr =
     (if k < max_order c - 1 then
        case position (\<lambda>p. p = buddy_of c a k) (fr ! k) of
          Some i \<Rightarrow> coalesce c (min a (buddy_of c a k)) (Suc k) (fr[k := swap_remove i (fr ! k)])
        | None \<Rightarrow> (a, k, fr)
      else (a, k, fr))"
  by pat_completeness auto
termination
  by (relation "measure (\<lambda>(c, a, k, fr). max_order c - 1 - k)") auto

declare coalesce.simps [simp del]

definition buddy_free :: "nat \<Rightarrow> nat \<Rightarrow> buddy \<Rightarrow> (buddy_error, unit) result \<times> buddy" where
  "buddy_free addr order b =
     (let m = max_order (bcfg b); (a, k, fr) = coalesce (bcfg b) addr order (bfree b)
      in if order \<ge> m then (Err (InvalidOrder order (m - 1)), b)
         else if addr mod page_size (bcfg b) \<noteq> 0 then (Err (InvalidAddress addr), b)
         else if a \<in> set (fr ! k) then (Err (DoubleFree a), b\<lparr>bfree := fr\<rparr>)
         else (Ok (), b\<lparr>bfree := push_free k a fr, free_pages := u64_add (free_pages b) (shl1 order)\<rparr>))"

fun largest_below :: "nat \<Rightarrow> nat list list \<Rightarrow> nat option" where
  "largest_below 0 fr = None"
| "largest_below (Suc k) fr = (if fr ! k \<noteq> [] then Some k else largest_below k fr)"

definition largest_free_order :: "buddy \<Rightarrow> nat option" where
  "largest_free_order b = largest_below (max_order (bcfg b)) (bfree b)"

definition free_list_count :: "buddy \<Rightarrow> nat" where
  "free_list_count b = length (filter (\<lambda>v. v \<noteq> []) (bfree b))"

definition buddy_stats_of :: "buddy \<Rightarrow> buddy_stats" where
  "buddy_stats_of b = \<lparr>st_total_pages = total_pages b, st_free_pages = free_pages b,
     st_allocated_pages = u64_sat_sub (total_pages b) (free_pages b),
     st_largest_free_order = largest_free_order b, st_fragmentation_count = free_list_count b\<rparr>"

definition buddy_is_empty :: "buddy \<Rightarrow> bool" where
  "buddy_is_empty b \<longleftrightarrow> total_pages b = 0"

definition buddy_reset :: "buddy \<Rightarrow> buddy" where
  "buddy_reset b = b\<lparr>bfree := map (\<lambda>_. []) (bfree b), total_pages := 0, free_pages := 0\<rparr>"

section \<open>The manager\<close>

record buddy_metrics =
  allocations :: nat
  frees :: nat
  allocation_failures :: nat
  free_failures :: nat
  total_pages_allocated :: nat
  total_pages_freed :: nat
  coalesces :: nat

definition zero_buddy_metrics :: buddy_metrics where
  "zero_buddy_metrics = \<lparr>allocations = 0, frees = 0, allocation_failures = 0, free_failures = 0,
     total_pages_allocated = 0, total_pages_freed = 0, coalesces = 0\<rparr>"

definition inc_alloc :: "nat \<Rightarrow> buddy_metrics \<Rightarrow> buddy_metrics" where
  "inc_alloc n m = m\<lparr>allocations := u64_add (allocations m) 1, total_pages_allocated := u64_add (total_pages_allocated m) n\<rparr>"

definition inc_free :: "nat \<Rightarrow> buddy_metrics \<Rightarrow> buddy_metrics" where
  "inc_free n m = m\<lparr>frees := u64_add (frees m) 1, total_pages_freed := u64_add (total_pages_freed m) n\<rparr>"

definition inc_alloc_failure :: "buddy_metrics \<Rightarrow> buddy_metrics" where
  "inc_alloc_failure m = m\<lparr>allocation_failures := u64_add (allocation_failures m) 1\<rparr>"

definition inc_free_failure :: "buddy_metrics \<Rightarrow> buddy_metrics" where
  "inc_free_failure m = m\<lparr>free_failures := u64_add (free_failures m) 1\<rparr>"

record buddy_manager =
  bm_allocator :: buddy
  bm_metrics :: buddy_metrics
  bm_initialised :: bool

definition buddy_manager_new :: "buddy_config \<Rightarrow> buddy_manager option" where
  "buddy_manager_new c =
     (case buddy_config_validate c of
        Err e \<Rightarrow> None
      | Ok _ \<Rightarrow> Some \<lparr>bm_allocator = buddy_new c, bm_metrics = zero_buddy_metrics, bm_initialised = False\<rparr>)"

definition buddy_manager_init :: "nat \<Rightarrow> nat \<Rightarrow> buddy_manager \<Rightarrow> buddy_manager" where
  "buddy_manager_init base n bm = bm\<lparr>bm_allocator := add_region base n (bm_allocator bm), bm_initialised := True\<rparr>"

definition alloc_pages :: "nat \<Rightarrow> buddy_manager \<Rightarrow> (buddy_error, nat) result \<times> buddy_manager" where
  "alloc_pages order bm =
     (if \<not> bm_initialised bm then (Err (AllocationFailed order), bm)
      else case alloc order (bm_allocator bm) of
        (Ok addr, b) \<Rightarrow> (Ok addr, bm\<lparr>bm_allocator := b, bm_metrics := inc_alloc (shl1 order) (bm_metrics bm)\<rparr>)
      | (Err e, b) \<Rightarrow> (Err e, bm\<lparr>bm_allocator := b, bm_metrics := inc_alloc_failure (bm_metrics bm)\<rparr>))"

definition manager_free_pages :: "nat \<Rightarrow> nat \<Rightarrow> buddy_manager \<Rightarrow> (buddy_error, unit) result \<times> buddy_manager" where
  "manager_free_pages addr order bm =
     (if \<not> bm_initialised bm then (Err (BuddyNotFound addr), bm)
      else case buddy_free addr order (bm_allocator bm) of
        (Ok _, b) \<Rightarrow> (Ok (), bm\<lparr>bm_allocator := b, bm_metrics := inc_free (shl1 order) (bm_metrics bm)\<rparr>)
      | (Err e, b) \<Rightarrow> (Err e, bm\<lparr>bm_allocator := b, bm_metrics := inc_free_failure (bm_metrics bm)\<rparr>))"

definition alloc_page :: "buddy_manager \<Rightarrow> (buddy_error, nat) result \<times> buddy_manager" where
  "alloc_page bm = alloc_pages 0 bm"

definition free_page :: "nat \<Rightarrow> buddy_manager \<Rightarrow> (buddy_error, unit) result \<times> buddy_manager" where
  "free_page addr bm = manager_free_pages addr 0 bm"

definition manager_free_count :: "buddy_manager \<Rightarrow> nat" where
  "manager_free_count bm = free_pages (bm_allocator bm)"

definition buddy_manager_reset :: "buddy_manager \<Rightarrow> buddy_manager" where
  "buddy_manager_reset bm = bm\<lparr>bm_allocator := buddy_reset (bm_allocator bm), bm_initialised := False\<rparr>"

section \<open>The global manager\<close>

text \<open>The state is empty before the first \<open>init\<close>; the other calls panic then, which is \<open>None\<close>.\<close>

definition global_init :: "nat \<Rightarrow> nat \<Rightarrow> buddy_manager option \<Rightarrow> buddy_manager option" where
  "global_init base n g =
     map_option (buddy_manager_init base n)
       (case g of Some bm \<Rightarrow> Some bm | None \<Rightarrow> buddy_manager_new default_buddy_config)"

definition global_alloc_pages :: "nat \<Rightarrow> buddy_manager option \<Rightarrow> (nat option \<times> buddy_manager) option" where
  "global_alloc_pages order g =
     map_option (\<lambda>bm. case alloc_pages order bm of (Ok a, bm1) \<Rightarrow> (Some a, bm1) | (Err e, bm1) \<Rightarrow> (None, bm1)) g"

definition global_free_pages :: "nat \<Rightarrow> nat \<Rightarrow> buddy_manager option \<Rightarrow> buddy_manager option" where
  "global_free_pages addr order g = map_option (\<lambda>bm. snd (manager_free_pages addr order bm)) g"

definition global_alloc_page :: "buddy_manager option \<Rightarrow> (nat option \<times> buddy_manager) option" where
  "global_alloc_page g = global_alloc_pages 0 g"

definition global_free_page :: "nat \<Rightarrow> buddy_manager option \<Rightarrow> buddy_manager option" where
  "global_free_page addr g = global_free_pages addr 0 g"

definition global_stats :: "buddy_manager option \<Rightarrow> (nat \<times> nat) option" where
  "global_stats g = map_option (\<lambda>bm. (total_pages (bm_allocator bm), manager_free_count bm)) g"

definition global_reset :: "buddy_manager option \<Rightarrow> buddy_manager option" where
  "global_reset g = map_option buddy_manager_reset g"

end
