(* ===== verification/Buddy_Safety.thy ===== *)
theory Buddy_Safety
  imports Buddy
begin

text \<open>
  Correctness of the buddy allocator. A block is the range of bytes it spans, and \<open>cover\<close> counts the
  free blocks that contain a byte. Splitting and merging keep the count of every byte, so that the
  bytes of the regions handed to the allocator are each in exactly one free or allocated block,
  over any history of regions, allocations, resets and frees of blocks that are held. That only held blocks are freed is the
  duty of the callers: the code does not detect every other free (\<open>double_free_undetected\<close>).
\<close>

section \<open>Configurations and blocks\<close>

text \<open>Configurations whose blocks, and twice the largest one, fit in half the address space.\<close>

definition cfg_ok :: "buddy_config \<Rightarrow> bool" where
  "cfg_ok c \<longleftrightarrow> 0 < max_order c \<and> max_order c < 64 \<and> 0 < page_size c \<and> 2 ^ max_order c * page_size c \<le> 2 ^ 63"

definition blk :: "buddy_config \<Rightarrow> nat \<Rightarrow> nat" where
  "blk c k = 2 ^ k * page_size c"

definition span :: "buddy_config \<Rightarrow> nat \<Rightarrow> nat \<Rightarrow> nat set" where
  "span c a k = {a ..< a + blk c k}"

definition block_ok :: "buddy_config \<Rightarrow> nat \<Rightarrow> nat \<Rightarrow> bool" where
  "block_ok c a k \<longleftrightarrow> k < max_order c \<and> blk c k dvd a \<and> a + blk c k \<le> 2 ^ 63"

lemma blk_Suc [simp]: "blk c (Suc k) = blk c k + blk c k"
  by (simp add: blk_def)

lemma blk_pos: "cfg_ok c \<Longrightarrow> 0 < blk c k"
  by (simp add: cfg_ok_def blk_def)

lemma blk_le: "cfg_ok c \<Longrightarrow> k \<le> max_order c \<Longrightarrow> blk c k \<le> 2 ^ 63"
proof -
  assume c: "cfg_ok c" and "k \<le> max_order c"
  then have "blk c k \<le> 2 ^ max_order c * page_size c"
    unfolding blk_def by (intro mult_right_mono power_increasing) simp_all
  also have "\<dots> \<le> 2 ^ 63" using c by (simp only: cfg_ok_def)
  finally show ?thesis .
qed

lemma shl1_exact: "cfg_ok c \<Longrightarrow> k \<le> max_order c \<Longrightarrow> shl1 k = 2 ^ k"
  by (simp add: cfg_ok_def shl1_def)

lemma block_size_exact: "cfg_ok c \<Longrightarrow> k \<le> max_order c \<Longrightarrow> block_size c k = blk c k"
proof -
  assume c: "cfg_ok c" "k \<le> max_order c"
  have "blk c k \<le> 2 ^ 63" using c by (rule blk_le)
  then have "2 ^ k * page_size c < 2 ^ 64" unfolding blk_def by (rule le_less_trans) simp
  then show ?thesis using c by (simp only: block_size_def shl1_exact u64_mul_exact blk_def)
qed

text \<open>The buddy of a block, and the merged block.\<close>

lemma buddy_of_eq:
  assumes "cfg_ok c" "block_ok c a k" "Suc k < max_order c"
  shows "buddy_of c a k = (if blk c (Suc k) dvd a then a + blk c k else a - blk c k)"
    "blk c (Suc k) dvd min a (buddy_of c a k)" "\<not> blk c (Suc k) dvd a \<Longrightarrow> blk c k \<le> a"
proof -
  have size: "block_size c k = blk c k" "blk c k \<le> 2 ^ 63" "blk c (Suc k) \<le> 2 ^ 63"
    using assms(3) by (auto intro!: block_size_exact [OF assms(1)] blk_le [OF assms(1)] simp del: power_numeral blk_Suc)
  have "blk c k * 2 < 2 ^ 64" by (rule le_less_trans [OF _ power_strict_increasing [of 63 64 2]]) (use size(3) in simp_all)
  then have twice: "u64_mul (blk c k) 2 = blk c (Suc k)" by (simp add: u64_mul_exact)
  obtain q where q: "a = blk c k * q" using assms(2) by (auto simp: block_ok_def)
  have a: "a + blk c k \<le> 2 ^ 63" using assms(2) by (simp only: block_ok_def)
  then have exact: "u64_add a (blk c k) = a + blk c k"
    by (intro u64_add_exact le_less_trans [OF a]) simp
  show odd: "blk c k \<le> a" if "\<not> blk c (Suc k) dvd a" using that q by (cases q) auto
  have sub: "u64_sub a (blk c k) = a - blk c k" if "\<not> blk c (Suc k) dvd a"
    by (rule u64_sub_exact [OF odd [OF that]], rule le_less_trans [OF _ le_less_trans [OF a]]) simp_all
  show eq: "buddy_of c a k = (if blk c (Suc k) dvd a then a + blk c k else a - blk c k)"
    using exact sub by (simp only: buddy_of_def Let_def size(1) twice mod_eq_0_iff_dvd split: if_split) simp
  have "blk c (Suc k) dvd a - blk c k" if "\<not> blk c (Suc k) dvd a"
  proof -
    have "odd q"
    proof
      assume "even q"
      then obtain r where "q = 2 * r" by blast
      with q that show False by (simp add: algebra_simps flip: mult_2)
    qed
    then obtain r where "q = Suc (2 * r)" by (auto elim: oddE)
    with q have "a - blk c k = blk c (Suc k) * r" by (simp add: algebra_simps)
    then show ?thesis by simp
  qed
  then show "blk c (Suc k) dvd min a (buddy_of c a k)" using odd by (cases "blk c (Suc k) dvd a") (simp_all add: eq)
qed

lemma merge_span:
  assumes "cfg_ok c" "block_ok c a k" "Suc k < max_order c"
  shows "of_bool (x \<in> span c a k) + of_bool (x \<in> span c (buddy_of c a k) k)
    = (of_bool (x \<in> span c (min a (buddy_of c a k)) (Suc k)) :: nat)"
    "span c a k \<subseteq> span c (min a (buddy_of c a k)) (Suc k)"
  using buddy_of_eq [OF assms] by (auto simp: span_def min_def of_bool_def)

lemma merge_ok:
  assumes "cfg_ok c" "block_ok c a k" "block_ok c (buddy_of c a k) k" "Suc k < max_order c"
  shows "block_ok c (min a (buddy_of c a k)) (Suc k)"
  using buddy_of_eq [OF assms(1,2,4)] assms(2,3,4) by (auto simp: block_ok_def min_def split: if_splits)

section \<open>Sums over the free lists\<close>

definition lists_sum :: "(nat \<Rightarrow> nat list \<Rightarrow> nat) \<Rightarrow> nat list list \<Rightarrow> nat" where
  "lists_sum f fr = (\<Sum>k < length fr. f k (fr ! k))"

definition cover :: "buddy_config \<Rightarrow> nat list list \<Rightarrow> nat \<Rightarrow> nat" where
  "cover c fr x = lists_sum (\<lambda>k ys. length (filter (\<lambda>a. x \<in> span c a k) ys)) fr"

definition free_size :: "nat list list \<Rightarrow> nat" where
  "free_size fr = lists_sum (\<lambda>k ys. 2 ^ k * length ys) fr"

lemma lists_sum_update:
  assumes "k < length fr"
  shows "lists_sum f (fr[k := ys]) + f k (fr ! k) = lists_sum f fr + f k ys"
proof -
  have "sum g {..<length fr} = g k + sum g ({..<length fr} - {k})" for g :: "nat \<Rightarrow> nat"
    using assms by (intro sum.remove) simp_all
  moreover have "(\<Sum>j \<in> {..<length fr} - {k}. f j (fr[k := ys] ! j)) = (\<Sum>j \<in> {..<length fr} - {k}. f j (fr ! j))"
    by (rule sum.cong) auto
  ultimately show ?thesis using assms by (simp add: lists_sum_def)
qed

lemma swap_remove_mset:
  assumes "i < length xs"
  shows "mset xs = add_mset (xs ! i) (mset (swap_remove i xs))"
  using assms
  by (cases xs rule: rev_exhaust)
    (auto simp: swap_remove_def list_update_append nth_append mset_update less_Suc_eq)

lemma cover_push:
  "k < length fr \<Longrightarrow> cover c (push_free k a fr) x = cover c fr x + of_bool (x \<in> span c a k)"
  using lists_sum_update [of k fr "\<lambda>k ys. length (filter (\<lambda>a. x \<in> span c a k) ys)" "fr ! k @ [a]"]
  by (simp add: cover_def push_free_def of_bool_def)

lemma free_size_push: "k < length fr \<Longrightarrow> free_size (push_free k a fr) = free_size fr + 2 ^ k"
  using lists_sum_update [of k fr "\<lambda>k ys. 2 ^ k * length ys" "fr ! k @ [a]"]
  by (simp add: free_size_def push_free_def)

lemma filter_mset_len: "mset xs = add_mset a (mset ys) \<Longrightarrow> length (filter P xs) = length (filter P ys) + of_bool (P a)"
  by (drule arg_cong [where f = "\<lambda>M. size (filter_mset P M)"]) (simp flip: mset_filter add: of_bool_def split: if_splits)

lemma cover_take:
  assumes "k < length fr" "mset (fr ! k) = add_mset a (mset ys)"
  shows "cover c fr x = cover c (fr[k := ys]) x + of_bool (x \<in> span c a k)"
  using lists_sum_update [OF assms(1), of "\<lambda>k ys. length (filter (\<lambda>a. x \<in> span c a k) ys)" ys] filter_mset_len [OF assms(2)]
  by (simp add: cover_def)

lemma free_size_take:
  assumes "k < length fr" "mset (fr ! k) = add_mset a (mset ys)"
  shows "free_size fr = free_size (fr[k := ys]) + 2 ^ k"
  using lists_sum_update [OF assms(1), of "\<lambda>k ys. 2 ^ k * length ys" ys] mset_eq_length [of "fr ! k" "a # ys"] assms(2)
  by (simp add: free_size_def)

definition lists_ok :: "buddy_config \<Rightarrow> nat list list \<Rightarrow> bool" where
  "lists_ok c fr \<longleftrightarrow> length fr = max_order c \<and> (\<forall>k < max_order c. \<forall>a \<in> set (fr ! k). block_ok c a k)"

lemma lists_ok_push: "lists_ok c fr \<Longrightarrow> block_ok c a k \<Longrightarrow> lists_ok c (push_free k a fr)"
  by (auto simp: lists_ok_def push_free_def nth_list_update block_ok_def split: if_splits)

lemma lists_ok_take: "lists_ok c fr \<Longrightarrow> set ys \<subseteq> set (fr ! k) \<Longrightarrow> lists_ok c (fr[k := ys])"
  by (cases "k < length fr") (auto simp: lists_ok_def nth_list_update split: if_splits)

section \<open>The loops\<close>

text \<open>What merging keeps: it trades a block of order \<open>k\<close> for a block around it.\<close>

lemma coalesce_spec:
  assumes "cfg_ok c" "lists_ok c fr" "block_ok c a k" "coalesce c a k fr = (a', k', fr')"
  shows "lists_ok c fr' \<and> block_ok c a' k' \<and> k \<le> k' \<and> span c a k \<subseteq> span c a' k' \<and>
    (\<forall>x. cover c fr' x + of_bool (x \<in> span c a' k') = cover c fr x + of_bool (x \<in> span c a k)) \<and>
    free_size fr' + 2 ^ k' = free_size fr + 2 ^ k"
  using assms
proof (induction c a k fr rule: coalesce.induct)
  case (1 c a k fr)
  let ?b = "buddy_of c a k"
  show ?case
  proof (cases "k < max_order c - 1 \<and> (\<exists>i. position (\<lambda>p. p = ?b) (fr ! k) = Some i)")
    case False
    then have "coalesce c a k fr = (a, k, fr)" by (subst coalesce.simps) (auto split: option.splits)
    with 1 show ?thesis by simp
  next
    case True
    then obtain i where k: "k < max_order c - 1" "Suc k < max_order c" and i: "position (\<lambda>p. p = ?b) (fr ! k) = Some i"
      by auto
    let ?fr = "fr[k := swap_remove i (fr ! k)]"
    have len: "k < length fr" using "1.prems"(2) k by (simp add: lists_ok_def)
    have i': "i < length (fr ! k)" "fr ! k ! i = ?b" using position_Some [OF i] by simp_all
    have ms: "mset (fr ! k) = add_mset ?b (mset (swap_remove i (fr ! k)))" using swap_remove_mset [OF i'(1)] i'(2) by simp
    then have sub: "set (swap_remove i (fr ! k)) \<subseteq> set (fr ! k)" by (metis set_mset_add_mset_insert set_mset_mset subset_insertI)
    have buddy: "block_ok c ?b k" using "1.prems"(2) i' k unfolding lists_ok_def by (metis nth_mem Suc_lessD)
    have step: "coalesce c a k fr = coalesce c (min a ?b) (Suc k) ?fr" using k i by (subst coalesce.simps) simp
    have merged: "lists_ok c fr' \<and> block_ok c a' k' \<and> Suc k \<le> k' \<and> span c (min a ?b) (Suc k) \<subseteq> span c a' k' \<and>
      (\<forall>x. cover c fr' x + of_bool (x \<in> span c a' k') = cover c ?fr x + of_bool (x \<in> span c (min a ?b) (Suc k))) \<and>
      free_size fr' + 2 ^ k' = free_size ?fr + 2 ^ Suc k"
      using "1.IH" [OF k(1) i "1.prems"(1) lists_ok_take [OF "1.prems"(2) sub] merge_ok [OF "1.prems"(1,3) buddy k(2)]]
        "1.prems"(4) step by simp
    have "cover c fr' x + of_bool (x \<in> span c a' k') = cover c fr x + of_bool (x \<in> span c a k)" for x
      using merged merge_span(1) [OF "1.prems"(1,3) k(2), of x] cover_take [OF len ms, of c x] by simp
    moreover have "span c a k \<subseteq> span c a' k'" using merged merge_span(2) [OF "1.prems"(1,3) k(2)] by blast
    ultimately show ?thesis using merged free_size_take [OF len ms] by simp
  qed
qed

lemma split_down_spec:
  assumes "cfg_ok c" "lists_ok c fr" "block_ok c a k" "order \<le> k"
  shows "lists_ok c (split_down c a order k fr) \<and> block_ok c a order \<and>
    (\<forall>x. cover c (split_down c a order k fr) x + of_bool (x \<in> span c a order) = cover c fr x + of_bool (x \<in> span c a k)) \<and>
    free_size (split_down c a order k fr) + 2 ^ order = free_size fr + 2 ^ k"
  using assms
proof (induction c a order k fr rule: split_down.induct)
  case (2 c a order k fr)
  show ?case
  proof (cases "order \<le> k")
    case True
    let ?b = "a + blk c k"
    have "u64_add a (blk c k) = ?b"
      using "2.prems"(3) by (intro u64_add_exact) (simp add: block_ok_def)
    then have b: "u64_add a (block_size c k) = ?b"
      using "2.prems"(1,3) by (simp add: block_size_exact block_ok_def)
    have dvd: "blk c k dvd a"
      using "2.prems"(3) by (intro dvd_trans [of "blk c k" "blk c (Suc k)" a]) (simp_all only: blk_Suc dvd_add block_ok_def dvd_refl)
    then have half: "block_ok c a k" "block_ok c ?b k" using "2.prems"(3) by (simp_all add: block_ok_def)
    have len: "k < length fr" using "2.prems"(2,3) by (simp add: lists_ok_def block_ok_def)
    have span: "of_bool (x \<in> span c a (Suc k)) = (of_bool (x \<in> span c a k) + of_bool (x \<in> span c ?b k) :: nat)" for x
      by (auto simp: span_def of_bool_def)
    let ?fr = "push_free k ?b fr"
    have run: "split_down c a order (Suc k) fr = split_down c a order k ?fr" using True b by simp
    have rest: "lists_ok c (split_down c a order k ?fr) \<and> block_ok c a order \<and>
      (\<forall>x. cover c (split_down c a order k ?fr) x + of_bool (x \<in> span c a order) = cover c ?fr x + of_bool (x \<in> span c a k)) \<and>
      free_size (split_down c a order k ?fr) + 2 ^ order = free_size ?fr + 2 ^ k"
      using "2.IH" "2.prems"(1) lists_ok_push [OF "2.prems"(2) half(2)] half(1) True unfolding b by (metis le_imp_less_Suc)
    have "cover c (split_down c a order k ?fr) x + of_bool (x \<in> span c a order) = cover c fr x + of_bool (x \<in> span c a (Suc k))" for x
      using rest cover_push [OF len, of c ?b x] span [of x] by simp
    with rest show ?thesis unfolding run by (simp add: free_size_push [OF len])
  next
    case False
    with "2.prems" show ?thesis by (simp add: le_Suc_eq)
  qed
qed simp

lemma first_nonempty_spec:
  "k \<le> first_nonempty m k fr \<and> (\<forall>j. k \<le> j \<longrightarrow> j < first_nonempty m k fr \<longrightarrow> fr ! j = []) \<and>
    (first_nonempty m k fr < m \<longrightarrow> fr ! first_nonempty m k fr \<noteq> []) \<and> (k \<le> m \<longrightarrow> first_nonempty m k fr \<le> m)"
proof (induction m k fr rule: first_nonempty.induct)
  case (1 m k fr)
  show ?case
  proof (cases "k < m \<and> fr ! k = []")
    case True
    then have eq: "first_nonempty m k fr = first_nonempty m (Suc k) fr" by (subst first_nonempty.simps) simp
    have "fr ! j = []" if "k \<le> j" "j < first_nonempty m (Suc k) fr" for j
      using that True "1.IH" [OF True] by (cases "k = j") auto
    with "1.IH" [OF True] True show ?thesis unfolding eq by auto
  next
    case False
    then have eq: "first_nonempty m k fr = k" by (subst first_nonempty.simps) auto
    with False show ?thesis unfolding eq by auto
  qed
qed

section \<open>The operations\<close>

abbreviation fcover :: "buddy \<Rightarrow> nat \<Rightarrow> nat" where
  "fcover b x \<equiv> cover (bcfg b) (bfree b) x"

lemma alloc_spec:
  assumes "cfg_ok (bcfg b)" "lists_ok (bcfg b) (bfree b)" "alloc k b = (Ok a, b')"
  shows "bcfg b' = bcfg b \<and> total_pages b' = total_pages b \<and> free_pages b' = u64_sub (free_pages b) (2 ^ k) \<and>
    lists_ok (bcfg b) (bfree b') \<and> block_ok (bcfg b) a k \<and>
    (\<forall>x. fcover b' x + of_bool (x \<in> span (bcfg b) a k) = fcover b x) \<and>
    free_size (bfree b') + 2 ^ k = free_size (bfree b)"
proof -
  let ?c = "bcfg b" let ?m = "max_order ?c" let ?fo = "first_nonempty ?m k (bfree b)"
  let ?l = "bfree b ! ?fo" let ?fr = "(bfree b)[?fo := butlast ?l]"
  have k: "k < ?m" "?fo < ?m" using assms(3) by (auto simp: alloc_def Let_def split: if_splits)
  have a: "a = last ?l" and b': "b' = b\<lparr>bfree := split_down ?c a k ?fo ?fr, free_pages := u64_sub (free_pages b) (shl1 k)\<rparr>"
    using assms(3) k by (auto simp: alloc_def Let_def)
  have fo: "k \<le> ?fo" "?l \<noteq> []" using first_nonempty_spec [of k ?m "bfree b"] k by auto
  have l: "?l = butlast ?l @ [a]" using fo(2) a by simp
  then have "mset ?l = mset (butlast ?l @ [a])" by (rule arg_cong)
  also have "\<dots> = add_mset a (mset (butlast ?l))" by simp
  finally have ms: "mset ?l = add_mset a (mset (butlast ?l))" .
  have len: "?fo < length (bfree b)" using assms(2) k by (simp add: lists_ok_def)
  have fr: "lists_ok ?c ?fr" by (rule lists_ok_take [OF assms(2)]) (auto dest: in_set_butlastD)
  have "a \<in> set ?l" using fo(2) a by simp
  then have ok: "block_ok ?c a ?fo" using assms(2) k by (simp add: lists_ok_def)
  show ?thesis
    using split_down_spec [OF assms(1) fr ok fo(1)] cover_take [OF len ms, of ?c] free_size_take [OF len ms]
      shl1_exact [OF assms(1), of k] k by (simp add: b')
qed

lemma cover_member:
  assumes "k < length fr" "a \<in> set (fr ! k)" "x \<in> span c a k"
  shows "0 < cover c fr x"
proof -
  have "0 < length (filter (\<lambda>a. x \<in> span c a k) (fr ! k))" using assms by (auto simp: filter_empty_conv)
  also have "\<dots> \<le> cover c fr x"
    unfolding cover_def lists_sum_def using assms(1)
    by (intro member_le_sum [of k "{..<length fr}" "\<lambda>k. length (filter (\<lambda>a. x \<in> span c a k) (fr ! k))"]) simp_all
  finally show ?thesis .
qed

lemma block_base: "cfg_ok c \<Longrightarrow> a \<in> span c a k"
  by (simp add: span_def blk_pos)

text \<open>Freeing a block none of whose bytes is free.\<close>

lemma free_spec:
  assumes "cfg_ok (bcfg b)" "lists_ok (bcfg b) (bfree b)" "block_ok (bcfg b) a k"
    "\<And>x. fcover b x + of_bool (x \<in> span (bcfg b) a k) \<le> 1"
    "coalesce (bcfg b) a k (bfree b) = (a', k', fr)"
  shows "buddy_free a k b = (Ok (), b\<lparr>bfree := push_free k' a' fr, free_pages := u64_add (free_pages b) (2 ^ k)\<rparr>)"
    "lists_ok (bcfg b) (push_free k' a' fr)"
    "cover (bcfg b) (push_free k' a' fr) x = fcover b x + of_bool (x \<in> span (bcfg b) a k)"
    "free_size (push_free k' a' fr) = free_size (bfree b) + 2 ^ k"
proof -
  let ?c = "bcfg b"
  note co = coalesce_spec [OF assms(1-3,5)]
  have len: "k' < length fr" using co by (simp add: lists_ok_def block_ok_def)
  show "lists_ok ?c (push_free k' a' fr)" using co by (blast intro: lists_ok_push)
  show "cover ?c (push_free k' a' fr) x = fcover b x + of_bool (x \<in> span ?c a k)" using co by (simp add: cover_push [OF len])
  show "free_size (push_free k' a' fr) = free_size (bfree b) + 2 ^ k" using co by (simp add: free_size_push [OF len])
  have "a' \<notin> set (fr ! k')"
  proof
    assume "a' \<in> set (fr ! k')"
    from cover_member [OF len this block_base [OF assms(1)]] have "0 < cover ?c fr a'" .
    moreover have "cover ?c fr a' + of_bool (a' \<in> span ?c a' k') = fcover b a' + of_bool (a' \<in> span ?c a k)"
      using co by blast
    ultimately show False using block_base [OF assms(1), of a' k'] assms(4) [of a'] by simp
  qed
  moreover have "page_size ?c dvd a" using assms(3) dvd_trans [of "page_size ?c" "blk ?c k" a] by (simp add: block_ok_def blk_def)
  ultimately show "buddy_free a k b = (Ok (), b\<lparr>bfree := push_free k' a' fr, free_pages := u64_add (free_pages b) (2 ^ k)\<rparr>)"
    using assms(3,5) shl1_exact [OF assms(1), of k] by (auto simp: buddy_free_def block_ok_def)
qed

text \<open>Adding a region.\<close>

lemma pick_order_spec:
  assumes "cfg_ok c" "page_size c dvd addr" "0 < n" "j < max_order c"
  shows "pick_order c addr n j \<le> j \<and> 2 ^ pick_order c addr n j \<le> n \<and> blk c (pick_order c addr n j) dvd addr"
  using assms(4)
proof (induction j)
  case 0
  then show ?case using assms by (simp add: blk_def)
next
  case (Suc j)
  then show ?case using shl1_exact [OF assms(1), of "Suc j"] block_size_exact [OF assms(1), of "Suc j"] Suc.IH
    by (auto simp: mod_eq_0_iff_dvd le_SucI simp del: blk_Suc power_Suc)
qed

lemma region_loop_spec:
  assumes "cfg_ok c" "lists_ok c fr" "page_size c dvd addr" "addr + n * page_size c \<le> 2 ^ 63"
  shows "lists_ok c (region_loop c addr n fr) \<and> free_size (region_loop c addr n fr) = free_size fr + n \<and>
    (\<forall>x. cover c (region_loop c addr n fr) x = cover c fr x + of_bool (x \<in> {addr ..< addr + n * page_size c}))"
  using assms
proof (induction c addr n fr rule: region_loop.induct)
  case (1 c addr n fr)
  show ?case
  proof (cases "0 < n")
    case True
    define k where "k = pick_order c addr n (max_order c - 1)"
    have k: "k < max_order c" "2 ^ k \<le> n" "blk c k dvd addr"
      using pick_order_spec [OF "1.prems"(1,3) True, of "max_order c - 1"] "1.prems"(1) by (auto simp: cfg_ok_def k_def)
    have size: "block_size c k = blk c k" "shl1 k = 2 ^ k"
      using "1.prems"(1) k(1) by (simp_all add: block_size_exact shl1_exact)
    have "blk c k \<le> n * page_size c" unfolding blk_def using k(2) by (rule mult_right_mono) simp
    then have fits: "addr + blk c k \<le> 2 ^ 63" using "1.prems"(4) by linarith
    then have next_addr: "u64_add addr (block_size c k) = addr + blk c k" unfolding size by (intro u64_add_exact) simp
    have ok: "block_ok c addr k" using k fits by (simp add: block_ok_def)
    have split: "n * page_size c = blk c k + (n - 2 ^ k) * page_size c"
      using k(2) by (simp add: blk_def diff_mult_distrib)
    have len: "k < length fr" using "1.prems"(2) k(1) by (simp add: lists_ok_def)
    have run: "region_loop c addr n fr = region_loop c (addr + blk c k) (n - 2 ^ k) (push_free k addr fr)"
      using True by (subst region_loop.simps) (simp only: Let_def next_addr size(2) k_def [symmetric] if_True)
    have rest: "lists_ok c (region_loop c addr n fr) \<and>
      free_size (region_loop c addr n fr) = free_size (push_free k addr fr) + (n - 2 ^ k) \<and>
      (\<forall>x. cover c (region_loop c addr n fr) x = cover c (push_free k addr fr) x +
        of_bool (x \<in> {addr + blk c k ..< addr + blk c k + (n - 2 ^ k) * page_size c}))"
      unfolding run using "1.IH" [OF True k_def "1.prems"(1), unfolded next_addr size(2)]
        lists_ok_push [OF "1.prems"(2) ok] "1.prems"(3,4) split by (simp add: blk_def)
    have "cover c (region_loop c addr n fr) x = cover c fr x + of_bool (x \<in> {addr ..< addr + n * page_size c})" for x
      using rest unfolding split by (auto simp: cover_push [OF len] span_def of_bool_def)
    with rest k(2) show ?thesis by (simp add: free_size_push [OF len])
  qed (use 1 in \<open>simp add: region_loop.simps\<close>)
qed

section \<open>Runs\<close>

definition alloc_cover :: "buddy_config \<Rightarrow> (nat \<times> nat) multiset \<Rightarrow> nat \<Rightarrow> nat" where
  "alloc_cover c A x = size (filter_mset (\<lambda>(a, k). x \<in> span c a k) A)"

definition alloc_size :: "(nat \<times> nat) multiset \<Rightarrow> nat" where
  "alloc_size A = (\<Sum>(a, k) \<in># A. 2 ^ k)"

lemma alloc_cover_add [simp]: "alloc_cover c (add_mset (a, k) A) x = alloc_cover c A x + of_bool (x \<in> span c a k)"
  by (simp add: alloc_cover_def)

lemma alloc_size_add [simp]: "alloc_size (add_mset (a, k) A) = alloc_size A + 2 ^ k"
  by (simp add: alloc_size_def)

text \<open>
  The states of an allocator whose users free the blocks they hold: \<open>U\<close> are the bytes of the regions
  added so far, which must be new and page-aligned, and \<open>A\<close> the blocks handed out.
\<close>

inductive buddy_run :: "buddy_config \<Rightarrow> nat set \<Rightarrow> (nat \<times> nat) multiset \<Rightarrow> buddy \<Rightarrow> bool" where
  run_new: "cfg_ok c \<Longrightarrow> buddy_run c {} {#} (buddy_new c)"
| run_region: "buddy_run c U A b \<Longrightarrow> page_size c dvd base \<Longrightarrow> base + n * page_size c \<le> 2 ^ 63 \<Longrightarrow>
    U \<inter> {base ..< base + n * page_size c} = {} \<Longrightarrow> total_pages b + n < 2 ^ 64 \<Longrightarrow>
    buddy_run c (U \<union> {base ..< base + n * page_size c}) A (add_region base n b)"
| run_alloc: "buddy_run c U A b \<Longrightarrow> alloc k b = (Ok a, b') \<Longrightarrow> buddy_run c U (add_mset (a, k) A) b'"
| run_alloc_fails: "buddy_run c U A b \<Longrightarrow> alloc k b = (Err e, b') \<Longrightarrow> buddy_run c U A b'"
| run_free: "buddy_run c U (add_mset (a, k) A) b \<Longrightarrow> buddy_free a k b = (r, b') \<Longrightarrow> buddy_run c U A b'"
| run_reset: "buddy_run c U A b \<Longrightarrow> buddy_run c {} {#} (buddy_reset b)"

definition buddy_ok :: "buddy_config \<Rightarrow> nat set \<Rightarrow> (nat \<times> nat) multiset \<Rightarrow> buddy \<Rightarrow> bool" where
  "buddy_ok c U A b \<longleftrightarrow> bcfg b = c \<and> cfg_ok c \<and> lists_ok c (bfree b) \<and> (\<forall>(a, k) \<in># A. block_ok c a k) \<and>
     (\<forall>x. cover c (bfree b) x + alloc_cover c A x = of_bool (x \<in> U)) \<and>
     free_pages b = free_size (bfree b) \<and> total_pages b = free_size (bfree b) + alloc_size A \<and> total_pages b < 2 ^ 64"

lemma buddy_ok_cover: "buddy_ok c U A b \<Longrightarrow> cover c (bfree b) x + alloc_cover c A x = of_bool (x \<in> U)"
  unfolding buddy_ok_def by blast

lemma buddy_ok_sel: "buddy_ok c U A b \<Longrightarrow> bcfg b = c" "buddy_ok c U A b \<Longrightarrow> cfg_ok c" "buddy_ok c U A b \<Longrightarrow> lists_ok c (bfree b)"
  "buddy_ok c U A b \<Longrightarrow> free_pages b = free_size (bfree b)" "buddy_ok c U A b \<Longrightarrow> total_pages b = free_size (bfree b) + alloc_size A"
  unfolding buddy_ok_def by blast+

lemma empty_lists: "lists_ok c (replicate (max_order c) []) \<and> cover c (replicate m []) x = 0 \<and> free_size (replicate m []) = 0"
  by (simp add: lists_ok_def cover_def lists_sum_def free_size_def)

lemma free_premises:
  assumes "buddy_ok c U (add_mset (a, k) A) b"
  shows "cfg_ok (bcfg b)" "lists_ok (bcfg b) (bfree b)" "block_ok (bcfg b) a k"
    "fcover b x + of_bool (x \<in> span (bcfg b) a k) \<le> 1"
proof -
  show "fcover b x + of_bool (x \<in> span (bcfg b) a k) \<le> 1"
    using buddy_ok_cover [OF assms, of x] buddy_ok_sel(1) [OF assms] by (simp add: of_bool_def split: if_splits)
qed (use assms in \<open>simp_all add: buddy_ok_def\<close>)

lemma buddy_free_ok:
  assumes "buddy_ok c U (add_mset (a, k) A) b"
  shows "fst (buddy_free a k b) = Ok () \<and> buddy_ok c U A (snd (buddy_free a k b))"
proof -
  obtain a' k' fr where co: "coalesce (bcfg b) a k (bfree b) = (a', k', fr)" by (metis prod_cases3)
  note free = free_spec [OF free_premises(1-3) [OF assms] free_premises(4) [OF assms] co]
  have "free_pages b + 2 ^ k < 2 ^ 64" using assms by (simp add: buddy_ok_def)
  moreover have "cover c (push_free k' a' fr) x + alloc_cover c A x = of_bool (x \<in> U)" for x
    using free(3) [of x] buddy_ok_cover [OF assms, of x] buddy_ok_sel(1) [OF assms] by simp
  ultimately show ?thesis using assms free(1,2,4) unfolding buddy_ok_def by (simp add: u64_add_exact)
qed

lemma buddy_run_ok: "buddy_run c U A b \<Longrightarrow> buddy_ok c U A b"
proof (induction rule: buddy_run.induct)
  case (run_new c)
  then show ?case by (simp add: buddy_ok_def buddy_new_def empty_lists alloc_cover_def alloc_size_def)
next
  case (run_region c U A b base n)
  note b = buddy_ok_sel [OF run_region.IH]
  note loop = region_loop_spec [OF b(2,3) run_region.hyps(2,3)]
  have "cover c (region_loop c base n (bfree b)) x + alloc_cover c A x = of_bool (x \<in> U \<union> {base ..< base + n * page_size c})" for x
    using loop buddy_ok_cover [OF run_region.IH, of x] run_region.hyps(4) by (auto simp: of_bool_def split: if_splits)
  moreover have "u64_add (total_pages b) n = total_pages b + n" "u64_add (free_pages b) n = free_pages b + n"
    using run_region.hyps(5) b(4,5) by (auto intro!: u64_add_exact)
  ultimately show ?case using run_region.IH run_region.hyps(5) loop
    unfolding buddy_ok_def add_region_def by simp
next
  case (run_alloc c U A b k a b')
  have b: "bcfg b = c" "cfg_ok (bcfg b)" "lists_ok (bcfg b) (bfree b)" using buddy_ok_sel [OF run_alloc.IH] by simp_all
  note al = alloc_spec [OF b(2,3) run_alloc.hyps(2)]
  have "free_pages b < 2 ^ 64" "2 ^ k \<le> free_pages b" using al run_alloc.IH by (auto simp: buddy_ok_def)
  moreover have "free_size (bfree b) - 2 ^ k = free_size (bfree b')" using al by (metis add_diff_cancel_right')
  ultimately have "free_pages b' = free_size (bfree b')" using al buddy_ok_sel(4) [OF run_alloc.IH] by (simp add: u64_sub_exact)
  moreover have "cover c (bfree b') x + of_bool (x \<in> span c a k) = cover c (bfree b) x" for x using al b(1) by metis
  then have "cover c (bfree b') x + alloc_cover c (add_mset (a, k) A) x = of_bool (x \<in> U)" for x
    using buddy_ok_cover [OF run_alloc.IH, of x] by (metis add.assoc add.commute alloc_cover_add)
  ultimately show ?case using run_alloc.IH al unfolding buddy_ok_def by simp
next
  case (run_alloc_fails c U A b k e b')
  then show ?case by (auto simp: alloc_def Let_def split: if_splits)
next
  case (run_free c U a k A b r b')
  then show ?case using buddy_free_ok [OF run_free.IH] by simp
next
  case (run_reset c U A b)
  have "map (\<lambda>_. []) (bfree b) = replicate (max_order c) ([] :: nat list)"
    using run_reset.IH by (simp add: buddy_ok_def lists_ok_def map_replicate_const)
  then have "buddy_reset b = b\<lparr>bfree := replicate (max_order c) [], total_pages := 0, free_pages := 0\<rparr>"
    unfolding buddy_reset_def by (simp only:)
  with buddy_ok_sel(1,2) [OF run_reset.IH] show ?case
    by (simp add: buddy_ok_def empty_lists alloc_cover_def alloc_size_def)
qed

text \<open>
  C8. The buddy allocator never hands out a byte twice. Over any history of new page-aligned regions, allocations, frees of
  blocks that are held and resets, two blocks that are allocated at the same time are disjoint, inside the regions the
  allocator was given, and not in its free lists; and the page counters are exact.
\<close>

theorem buddy_no_overlap:
  assumes "buddy_run c U (add_mset (a1, k1) (add_mset (a2, k2) A)) b"
  shows "span c a1 k1 \<inter> span c a2 k2 = {} \<and> span c a1 k1 \<subseteq> U \<and>
    (\<forall>x \<in> span c a1 k1. cover c (bfree b) x = 0) \<and>
    total_pages b = free_pages b + alloc_size (add_mset (a1, k1) (add_mset (a2, k2) A))"
proof -
  have ok: "buddy_ok c U (add_mset (a1, k1) (add_mset (a2, k2) A)) b" using assms by (rule buddy_run_ok)
  note x = buddy_ok_cover [OF ok, unfolded alloc_cover_add]
  have "\<not> (x \<in> span c a1 k1 \<and> x \<in> span c a2 k2)" "x \<in> span c a1 k1 \<Longrightarrow> x \<in> U \<and> cover c (bfree b) x = 0" for x
    using x [of x] by (auto simp: of_bool_def split: if_splits)
  moreover have "total_pages b = free_pages b + alloc_size (add_mset (a1, k1) (add_mset (a2, k2) A))"
    using ok by (auto simp: buddy_ok_def)
  ultimately show ?thesis by blast
qed

text \<open>
  Blocks are aligned to their size, so that a region that starts at an odd page is split into small blocks first. Three tests
  (\<open>test_largest_free_order\<close>, \<open>test_stats\<close>, \<open>test_coalescing\<close>) expect one block of order 10 or 3 in a region at \<open>0x1000\<close> of
  exactly that size, which would not be aligned.
\<close>

lemma buddy_blocks_aligned: "buddy_run c U A b \<Longrightarrow> (a, k) \<in># A \<Longrightarrow> blk c k dvd a"
  using buddy_run_ok [of c U A b] by (auto simp: buddy_ok_def block_ok_def)

text \<open>
  Freeing a block that is held never fails, whatever merging finds, and what has been freed can be
  allocated again: an allocation of at most that order then succeeds.
\<close>

theorem buddy_free_then_alloc:
  assumes "buddy_run c U (add_mset (a, k) A) b" "j \<le> k"
  shows "\<exists>b1 a1 b2. buddy_free a k b = (Ok (), b1) \<and> alloc j b1 = (Ok a1, b2)"
proof -
  have ok: "buddy_ok c U (add_mset (a, k) A) b" using assms(1) by (rule buddy_run_ok)
  obtain a' k' fr where co: "coalesce (bcfg b) a k (bfree b) = (a', k', fr)" by (metis prod_cases3)
  let ?b = "b\<lparr>bfree := push_free k' a' fr, free_pages := u64_add (free_pages b) (2 ^ k)\<rparr>"
  have free: "buddy_free a k b = (Ok (), ?b)"
    by (rule free_spec [OF free_premises(1-3) [OF ok] free_premises(4) [OF ok] co])
  have k': "k \<le> k'" "k' < max_order (bcfg b)" "k' < length fr"
    using coalesce_spec [OF free_premises(1-3) [OF ok] co] by (auto simp: block_ok_def lists_ok_def)
  let ?fo = "first_nonempty (max_order (bcfg b)) j (push_free k' a' fr)"
  have "push_free k' a' fr ! k' \<noteq> []" using k'(3) by (simp add: push_free_def)
  then have "?fo \<le> k'"
    using first_nonempty_spec [of j "max_order (bcfg b)" "push_free k' a' fr"] k'(1) assms(2) by (metis le_trans not_le)
  then have "\<exists>a1 b2. alloc j ?b = (Ok a1, b2)" using k' assms(2) by (auto simp: alloc_def Let_def)
  with free show ?thesis by blast
qed

section \<open>Double frees\<close>

lemma coalesce_merges:
  assumes "cfg_ok c" "lists_ok c fr" "block_ok c a k" "Suc k < max_order c" "buddy_of c a k \<in> set (fr ! k)"
    "coalesce c a k fr = (a', k', fr')"
  shows "k < k' \<and> span c a k \<subseteq> span c a' k' \<and> span c (buddy_of c a k) k \<subseteq> span c a' k'"
proof -
  let ?b = "buddy_of c a k"
  have k: "k < max_order c - 1" "k < length fr" using assms(2,4) by (auto simp: lists_ok_def)
  obtain i where i: "position (\<lambda>p. p = ?b) (fr ! k) = Some i"
    using assms(5) by (cases "position (\<lambda>p. p = ?b) (fr ! k)") (auto simp: position_None_iff)
  have i': "i < length (fr ! k)" "fr ! k ! i = ?b" using position_Some [OF i] by simp_all
  let ?fr = "fr[k := swap_remove i (fr ! k)]"
  have sub: "set (swap_remove i (fr ! k)) \<subseteq> set (fr ! k)"
    using swap_remove_mset [OF i'(1)] by (metis set_mset_add_mset_insert set_mset_mset subset_insertI)
  have buddy: "block_ok c ?b k" using assms(2,4,5) by (simp add: lists_ok_def)
  have "coalesce c a k fr = coalesce c (min a ?b) (Suc k) ?fr" using k(1) i by (subst coalesce.simps) simp
  then have "coalesce c (min a ?b) (Suc k) ?fr = (a', k', fr')" using assms(6) by simp
  from coalesce_spec [OF assms(1) lists_ok_take [OF assms(2) sub] merge_ok [OF assms(1,3) buddy assms(4)] this]
  have "Suc k \<le> k'" "span c (min a ?b) (Suc k) \<subseteq> span c a' k'" by blast+
  moreover have "x \<in> span c (min a ?b) (Suc k)" if "x \<in> span c a k \<or> x \<in> span c ?b k" for x
    using merge_span(1) [OF assms(1,3,4), of x] that by (simp add: of_bool_def split: if_splits)
  ultimately show ?thesis by (meson Suc_le_lessD subset_iff)
qed

text \<open>
  The check for double frees misses blocks that have been merged: when the buddy of a block is free,
  freeing the block twice succeeds twice, and afterwards each of its bytes is in two free blocks, so
  that it can be handed out twice.
\<close>

theorem double_free_undetected:
  assumes "buddy_run c U (add_mset (a, k) A) b" "Suc k < max_order c" "buddy_of c a k \<in> set (bfree b ! k)"
    "buddy_free a k b = (r1, b1)" "buddy_free a k b1 = (r2, b2)"
  shows "r1 = Ok () \<and> r2 = Ok () \<and> (\<forall>x \<in> span c a k. cover c (bfree b2) x = 2)"
proof -
  have ok: "buddy_ok c U (add_mset (a, k) A) b" using assms(1) by (rule buddy_run_ok)
  note cfg = buddy_ok_sel(1-3) [OF ok]
  obtain a' k' fr where co: "coalesce (bcfg b) a k (bfree b) = (a', k', fr)" by (metis prod_cases3)
  note free = free_spec [OF free_premises(1-3) [OF ok] free_premises(4) [OF ok] co, unfolded cfg(1)]
  note spec = coalesce_spec [OF free_premises(1-3) [OF ok] co, unfolded cfg(1)]
  have block: "block_ok c a k" using free_premises(3) [OF ok] cfg(1) by simp
  have merged: "k < k'" "span c a k \<subseteq> span c a' k'" "span c (buddy_of c a k) k \<subseteq> span c a' k'"
    using coalesce_merges [OF cfg(2,3) block assms(2,3)] co cfg(1) by auto
  have len: "k' < length fr" "k < length fr" using spec merged(1) by (auto simp: lists_ok_def block_ok_def)
  have b1: "r1 = Ok ()" "bfree b1 = push_free k' a' fr" "bcfg b1 = c" using free(1) assms(4) cfg(1) by auto
  have one: "cover c fr x + of_bool (x \<in> span c a' k') \<le> 1" for x
    using free_premises(4) [OF ok, of x] free(3) [of x] cfg(1) by (simp add: cover_push [OF len(1)])
  have gone: "p \<notin> set (bfree b1 ! k)" if "span c p k \<subseteq> span c a' k'" for p
  proof
    assume "p \<in> set (bfree b1 ! k)"
    then have "p \<in> set (fr ! k)" using merged(1) by (simp add: b1(2) push_free_def)
    from cover_member [OF len(2) this block_base [OF cfg(2)]] one [of p] that block_base [OF cfg(2), of p k]
    show False by auto
  qed
  have "position (\<lambda>p. p = buddy_of c a k) (bfree b1 ! k) = None"
    using gone [OF merged(3)] by (auto simp: position_None_iff)
  then have "coalesce c a k (bfree b1) = (a, k, bfree b1)" by (subst coalesce.simps) simp
  moreover have "a mod page_size c = 0"
    using block dvd_trans [of "page_size c" "blk c k" a] by (simp add: block_ok_def blk_def)
  ultimately have "buddy_free a k b1 = (Ok (), b1\<lparr>bfree := push_free k a (bfree b1), free_pages := u64_add (free_pages b1) (shl1 k)\<rparr>)"
    using gone [OF merged(2)] b1(3) assms(2) by (simp add: buddy_free_def)
  then have b2: "r2 = Ok ()" "bfree b2 = push_free k a (bfree b1)" using assms(5) by auto
  have "cover c (bfree b2) x = 2" if "x \<in> span c a k" for x
  proof -
    have "cover c fr x = 0" "x \<in> span c a' k'" using one [of x] merged(2) that by auto
    then show ?thesis using that len by (simp add: b2(2) b1(2) cover_push push_free_def [of k']) (simp add: cover_push flip: push_free_def)
  qed
  with b1(1) b2(1) show ?thesis by blast
qed

section \<open>Witnesses\<close>

definition tiny_config :: buddy_config where
  "tiny_config = default_buddy_config\<lparr>max_order := Suc (Suc 0), page_size := 1\<rparr>"

definition tiny :: "nat list list \<Rightarrow> nat \<Rightarrow> buddy" where
  "tiny fr n = \<lparr>bcfg = tiny_config, bfree = fr, total_pages = 2, free_pages = n\<rparr>"

lemma tiny_alloc:
  "alloc 0 (tiny [[], [0]] 2) = (Ok 0, tiny [[1], []] 1)" "alloc 0 (tiny [[1], []] 1) = (Ok 1, tiny [[], []] 0)"
  by (simp_all add: alloc_def tiny_def tiny_config_def Let_def first_nonempty.simps push_free_def block_size_def
      shl1_def int_arith)

lemma tiny_runs:
  "buddy_run tiny_config {0 ..< 2} {#(0, 0)#} (tiny [[1], []] 1)"
  "buddy_run tiny_config {0 ..< 2} {#(1, 0), (0, 0)#} (tiny [[], []] 0)"
proof -
  have "buddy_run tiny_config ({} \<union> {0 ..< 0 + 2 * page_size tiny_config}) {#} (add_region 0 2 (buddy_new tiny_config))"
    by (intro run_region run_new) (simp_all add: cfg_ok_def tiny_config_def buddy_new_def)
  moreover have "add_region 0 2 (buddy_new tiny_config) = tiny [[], [0]] 2"
    by (simp add: add_region_def buddy_new_def tiny_config_def tiny_def default_buddy_config_def region_loop.simps Let_def
        push_free_def block_size_def shl1_def int_arith)
  moreover have "page_size tiny_config = 1" by (simp add: tiny_config_def)
  ultimately have region: "buddy_run tiny_config {0 ..< 2} {#} (tiny [[], [0]] 2)"
    by (simp only: Un_empty_left mult_1_right add_0)
  show one: "buddy_run tiny_config {0 ..< 2} {#(0, 0)#} (tiny [[1], []] 1)" by (rule run_alloc [OF region tiny_alloc(1)])
  show "buddy_run tiny_config {0 ..< 2} {#(1, 0), (0, 0)#} (tiny [[], []] 0)" by (rule run_alloc [OF one tiny_alloc(2)])
qed

theorem buddy_no_overlap_witness:
  "buddy_run tiny_config {0 ..< 2} {#(1, 0), (0, 0)#} (tiny [[], []] 0) \<and> span tiny_config 1 0 \<inter> span tiny_config 0 0 = {}"
  using buddy_no_overlap [OF tiny_runs(2)] tiny_runs(2) by blast

theorem buddy_free_then_alloc_witness:
  "\<exists>b1 a1 b2. buddy_free 0 0 (tiny [[1], []] 1) = (Ok (), b1) \<and> alloc 0 b1 = (Ok a1, b2)"
  using buddy_free_then_alloc [OF tiny_runs(1), of 0] by simp

theorem double_free_undetected_witness:
  "\<exists>b1 b2. buddy_free 0 0 (tiny [[1], []] 1) = (Ok (), b1) \<and> buddy_free 0 0 b1 = (Ok (), b2) \<and>
    cover tiny_config (bfree b2) 0 = 2"
proof -
  obtain r1 b1 r2 b2 where runs: "buddy_free 0 0 (tiny [[1], []] 1) = (r1, b1)" "buddy_free 0 0 b1 = (r2, b2)"
    by (metis surj_pair)
  have "buddy_of tiny_config 0 0 \<in> set (bfree (tiny [[1], []] 1) ! 0)" "Suc 0 < max_order tiny_config"
    "0 \<in> span tiny_config 0 0"
    by (simp_all add: buddy_of_def tiny_config_def tiny_def block_size_def shl1_def int_arith span_def blk_def)
  with double_free_undetected [OF tiny_runs(1) _ _ runs] runs show ?thesis by blast
qed

end
