(* ===== verification/Execution.thy ===== *)
theory Execution
  imports Chain_Types Ordered_Map "HOL-Library.Char_ord" "HOL-Library.List_Lexorder"
begin

text \<open>
  Execution of transactions and blocks (\<open>src/src/execution.rs\<close>).

  The file names types that \<open>src/src/types.rs\<close> does not have in that form. A transaction has the
  fields of the complete literal in the file's tests, a header those of the literal in
  \<open>build_block\<close>; the state has the four fields the code reads and writes, \<open>burned\<close> being
  the one counter behind \<open>entry(())\<close> and \<open>to_le_bytes\<close>. \<open>compute_receipts_root\<close> is called on
  the execution receipts and serialises each of them like \<open>compute_receipts_root_from_receipts\<close>.

  What is not in the repository is in \<open>exec_env\<close>: address derivation, the bytes a transaction signs,
  the signature check, the transaction hash, \<open>blake3\<close>, \<open>hex\<close>, the receipt serialiser, the decoding
  of an EVM transaction (\<open>hex\<close> and \<open>bincode\<close>) and \<open>execute_evm_on_state\<close>. \<open>u64\<close> arithmetic wraps
  as in a release build. The metrics are threaded; logging is not modelled.
\<close>

section \<open>Configuration, errors, data\<close>

definition DEFAULT_GAS_LIMIT :: nat where "DEFAULT_GAS_LIMIT = 86000000"
definition INTRINSIC_GAS :: nat where "INTRINSIC_GAS = 21000"
definition GAS_PER_BYTE :: nat where "GAS_PER_BYTE = 10"
definition EX_MIN_BASE_FEE :: nat where "EX_MIN_BASE_FEE = 1"
definition ELASTICITY_DENOM :: nat where "ELASTICITY_DENOM = 8"
definition MAX_PAYLOAD_SIZE :: nat where "MAX_PAYLOAD_SIZE = 262144"
definition DEFAULT_CHAIN_ID :: nat where "DEFAULT_CHAIN_ID = 6126151"

record exec_config =
  ex_gas_limit :: nat
  ex_chain_id :: nat
  ex_min_base_fee :: nat
  ex_verify_signatures :: bool
  ex_verify_state_roots :: bool
  ex_verify_tx_roots :: bool
  ex_max_payload_size :: nat
  ex_enable_evm :: bool
  ex_evm_gas_limit :: nat
  ex_evm_tracing :: bool
  ex_collect_metrics :: bool

definition default_exec_config :: exec_config where
  "default_exec_config = \<lparr>ex_gas_limit = DEFAULT_GAS_LIMIT, ex_chain_id = DEFAULT_CHAIN_ID,
     ex_min_base_fee = EX_MIN_BASE_FEE, ex_verify_signatures = True, ex_verify_state_roots = True,
     ex_verify_tx_roots = True, ex_max_payload_size = MAX_PAYLOAD_SIZE, ex_enable_evm = True,
     ex_evm_gas_limit = 15000000, ex_evm_tracing = False, ex_collect_metrics = True\<rparr>"

definition test_exec_config :: exec_config where
  "test_exec_config = default_exec_config\<lparr>ex_verify_signatures := False, ex_verify_state_roots := False,
     ex_verify_tx_roots := False, ex_enable_evm := True\<rparr>"

definition exec_config_validate :: "exec_config \<Rightarrow> (string, unit) result" where
  "exec_config_validate c =
     (if ex_gas_limit c = 0 then Err ''gas_limit must be > 0''
      else if ex_chain_id c = 0 then Err ''chain_id must be > 0''
      else if ex_min_base_fee c = 0 then Err ''min_base_fee must be > 0''
      else if ex_max_payload_size c = 0 then Err ''max_payload_size must be > 0''
      else if ex_evm_gas_limit c = 0 then Err ''evm_gas_limit must be > 0''
      else Ok ())"

datatype exec_error =
    InvalidTxSignature
  | AddressMismatch string string
  | NonceMismatch nat nat
  | InsufficientBalance nat nat
  | GasLimitTooLow nat nat
  | FeeTooLow nat nat
  | PayloadTooLarge nat nat
  | EvmError string
  | StateRootMismatch string string
  | TxRootMismatch string string
  | GasUsedMismatch nat nat
  | ProposerMismatch string string
  | VerificationFailed string
  | ChainIdMismatch nat nat
  | ExecInternal string

record exec_tx =
  tx_pubkey :: bytes
  tx_from :: string
  tx_nonce :: nat
  tx_max_fee :: nat
  tx_max_priority :: nat
  tx_gas_limit :: nat
  tx_payload :: bytes
  tx_signature :: bytes
  tx_chain_id :: nat

record kv_state =
  st_kv :: "(bytes, bytes) btree_map"
  balances :: "(string, nat) btree_map"
  nonces :: "(string, nat) btree_map"
  burned :: nat

record exec_receipt =
  er_tx_hash :: hash32
  er_success :: bool
  er_gas_used :: nat
  er_intrinsic_gas_used :: nat
  er_exec_gas_used :: nat
  er_vm_gas_used :: nat
  er_evm_gas_used :: nat
  er_effective_gas_price :: nat
  er_burned :: nat
  er_tip :: nat
  er_error :: "string option"
  er_data :: "bytes option"

record exec_metrics =
  txs_applied :: nat
  txs_failed :: nat
  blocks_built :: nat
  blocks_verified :: nat
  gas_used_total :: nat
  gas_refunded_total :: nat
  state_roots_computed :: nat

definition zero_exec_metrics :: exec_metrics where
  "zero_exec_metrics = \<lparr>txs_applied = 0, txs_failed = 0, blocks_built = 0, blocks_verified = 0,
     gas_used_total = 0, gas_refunded_total = 0, state_roots_computed = 0\<rparr>"

text \<open>The result of \<open>execute_evm_on_state\<close>, in the fields the code reads; the logs are dropped by it.\<close>

record evm_result =
  evm_success :: bool
  evm_gas :: nat
  return_data :: bytes

record 'evm exec_env =
  xe_derive_address :: "bytes \<Rightarrow> string"
  xe_sign_bytes :: "exec_tx \<Rightarrow> bytes"
  xe_verify :: verifier
  xe_tx_hash :: "exec_tx \<Rightarrow> hash32"
  xe_blake3 :: "bytes \<Rightarrow> hash32"
  xe_hex :: "bytes \<Rightarrow> string"
  xe_receipt_bytes :: "exec_receipt \<Rightarrow> bytes option"
  xe_decode_evm :: "bytes \<Rightarrow> 'evm option"
  xe_run_evm :: "kv_state \<Rightarrow> 'evm \<Rightarrow> nat \<Rightarrow> nat \<Rightarrow> nat \<Rightarrow> nat \<Rightarrow> nat option \<Rightarrow> evm_result \<times> kv_state"
  xe_protocol_version :: nat

section \<open>Gas\<close>

definition intrinsic_gas :: "exec_tx \<Rightarrow> nat" where
  "intrinsic_gas tx = u64_add INTRINSIC_GAS (u64_mul (length (tx_payload tx)) GAS_PER_BYTE)"

definition next_base_fee :: "nat \<Rightarrow> nat \<Rightarrow> nat \<Rightarrow> nat" where
  "next_base_fee current0 used target =
     (if target = 0 then max current0 EX_MIN_BASE_FEE
      else
        let cur = max current0 EX_MIN_BASE_FEE in
        if used = target then cur
        else
          let delta = (if used > target
            then max (u64_mul cur (used - target) div target div ELASTICITY_DENOM) 1
            else u64_mul cur (target - used) div target div ELASTICITY_DENOM)
          in if used > target then max (u64_sat_add cur delta) EX_MIN_BASE_FEE
             else max (u64_sat_sub cur delta) EX_MIN_BASE_FEE)"

definition effective_prices :: "nat \<Rightarrow> nat \<Rightarrow> nat \<Rightarrow> nat \<times> nat \<times> nat" where
  "effective_prices base max_fee max_priority =
     (let priority = min max_priority (u64_sat_sub max_fee base) in (u64_add base priority, base, priority))"

definition verify_tx_signature :: "'evm exec_env \<Rightarrow> exec_tx \<Rightarrow> (exec_error, string) result" where
  "verify_tx_signature env tx =
     (let derived = xe_derive_address env (tx_pubkey tx)
      in if tx_from tx \<noteq> derived then Err (AddressMismatch derived (tx_from tx))
         else case xe_verify env (tx_pubkey tx) (xe_sign_bytes env tx) (tx_signature tx) of
           Inl _ \<Rightarrow> Err InvalidTxSignature
         | Inr _ \<Rightarrow> Ok derived)"

section \<open>Key-value payloads\<close>

text \<open>The bytes of an ASCII literal.\<close>

definition ascii :: "string \<Rightarrow> bytes" where
  "ascii s = map of_char s"

definition cont_byte :: "u8 \<Rightarrow> bool" where
  "cont_byte b \<longleftrightarrow> 0x80 \<le> b \<and> b \<le> 0xBF"

text \<open>\<open>core::str::from_utf8\<close>: the scalar values of a well-formed sequence, each with its bytes.\<close>

definition two_bytes :: "u8 \<Rightarrow> u8 \<Rightarrow> bool" where
  "two_bytes a b \<longleftrightarrow> 0xC2 \<le> a \<and> a \<le> 0xDF \<and> cont_byte b"

definition three_bytes :: "u8 \<Rightarrow> u8 \<Rightarrow> u8 \<Rightarrow> bool" where
  "three_bytes a b c \<longleftrightarrow> cont_byte c \<and>
     (a = 0xE0 \<and> 0xA0 \<le> b \<and> b \<le> 0xBF \<or> 0xE1 \<le> a \<and> a \<le> 0xEC \<and> cont_byte b \<or>
      a = 0xED \<and> 0x80 \<le> b \<and> b \<le> 0x9F \<or> 0xEE \<le> a \<and> a \<le> 0xEF \<and> cont_byte b)"

definition four_bytes :: "u8 \<Rightarrow> u8 \<Rightarrow> u8 \<Rightarrow> u8 \<Rightarrow> bool" where
  "four_bytes a b c d \<longleftrightarrow> cont_byte c \<and> cont_byte d \<and>
     (a = 0xF0 \<and> 0x90 \<le> b \<and> b \<le> 0xBF \<or> 0xF1 \<le> a \<and> a \<le> 0xF3 \<and> cont_byte b \<or>
      a = 0xF4 \<and> 0x80 \<le> b \<and> b \<le> 0x8F)"

definition low_bits :: "u8 \<Rightarrow> nat" where
  "low_bits b = unat b mod 64"

fun next_char :: "bytes \<Rightarrow> ((nat \<times> bytes) \<times> bytes) option" where
  "next_char [] = None"
| "next_char (a # xs) =
     (if a < 0x80 then Some ((unat a, [a]), xs)
      else case xs of
        b # ys \<Rightarrow>
          if two_bytes a b then Some (((unat a mod 32) * 64 + low_bits b, [a, b]), ys)
          else (case ys of
            c # zs \<Rightarrow>
              if three_bytes a b c then Some (((unat a mod 16) * 4096 + low_bits b * 64 + low_bits c, [a, b, c]), zs)
              else (case zs of
                d # ws \<Rightarrow>
                  if four_bytes a b c d
                  then Some (((unat a mod 8) * 262144 + low_bits b * 4096 + low_bits c * 64 + low_bits d, [a, b, c, d]), ws)
                  else None
              | [] \<Rightarrow> None)
          | [] \<Rightarrow> None)
      | [] \<Rightarrow> None)"

lemma next_char_split: "next_char xs = Some ((cp, bs), rest) \<Longrightarrow> xs = bs @ rest \<and> bs \<noteq> []"
  by (cases xs) (auto split: if_splits list.splits)

function utf8_chars :: "bytes \<Rightarrow> (nat \<times> bytes) list option" where
  "utf8_chars xs =
     (if xs = [] then Some []
      else case next_char xs of
        None \<Rightarrow> None
      | Some (ch, rest) \<Rightarrow> map_option (Cons ch) (utf8_chars rest))"
  by pat_completeness auto
termination
  by (relation "measure length") (auto dest!: next_char_split)

declare utf8_chars.simps [simp del]

text \<open>\<open>char::is_whitespace\<close>, the Unicode property \<open>White_Space\<close>.\<close>

definition white_space :: "nat \<Rightarrow> bool" where
  "white_space cp \<longleftrightarrow> 9 \<le> cp \<and> cp \<le> 13 \<or>
     cp \<in> set [0x20, 0x85, 0xA0, 0x1680, 0x2028, 0x2029, 0x202F, 0x205F, 0x3000] \<or> 0x2000 \<le> cp \<and> cp \<le> 0x200A"

text \<open>\<open>split_whitespace\<close>, on the bytes of the words; \<open>w\<close> is the word read so far.\<close>

fun words_from :: "bytes \<Rightarrow> (nat \<times> bytes) list \<Rightarrow> bytes list" where
  "words_from w [] = (if w = [] then [] else [w])"
| "words_from w (ch # cs) =
     (if white_space (fst ch) then (if w = [] then words_from [] cs else w # words_from [] cs)
      else words_from (w @ snd ch) cs)"

definition split_whitespace :: "(nat \<times> bytes) list \<Rightarrow> bytes list" where
  "split_whitespace cs = words_from [] cs"

fun join_words :: "bytes list \<Rightarrow> bytes" where
  "join_words [] = []"
| "join_words [w] = w"
| "join_words (w # v # ws) = w @ ascii '' '' @ join_words (v # ws)"

datatype kv_error = KV_InvalidUtf8 | KV_Empty | KV_Unknown bytes

definition apply_kv_payload :: "bytes \<Rightarrow> (bytes, bytes) btree_map \<Rightarrow> (kv_error, unit) result \<times> (bytes, bytes) btree_map" where
  "apply_kv_payload payload kv =
     (case utf8_chars payload of
        None \<Rightarrow> (Err KV_InvalidUtf8, kv)
      | Some cs \<Rightarrow>
          (case split_whitespace cs of
             [] \<Rightarrow> (Err KV_Empty, kv)
           | cmd # args \<Rightarrow>
               if cmd = ascii ''set'' \<and> length (cmd # args) \<ge> 3
                 then (Ok (), bt_insert (args ! 0) (join_words (drop 1 args)) kv)
               else if cmd = ascii ''del'' \<and> length (cmd # args) = 2 then (Ok (), bt_remove (args ! 0) kv)
               else (Err (KV_Unknown cmd), kv)))"

section \<open>Transactions\<close>

definition EVM_PREFIX :: bytes where
  "EVM_PREFIX = ascii ''evm_unified ''"

definition starts_with :: "bytes \<Rightarrow> bytes \<Rightarrow> bool" where
  "starts_with p xs \<longleftrightarrow> take (length p) xs = p"

definition execute_evm_payload ::
    "'evm exec_env \<Rightarrow> exec_config \<Rightarrow> exec_tx \<Rightarrow> nat \<Rightarrow> nat \<Rightarrow> kv_state \<Rightarrow> (exec_error, evm_result) result \<times> kv_state" where
  "execute_evm_payload env c tx base chain st =
     (if \<not> ex_enable_evm c then (Err (EvmError ''EVM execution disabled''), st)
      else
        let hex_payload = (if starts_with EVM_PREFIX (tx_payload tx) then drop (length EVM_PREFIX) (tx_payload tx) else [])
        in case xe_decode_evm env hex_payload of
             None \<Rightarrow> (Err (EvmError ''failed to decode EVM transaction''), st)
           | Some t \<Rightarrow>
               let (r, st1) = xe_run_evm env st t 0 0 base chain (Some (ex_evm_gas_limit c)) in (Ok r, st1))"

definition balance_of :: "kv_state \<Rightarrow> string \<Rightarrow> nat" where
  "balance_of st a = (case bt_get (balances st) a of Some b \<Rightarrow> b | None \<Rightarrow> 0)"

definition nonce_of :: "kv_state \<Rightarrow> string \<Rightarrow> nat" where
  "nonce_of st a = (case bt_get (nonces st) a of Some n \<Rightarrow> n | None \<Rightarrow> 0)"

text \<open>\<open>*entry(a).or_insert(0) += v\<close> on the balances.\<close>

definition credit :: "string \<Rightarrow> nat \<Rightarrow> kv_state \<Rightarrow> kv_state" where
  "credit a v st = st\<lparr>balances := bt_insert a (u64_add (balance_of st a) v) (balances st)\<rparr>"

text \<open>The checks 2 to 6 and 8, in the order of the code.\<close>

definition check_tx :: "exec_config \<Rightarrow> kv_state \<Rightarrow> exec_tx \<Rightarrow> nat \<Rightarrow> string \<Rightarrow> (exec_error, unit) result" where
  "check_tx c st tx base from_addr =
     (let intrinsic = intrinsic_gas tx;
          (effective, _, _) = effective_prices base (tx_max_fee tx) (tx_max_priority tx);
          cost = u64_mul intrinsic effective
      in if ex_chain_id c \<noteq> tx_chain_id tx then Err (ChainIdMismatch (ex_chain_id c) (tx_chain_id tx))
         else if tx_nonce tx \<noteq> nonce_of st from_addr then Err (NonceMismatch (nonce_of st from_addr) (tx_nonce tx))
         else if length (tx_payload tx) > ex_max_payload_size c
           then Err (PayloadTooLarge (length (tx_payload tx)) (ex_max_payload_size c))
         else if tx_gas_limit tx < intrinsic then Err (GasLimitTooLow (tx_gas_limit tx) intrinsic)
         else if tx_max_fee tx < base then Err (FeeTooLow (tx_max_fee tx) base)
         else if balance_of st from_addr < cost then Err (InsufficientBalance cost (balance_of st from_addr))
         else Ok ())"

text \<open>Step 9: the fee is deducted, burned and tipped, and the nonce advances.\<close>

definition charge_fee :: "exec_tx \<Rightarrow> nat \<Rightarrow> string \<Rightarrow> string \<Rightarrow> kv_state \<Rightarrow> kv_state" where
  "charge_fee tx base from_addr proposer st =
     (let intrinsic = intrinsic_gas tx;
          (effective, _, tip_per_gas) = effective_prices base (tx_max_fee tx) (tx_max_priority tx);
          st1 = st\<lparr>balances := bt_insert from_addr (u64_sub (balance_of st from_addr) (u64_mul intrinsic effective)) (balances st)\<rparr>;
          st2 = st1\<lparr>burned := u64_add (burned st1) (u64_mul intrinsic base)\<rparr>;
          st3 = credit proposer (u64_mul intrinsic tip_per_gas) st2
      in st3\<lparr>nonces := bt_insert from_addr (u64_add (nonce_of st from_addr) 1) (nonces st3)\<rparr>)"

text \<open>Step 10: success, output and the extra gas of the payload.\<close>

definition run_payload ::
    "'evm exec_env \<Rightarrow> exec_config \<Rightarrow> exec_tx \<Rightarrow> nat \<Rightarrow> kv_state \<Rightarrow> (bool \<times> bytes \<times> nat) \<times> kv_state" where
  "run_payload env c tx base st =
     (if starts_with EVM_PREFIX (tx_payload tx) then
        case execute_evm_payload env c tx base (ex_chain_id c) st of
          (Inr r, st1) \<Rightarrow> ((evm_success r, return_data r, u64_sat_sub (evm_gas r) (intrinsic_gas tx)), st1)
        | (Inl _, st1) \<Rightarrow> ((False, [], 0), st1)
      else
        case apply_kv_payload (tx_payload tx) (st_kv st) of
          (Inr _, kv) \<Rightarrow> ((True, [], 0), st\<lparr>st_kv := kv\<rparr>)
        | (Inl _, kv) \<Rightarrow> ((False, [], 0), st\<lparr>st_kv := kv\<rparr>))"

definition record_tx :: "bool \<Rightarrow> nat \<Rightarrow> nat \<Rightarrow> exec_metrics \<Rightarrow> exec_metrics" where
  "record_tx ok used refund m =
     (let m1 = (if ok then m\<lparr>txs_applied := u64_add (txs_applied m) 1\<rparr> else m\<lparr>txs_failed := u64_add (txs_failed m) 1\<rparr>)
      in m1\<lparr>gas_used_total := u64_add (gas_used_total m1) used,
            gas_refunded_total := u64_add (gas_refunded_total m1) refund\<rparr>)"

definition sender :: "'evm exec_env \<Rightarrow> exec_config \<Rightarrow> exec_tx \<Rightarrow> (exec_error, string) result" where
  "sender env c tx =
     (if ex_verify_signatures c then verify_tx_signature env tx else Ok (xe_derive_address env (tx_pubkey tx)))"

definition apply_tx ::
    "'evm exec_env \<Rightarrow> exec_config \<Rightarrow> kv_state \<Rightarrow> exec_tx \<Rightarrow> nat \<Rightarrow> string \<Rightarrow> exec_metrics \<Rightarrow>
      (exec_error, exec_receipt \<times> kv_state) result \<times> exec_metrics" where
  "apply_tx env c st tx base proposer m =
     (case sender env c tx of
        Inl e \<Rightarrow> (Err e, m)
      | Inr from_addr \<Rightarrow>
          (case check_tx c st tx base from_addr of
             Inl e \<Rightarrow> (Err e, m)
           | Inr _ \<Rightarrow>
               let intrinsic = intrinsic_gas tx;
                   (effective, _, tip_per_gas) = effective_prices base (tx_max_fee tx) (tx_max_priority tx);
                   ((ok, out, extra), st1) = run_payload env c tx base (charge_fee tx base from_addr proposer st);
                   used = u64_add intrinsic extra;
                   refund = u64_sat_sub (tx_gas_limit tx) used;
                   st2 = (if refund > 0 then credit from_addr (u64_mul refund effective) st1 else st1)
               in (Ok (\<lparr>er_tx_hash = xe_tx_hash env tx, er_success = ok, er_gas_used = used,
                        er_intrinsic_gas_used = intrinsic, er_exec_gas_used = extra, er_vm_gas_used = 0,
                        er_evm_gas_used = (if ok then extra else 0), er_effective_gas_price = effective,
                        er_burned = u64_mul intrinsic base, er_tip = u64_mul intrinsic tip_per_gas,
                        er_error = (if ok then None else Some ''execution failed''), er_data = Some out\<rparr>, st2),
                   record_tx ok used refund m)))"

section \<open>Roots\<close>

fun le_bytes :: "nat \<Rightarrow> nat \<Rightarrow> bytes" where
  "le_bytes 0 v = []"
| "le_bytes (Suc k) v = of_nat (v mod 256) # le_bytes k (v div 256)"

definition compute_state_root :: "'evm exec_env \<Rightarrow> kv_state \<Rightarrow> hash32" where
  "compute_state_root env st =
     xe_blake3 env
       (concat (map (\<lambda>(k, v). k @ v) (st_kv st)) @
        concat (map (\<lambda>(a, b). ascii a @ le_bytes 8 b) (balances st)) @
        concat (map (\<lambda>(a, n). ascii a @ le_bytes 8 n) (nonces st)) @ le_bytes 8 (burned st))"

definition compute_tx_root :: "'evm exec_env \<Rightarrow> exec_tx list \<Rightarrow> hash32" where
  "compute_tx_root env ts = xe_blake3 env (concat (map (xe_tx_hash env) ts))"

definition compute_receipts_root :: "'evm exec_env \<Rightarrow> exec_receipt list \<Rightarrow> hash32" where
  "compute_receipts_root env rs =
     xe_blake3 env (concat (map (\<lambda>r. case xe_receipt_bytes env r of Some bs \<Rightarrow> bs | None \<Rightarrow> []) rs))"

section \<open>Blocks\<close>

record exec_header =
  xh_height :: height
  xh_round :: round
  xh_prev :: hash32
  xh_proposer_pk :: bytes
  xh_proposer_addr :: string
  xh_tx_root :: hash32
  xh_receipts_root :: hash32
  xh_state_root :: hash32
  xh_base_fee :: nat
  xh_gas_used :: nat
  xh_intrinsic_gas_used :: nat
  xh_exec_gas_used :: nat
  xh_vm_gas_used :: nat
  xh_evm_gas_used :: nat
  xh_chain_id :: nat
  xh_timestamp :: nat
  xh_protocol_version :: nat

record exec_block =
  xb_header :: exec_header
  xb_txs :: "exec_tx list"

text \<open>The loop over the transactions that building and verifying share: gas, receipts and state.\<close>

fun apply_txs ::
    "'evm exec_env \<Rightarrow> exec_config \<Rightarrow> nat \<Rightarrow> string \<Rightarrow> exec_tx list \<Rightarrow> nat \<Rightarrow> exec_receipt list \<Rightarrow> kv_state \<Rightarrow> exec_metrics \<Rightarrow>
      (exec_error, nat \<times> exec_receipt list \<times> kv_state) result \<times> exec_metrics" where
  "apply_txs env c base proposer [] gas rs st m = (Ok (gas, rs, st), m)"
| "apply_txs env c base proposer (tx # ts) gas rs st m =
     (case apply_tx env c st tx base proposer m of
        (Inl e, m1) \<Rightarrow> (Err e, m1)
      | (Inr (r, st1), m1) \<Rightarrow>
          apply_txs env c base proposer ts (u64_add gas (er_gas_used r)) (rs @ [r]) st1 m1)"

definition sum_u64 :: "nat list \<Rightarrow> nat" where
  "sum_u64 xs = foldl u64_add 0 xs"

definition build_block ::
    "'evm exec_env \<Rightarrow> exec_config \<Rightarrow> nat \<Rightarrow> height \<Rightarrow> round \<Rightarrow> hash32 \<Rightarrow> bytes \<Rightarrow> string \<Rightarrow> kv_state \<Rightarrow> nat \<Rightarrow> exec_tx list \<Rightarrow>
      exec_metrics \<Rightarrow> (exec_error, exec_block \<times> kv_state \<times> exec_receipt list) result \<times> exec_metrics" where
  "build_block env c now h r parent proposer_key proposer st base ts m =
     (case apply_txs env c base proposer ts 0 [] st m of
        (Inl e, m1) \<Rightarrow> (Err e, m1)
      | (Inr (gas, rs, st1), m1) \<Rightarrow>
          (Ok (\<lparr>xb_header = \<lparr>xh_height = h, xh_round = r, xh_prev = parent, xh_proposer_pk = proposer_key,
                  xh_proposer_addr = proposer, xh_tx_root = compute_tx_root env ts,
                  xh_receipts_root = compute_receipts_root env rs, xh_state_root = compute_state_root env st1,
                  xh_base_fee = base, xh_gas_used = gas,
                  xh_intrinsic_gas_used = sum_u64 (map er_intrinsic_gas_used rs),
                  xh_exec_gas_used = sum_u64 (map er_exec_gas_used rs),
                  xh_vm_gas_used = sum_u64 (map er_vm_gas_used rs),
                  xh_evm_gas_used = sum_u64 (map er_evm_gas_used rs), xh_chain_id = ex_chain_id c,
                  xh_timestamp = now, xh_protocol_version = xe_protocol_version env\<rparr>, xb_txs = ts\<rparr>, st1, rs),
           m1\<lparr>blocks_built := u64_add (blocks_built m1) 1\<rparr>))"

definition verify_block ::
    "'evm exec_env \<Rightarrow> exec_config \<Rightarrow> kv_state \<Rightarrow> exec_block \<Rightarrow> bytes \<Rightarrow> string \<Rightarrow> exec_metrics \<Rightarrow>
      (exec_error, kv_state \<times> exec_receipt list) result \<times> exec_metrics" where
  "verify_block env c st blk expected_pk proposer m =
     (let h = xb_header blk in
      if xh_proposer_pk h \<noteq> expected_pk
        then (Err (ProposerMismatch (xe_hex env expected_pk) (xe_hex env (xh_proposer_pk h))), m)
      else if xh_proposer_addr h \<noteq> proposer then (Err (ProposerMismatch proposer (xh_proposer_addr h)), m)
      else if xh_chain_id h \<noteq> ex_chain_id c then (Err (ChainIdMismatch (ex_chain_id c) (xh_chain_id h)), m)
      else case apply_txs env c (xh_base_fee h) proposer (xb_txs blk) 0 [] st m of
        (Inl e, m1) \<Rightarrow> (Err e, m1)
      | (Inr (gas, rs, st1), m1) \<Rightarrow>
          if ex_verify_state_roots c \<and> gas \<noteq> xh_gas_used h then (Err (GasUsedMismatch (xh_gas_used h) gas), m1)
          else if ex_verify_tx_roots c \<and> compute_tx_root env (xb_txs blk) \<noteq> xh_tx_root h
            then (Err (TxRootMismatch (xe_hex env (xh_tx_root h)) (xe_hex env (compute_tx_root env (xb_txs blk)))), m1)
          else if compute_receipts_root env rs \<noteq> xh_receipts_root h
            then (Err (VerificationFailed (''receipts root mismatch: expected '' @ xe_hex env (xh_receipts_root h) @
                    '', got '' @ xe_hex env (compute_receipts_root env rs))), m1)
          else if ex_verify_state_roots c \<and> compute_state_root env st1 \<noteq> xh_state_root h
            then (Err (StateRootMismatch (xe_hex env (xh_state_root h)) (xe_hex env (compute_state_root env st1))), m1)
          else (Ok (st1, rs), m1\<lparr>blocks_verified := u64_add (blocks_verified m1) 1\<rparr>))"

section \<open>The manager\<close>

record exec_manager =
  xm_config :: exec_config
  xm_metrics :: exec_metrics
  xm_initialised :: bool

text \<open>\<open>None\<close> is the panic of \<open>expect\<close>.\<close>

definition exec_manager_new :: "exec_config \<Rightarrow> exec_manager option" where
  "exec_manager_new c =
     (case exec_config_validate c of
        Inl _ \<Rightarrow> None
      | Inr _ \<Rightarrow> Some \<lparr>xm_config = c, xm_metrics = zero_exec_metrics, xm_initialised = False\<rparr>)"

definition exec_manager_init :: "exec_manager \<Rightarrow> exec_manager" where
  "exec_manager_init mg = mg\<lparr>xm_initialised := True\<rparr>"

definition with_metrics_of :: "exec_manager \<Rightarrow> 'r \<times> exec_metrics \<Rightarrow> 'r \<times> exec_manager" where
  "with_metrics_of mg rm = (fst rm, mg\<lparr>xm_metrics := snd rm\<rparr>)"

definition manager_apply_tx where
  "manager_apply_tx env mg st tx base proposer =
     with_metrics_of mg (apply_tx env (xm_config mg) st tx base proposer (xm_metrics mg))"

definition manager_build_block where
  "manager_build_block env mg now h r parent proposer_key proposer st base ts =
     with_metrics_of mg (build_block env (xm_config mg) now h r parent proposer_key proposer st base ts (xm_metrics mg))"

definition manager_verify_block where
  "manager_verify_block env mg st blk expected_pk proposer =
     with_metrics_of mg (verify_block env (xm_config mg) st blk expected_pk proposer (xm_metrics mg))"

definition exec_reset_metrics :: "exec_manager \<Rightarrow> exec_manager" where
  "exec_reset_metrics mg = mg\<lparr>xm_metrics := zero_exec_metrics\<rparr>"

text \<open>The global manager of the legacy functions, created at the first use.\<close>

definition exec_global :: "exec_manager option \<Rightarrow> exec_manager option" where
  "exec_global g = (case g of Some mg \<Rightarrow> Some mg | None \<Rightarrow> map_option exec_manager_init (exec_manager_new default_exec_config))"

definition apply_tx_legacy where
  "apply_tx_legacy env g st tx base proposer =
     map_option (\<lambda>mg. manager_apply_tx env mg st tx base proposer) (exec_global g)"

definition build_block_legacy where
  "build_block_legacy env g now h r parent proposer_key proposer st base ts =
     map_option (\<lambda>mg. manager_build_block env mg now h r parent proposer_key proposer st base ts) (exec_global g)"

definition verify_block_legacy where
  "verify_block_legacy env g st blk expected_pk proposer =
     map_option (\<lambda>mg. manager_verify_block env mg st blk expected_pk proposer) (exec_global g)"

end
