(* ===== verification/Execution_Properties.thy ===== *)
theory Execution_Properties
  imports Execution
begin

text \<open>
  What execution guarantees: building and verifying agree, a sequence of transactions that executes
  has no repetition, the base fee moves by at most an eighth, and what a transaction does to the
  total supply.
\<close>

section \<open>Results do not depend on the metrics\<close>

lemma apply_tx_result: "fst (apply_tx env c st tx base pr m) = fst (apply_tx env c st tx base pr m')"
  by (simp add: apply_tx_def Let_def split_def split: sum.splits)

lemma apply_txs_result:
  "fst (apply_txs env c base pr ts gas rs st m) = fst (apply_txs env c base pr ts gas rs st m')"
proof (induction ts arbitrary: gas rs st m m')
  case (Cons tx ts)
  show ?case
    using apply_tx_result [of env c st tx base pr m m']
    by (cases "apply_tx env c st tx base pr m"; cases "apply_tx env c st tx base pr m'")
      (auto split: sum.splits intro: Cons.IH)
qed simp

text \<open>
  C15. Validators accept what proposers build: a block from \<open>build_block\<close> passes \<open>verify_block\<close> on the same
  state, with the proposer's key and address, under any metrics, and verification arrives at the same
  state and receipts.
\<close>

theorem build_then_verify:
  assumes "fst (build_block env c now h r parent key pr st base ts m) = Ok (blk, st', rs)"
  shows "fst (verify_block env c st blk key pr m') = Ok (st', rs)"
proof -
  obtain gas where run: "fst (apply_txs env c base pr ts 0 [] st m) = Ok (gas, rs, st')" and
    blk: "xb_txs blk = ts" "xh_proposer_pk (xb_header blk) = key" "xh_proposer_addr (xb_header blk) = pr"
      "xh_chain_id (xb_header blk) = ex_chain_id c" "xh_base_fee (xb_header blk) = base" "xh_gas_used (xb_header blk) = gas"
      "xh_tx_root (xb_header blk) = compute_tx_root env ts" "xh_receipts_root (xb_header blk) = compute_receipts_root env rs"
      "xh_state_root (xb_header blk) = compute_state_root env st'"
    using assms by (auto simp: build_block_def split: prod.splits sum.splits)
  have "fst (apply_txs env c base pr ts 0 [] st m') = Ok (gas, rs, st')"
    using run apply_txs_result [of env c base pr ts 0 "[]" st m m'] by simp
  then show ?thesis by (auto simp: verify_block_def Let_def blk split: prod.splits)
qed

section \<open>Nonces\<close>

text \<open>The contract of the EVM on nonces: it never lowers one.\<close>

definition evm_keeps_nonces :: "'evm exec_env \<Rightarrow> bool" where
  "evm_keeps_nonces env \<longleftrightarrow>
     (\<forall>st t n ts base chain lim a. nonce_of st a \<le> nonce_of (snd (xe_run_evm env st t n ts base chain lim)) a \<and>
        (bt_sorted (nonces st) \<longrightarrow> bt_sorted (nonces (snd (xe_run_evm env st t n ts base chain lim)))))"

lemma credit_sel [simp]:
  "nonces (credit a v st) = nonces st" "burned (credit a v st) = burned st" "st_kv (credit a v st) = st_kv st"
  "nonce_of (credit a v st) b = nonce_of st b"
  by (simp_all add: credit_def nonce_of_def)

lemma charge_fee_nonces:
  "nonces (charge_fee tx base a pr st) = bt_insert a (u64_add (nonce_of st a) 1) (nonces st)"
  by (simp add: charge_fee_def Let_def split_def)

lemma run_payload_state:
  obtains (kv) kv where "snd (run_payload env c tx base st) = st\<lparr>st_kv := kv\<rparr>"
  | (evm) t where "starts_with EVM_PREFIX (tx_payload tx)"
      "snd (run_payload env c tx base st) = snd (xe_run_evm env st t 0 0 base (ex_chain_id c) (Some (ex_evm_gas_limit c)))"
  | (same) "snd (run_payload env c tx base st) = st"
proof (cases "starts_with EVM_PREFIX (tx_payload tx)")
  case True
  let ?dec = "xe_decode_evm env (drop (length EVM_PREFIX) (tx_payload tx))"
  have "snd (run_payload env c tx base st) = (if ex_enable_evm c then
      case ?dec of None \<Rightarrow> st | Some t \<Rightarrow> snd (xe_run_evm env st t 0 0 base (ex_chain_id c) (Some (ex_evm_gas_limit c))) else st)"
    using True by (simp add: run_payload_def execute_evm_payload_def Let_def split_def split: option.splits)
  with evm [OF True] same show ?thesis by (cases "ex_enable_evm c"; cases ?dec) auto
next
  case False
  then have "snd (run_payload env c tx base st) = st\<lparr>st_kv := snd (apply_kv_payload (tx_payload tx) (st_kv st))\<rparr>"
    by (simp add: run_payload_def split_def split: sum.splits)
  then show ?thesis by (rule kv)
qed

lemma run_payload_nonces:
  assumes "evm_keeps_nonces env"
  shows "nonce_of st a \<le> nonce_of (snd (run_payload env c tx base st)) a \<and>
    (bt_sorted (nonces st) \<longrightarrow> bt_sorted (nonces (snd (run_payload env c tx base st))))"
proof (cases rule: run_payload_state [of env c tx base st])
  case (kv kv)
  then show ?thesis by (simp add: nonce_of_def)
next
  case (evm t)
  then show ?thesis using assms unfolding evm_keeps_nonces_def by metis
qed simp

lemma apply_tx_Ok:
  assumes "fst (apply_tx env c st tx base pr m) = Ok (r, st')"
  obtains a where "sender env c tx = Ok a" "check_tx c st tx base a = Ok ()"
    "nonces st' = nonces (snd (run_payload env c tx base (charge_fee tx base a pr st)))"
  using assms by (auto simp: apply_tx_def Let_def split_def split: sum.splits if_splits)

lemma apply_tx_nonces:
  assumes "fst (apply_tx env c st tx base pr m) = Ok (r, st')" "evm_keeps_nonces env" "bt_sorted (nonces st)"
    "tx_nonce tx < U64_MAX"
  shows "bt_sorted (nonces st') \<and> nonce_of st b \<le> nonce_of st' b \<and>
    (\<exists>a. sender env c tx = Ok a \<and> nonce_of st a = tx_nonce tx \<and> tx_nonce tx < nonce_of st' a)"
proof -
  obtain a where a: "sender env c tx = Ok a" "check_tx c st tx base a = Ok ()"
    "nonces st' = nonces (snd (run_payload env c tx base (charge_fee tx base a pr st)))"
    using assms(1) by (rule apply_tx_Ok)
  let ?s = "charge_fee tx base a pr st"
  have nonce: "tx_nonce tx = nonce_of st a" using a(2) by (auto simp: check_tx_def Let_def split: if_splits prod.splits)
  then have "u64_add (nonce_of st a) 1 = nonce_of st a + 1"
    using assms(4) by (intro u64_add_exact) (simp add: U64_MAX_def)
  then have s: "bt_sorted (nonces ?s)" "nonce_of ?s b = (if b = a then nonce_of st a + 1 else nonce_of st b)" for b
    using assms(3) by (simp_all add: charge_fee_nonces bt_sorted_insert nonce_of_def bt.get_ins)
  have "nonce_of st' b = nonce_of (snd (run_payload env c tx base ?s)) b" for b by (simp add: nonce_of_def a(3))
  then have "nonce_of ?s b \<le> nonce_of st' b" for b using run_payload_nonces [OF assms(2), of ?s b] by simp
  with nonce have "nonce_of st b \<le> nonce_of st' b" "tx_nonce tx < nonce_of st' a"
    using s(2) [of b] s(2) [of a] by (metis le_add1 order_trans, metis less_add_one order_less_le_trans)
  moreover have "bt_sorted (nonces st')" using run_payload_nonces [OF assms(2), of ?s] s(1) a(3) by simp
  ultimately show ?thesis using a(1) nonce by auto
qed

text \<open>
  C14. No transaction is executed twice: if a sequence of transactions executes, no transaction occurs
  twice in it, whatever else is in the sequence. The nonces of the transactions are below the
  greatest \<open>u64\<close>, and the EVM does not lower nonces.
\<close>

theorem no_replay_in_sequence:
  assumes "fst (apply_txs env c base pr ts gas rs st m) = Ok res" "evm_keeps_nonces env" "bt_sorted (nonces st)"
    "\<forall>tx \<in> set ts. tx_nonce tx < U64_MAX"
  shows "distinct ts \<and> (\<forall>tx \<in> set ts. \<exists>a. sender env c tx = Ok a \<and> nonce_of st a \<le> tx_nonce tx)"
  using assms(1,3,4)
proof (induction ts arbitrary: gas rs st m)
  case (Cons tx ts)
  obtain r st' m' where step: "apply_tx env c st tx base pr m = (Ok (r, st'), m')"
    and rest: "fst (apply_txs env c base pr ts (u64_add gas (er_gas_used r)) (rs @ [r]) st' m') = Ok res"
    using Cons.prems(1) by (auto split: prod.splits sum.splits)
  have n: "bt_sorted (nonces st')" "\<And>b. nonce_of st b \<le> nonce_of st' b"
    "\<exists>a. sender env c tx = Ok a \<and> nonce_of st a = tx_nonce tx \<and> tx_nonce tx < nonce_of st' a"
    using apply_tx_nonces [of env c st tx base pr m r st'] step assms(2) Cons.prems(2,3) by auto
  have later: "distinct ts" "\<exists>a. sender env c t = Ok a \<and> nonce_of st' a \<le> tx_nonce t" if "t \<in> set ts" for t
    using Cons.IH [OF rest n(1)] Cons.prems(3) that by auto
  have "tx \<notin> set ts"
  proof
    assume "tx \<in> set ts"
    with later(2) n(3) show False by fastforce
  qed
  moreover have "distinct ts" using Cons.IH [OF rest n(1)] Cons.prems(3) by simp
  moreover have "\<exists>a. sender env c t = Ok a \<and> nonce_of st a \<le> tx_nonce t" if t: "t \<in> set (tx # ts)" for t
  proof (cases "t = tx")
    case False
    then obtain a where "sender env c t = Ok a" "nonce_of st' a \<le> tx_nonce t" using t later(2) by auto
    then show ?thesis using n(2) [of a] by auto
  qed (use n(3) in auto)
  ultimately show ?case by simp
qed simp

section \<open>The base fee\<close>

lemma next_base_fee_cases:
  assumes "0 < target"
  shows "target < used \<Longrightarrow> next_base_fee fee used target =
      u64_sat_add (max fee EX_MIN_BASE_FEE) (max (u64_mul (max fee EX_MIN_BASE_FEE) (used - target) div target div 8) 1)"
    "used < target \<Longrightarrow> next_base_fee fee used target =
      max (max fee EX_MIN_BASE_FEE - u64_mul (max fee EX_MIN_BASE_FEE) (target - used) div target div 8) 1"
    "next_base_fee fee target target = max fee EX_MIN_BASE_FEE"
proof -
  have "1 \<le> u64_sat_add (max fee EX_MIN_BASE_FEE) d" for d by (simp add: u64_sat_add_def EX_MIN_BASE_FEE_def U64_MAX_def)
  then have up: "max (u64_sat_add (max fee EX_MIN_BASE_FEE) d) EX_MIN_BASE_FEE = u64_sat_add (max fee EX_MIN_BASE_FEE) d" for d
    by (simp add: EX_MIN_BASE_FEE_def max_absorb1)
  show "target < used \<Longrightarrow> next_base_fee fee used target =
      u64_sat_add (max fee EX_MIN_BASE_FEE) (max (u64_mul (max fee EX_MIN_BASE_FEE) (used - target) div target div 8) 1)"
    using assms by (simp only: next_base_fee_def Let_def up ELASTICITY_DENOM_def if_True if_False less_not_refl2 not_less0 less_irrefl)
  show "used < target \<Longrightarrow> next_base_fee fee used target =
      max (max fee EX_MIN_BASE_FEE - u64_mul (max fee EX_MIN_BASE_FEE) (target - used) div target div 8) 1"
    using assms by (simp add: next_base_fee_def Let_def ELASTICITY_DENOM_def u64_sat_sub_def EX_MIN_BASE_FEE_def)
  show "next_base_fee fee target target = max fee EX_MIN_BASE_FEE" using assms by (simp add: next_base_fee_def)
qed

lemma next_base_fee_side:
  assumes "0 < target" "fee < U64_MAX"
  shows "target < used \<Longrightarrow> max fee EX_MIN_BASE_FEE < next_base_fee fee used target"
    "used < target \<Longrightarrow> next_base_fee fee used target \<le> max fee EX_MIN_BASE_FEE"
proof -
  have cur: "1 \<le> max fee EX_MIN_BASE_FEE" "max fee EX_MIN_BASE_FEE < U64_MAX" using assms(2) by (simp_all add: EX_MIN_BASE_FEE_def U64_MAX_def)
  show "target < used \<Longrightarrow> max fee EX_MIN_BASE_FEE < next_base_fee fee used target"
    unfolding next_base_fee_cases(1) [OF assms(1)] using cur by (simp add: u64_sat_add_def)
  show "used < target \<Longrightarrow> next_base_fee fee used target \<le> max fee EX_MIN_BASE_FEE"
    unfolding next_base_fee_cases(2) [OF assms(1)] using cur by simp
qed

lemma next_base_fee_mono:
  assumes "0 < target" "fee < U64_MAX" "used \<le> used'" "max fee EX_MIN_BASE_FEE * max used' target < 2 ^ 64"
  shows "next_base_fee fee used target \<le> next_base_fee fee used' target"
proof -
  let ?cur = "max fee EX_MIN_BASE_FEE"
  have exact: "u64_mul ?cur d = ?cur * d" if "d \<le> max used' target" for d
    using mult_le_mono2 [OF that, of ?cur] assms(4) by (intro u64_mul_exact) linarith
  consider "target < used" | "used' < target" | "used \<le> target \<and> target \<le> used'" by linarith
  then show ?thesis
  proof cases
    case 1
    have "?cur * (used - target) div target div 8 \<le> ?cur * (used' - target) div target div 8"
      using assms(3) by (intro div_le_mono mult_le_mono2 diff_le_mono)
    then have "u64_mul ?cur (used - target) div target div 8 \<le> u64_mul ?cur (used' - target) div target div 8"
      using assms(3) by (simp only: exact le_diff_conv max.coboundedI1 trans_le_add1)
    moreover have "u64_sat_add ?cur (max x 1) \<le> u64_sat_add ?cur (max y 1)" if "x \<le> y" for x y
      using that by (auto simp: u64_sat_add_def)
    ultimately show ?thesis
      unfolding next_base_fee_cases(1) [OF assms(1) 1] next_base_fee_cases(1) [OF assms(1) less_le_trans [OF 1 assms(3)]] by blast
  next
    case 2
    have "?cur * (target - used') div target div 8 \<le> ?cur * (target - used) div target div 8"
      using assms(3) by (intro div_le_mono mult_le_mono2 diff_le_mono2)
    then show ?thesis using 2 assms(3) unfolding next_base_fee_cases(2) [OF assms(1) 2] next_base_fee_cases(2) [OF assms(1) le_less_trans [OF assms(3) 2]]
      by (simp add: exact diff_le_mono2 max.coboundedI1)
  next
    case 3
    have "next_base_fee fee used target \<le> ?cur" "?cur \<le> next_base_fee fee used' target"
      using 3 next_base_fee_side [OF assms(1,2)] next_base_fee_cases(3) [OF assms(1), of fee] by (metis le_less order_refl)+
    then show ?thesis by (rule order_trans)
  qed
qed

text \<open>
  C32. The base fee follows the usage of the blocks. For a fee below the largest 64-bit number and a target above zero, the next fee is never
  below the minimum; it rises when the block is above its target, stays (at least at the minimum) when it meets it, and does
  not rise when it is below. While the product of the fee with the target fits in 64 bits, an empty block lowers a fee of
  eight or more; while the products with the target and the usage fit, more usage never gives a lower fee.
\<close>

theorem next_base_fee_follows_usage:
  assumes "0 < target" "fee < U64_MAX"
  shows "EX_MIN_BASE_FEE \<le> next_base_fee fee used target \<and>
    (target < used \<longrightarrow> max fee EX_MIN_BASE_FEE < next_base_fee fee used target) \<and>
    (used = target \<longrightarrow> next_base_fee fee used target = max fee EX_MIN_BASE_FEE) \<and>
    (used < target \<longrightarrow> next_base_fee fee used target \<le> max fee EX_MIN_BASE_FEE) \<and>
    (8 \<le> fee \<and> fee * target < 2 ^ 64 \<longrightarrow> next_base_fee fee 0 target < fee) \<and>
    (used \<le> used' \<and> max fee EX_MIN_BASE_FEE * max used' target < 2 ^ 64 \<longrightarrow>
      next_base_fee fee used target \<le> next_base_fee fee used' target)"
proof -
  have "EX_MIN_BASE_FEE \<le> next_base_fee fee used target" by (simp add: next_base_fee_def Let_def)
  moreover have "next_base_fee fee 0 target < fee" if "8 \<le> fee" "fee * target < 2 ^ 64"
  proof -
    have "max fee EX_MIN_BASE_FEE = fee" using that(1) by (simp add: EX_MIN_BASE_FEE_def)
    then have "next_base_fee fee 0 target = max (fee - fee div 8) 1"
      using next_base_fee_cases(2) [OF assms(1,1), of fee] assms(1) that(2) by (simp add: u64_mul_exact)
    moreover have "0 < fee div 8" using that(1) by (simp add: div_greater_zero_iff)
    ultimately show ?thesis using that(1) by simp
  qed
  ultimately show ?thesis
    using next_base_fee_side [OF assms] next_base_fee_cases(3) [OF assms(1)] next_base_fee_mono [OF assms] by blast
qed

text \<open>
  The base fee moves as in EIP-1559: while the product of fee and target fits in 64 bits and a block uses
  at most twice its target, the fee moves by at most an eighth (and rises by at least one when the block is over
  target); it never falls below the minimum, rises exactly with usage above the target and never rises with
  usage below it.
\<close>

theorem next_base_fee_bounds:
  assumes "EX_MIN_BASE_FEE \<le> fee" "0 < target" "used \<le> 2 * target" "fee * target < 2 ^ 64" "fee + fee div 8 + 1 \<le> U64_MAX"
  shows "EX_MIN_BASE_FEE \<le> next_base_fee fee used target \<and>
    fee - fee div 8 \<le> next_base_fee fee used target \<and> next_base_fee fee used target \<le> fee + max (fee div 8) 1 \<and>
    (used > target \<longleftrightarrow> next_base_fee fee used target > fee)"
proof -
  have part: "u64_mul fee d div target div 8 \<le> fee div 8" if "d \<le> target" for d
  proof -
    have "fee * d \<le> fee * target" using that by simp
    then have "u64_mul fee d = fee * d" using assms(4) by (intro u64_mul_exact) linarith
    moreover have "fee * d div target \<le> fee"
      using div_le_mono [OF \<open>fee * d \<le> fee * target\<close>, of target] assms(2) by simp
    ultimately show ?thesis by (simp add: div_le_mono)
  qed
  have fee: "max fee EX_MIN_BASE_FEE = fee" "1 \<le> fee" using assms(1) by (simp_all add: EX_MIN_BASE_FEE_def)
  show ?thesis
  proof (cases "used > target")
    case True
    define d where "d = max (u64_mul fee (used - target) div target div 8) 1"
    have d: "d \<le> max (fee div 8) 1" "1 \<le> d"
      using part [of "used - target"] assms(3) by (simp_all add: d_def max.coboundedI1)
    then have "u64_sat_add fee d = fee + d" using assms(5) by (intro u64_sat_add_exact) linarith
    then have "next_base_fee fee used target = max (fee + d) EX_MIN_BASE_FEE"
      using True assms(2) by (simp only: next_base_fee_def Let_def fee(1) ELASTICITY_DENOM_def d_def if_True if_False less_not_refl2 not_less0)
    then have "next_base_fee fee used target = fee + d" using fee(2) by (simp add: EX_MIN_BASE_FEE_def)
    with True d fee(2) show ?thesis by (simp add: EX_MIN_BASE_FEE_def)
  next
    case False
    define d where "d = u64_mul fee (target - used) div target div 8"
    have d: "d \<le> fee div 8" unfolding d_def by (rule part) simp
    have "next_base_fee fee used target = (if used = target then fee else max (fee - d) 1)"
      using False assms(2) fee(2)
      by (simp add: next_base_fee_def Let_def ELASTICITY_DENOM_def d_def EX_MIN_BASE_FEE_def u64_sat_sub_def max_def)
    with False d fee(2) show ?thesis by (auto simp: EX_MIN_BASE_FEE_def)
  qed
qed

section \<open>The state root\<close>

text \<open>
  The state root does not determine the state: keys and values are concatenated without their lengths, so
  moving bytes from the front of a value to the end of its key gives a different store with the same root,
  whatever the hash function.
\<close>

theorem state_root_ambiguous:
  assumes "x \<noteq> []"
  shows "compute_state_root env (st\<lparr>st_kv := pre @ (k @ x, v) # post\<rparr>) =
      compute_state_root env (st\<lparr>st_kv := pre @ (k, x @ v) # post\<rparr>) \<and>
    st\<lparr>st_kv := pre @ (k @ x, v) # post\<rparr> \<noteq> st\<lparr>st_kv := pre @ (k, x @ v) # post\<rparr>"
proof -
  have "st_kv (st\<lparr>st_kv := pre @ (k @ x, v) # post\<rparr>) \<noteq> st_kv (st\<lparr>st_kv := pre @ (k, x @ v) # post\<rparr>)"
    using assms by simp
  then have "st\<lparr>st_kv := pre @ (k @ x, v) # post\<rparr> \<noteq> st\<lparr>st_kv := pre @ (k, x @ v) # post\<rparr>" by metis
  then show ?thesis by (simp add: compute_state_root_def)
qed

section \<open>The total supply\<close>

definition total_supply :: "kv_state \<Rightarrow> nat" where
  "total_supply st = sum_list (map snd (balances st)) + burned st"

lemma balances_sum_insert:
  assumes "bt_sorted (balances st)"
  shows "sum_list (map snd (bt_insert a v (balances st))) + balance_of st a = sum_list (map snd (balances st)) + v"
  using bt.sum_ins [OF assms, of snd a v] by (simp add: balance_of_def split: option.splits)

lemma balance_le_supply: "bt_sorted (balances st) \<Longrightarrow> balance_of st a + burned st \<le> total_supply st"
  using balances_sum_insert [of st a 0] by (simp add: total_supply_def)

lemma supply_credit:
  assumes "bt_sorted (balances st)" "total_supply st + v < 2 ^ 64"
  shows "total_supply (credit a v st) = total_supply st + v" "bt_sorted (balances (credit a v st))"
proof -
  have "balance_of st a + v < 2 ^ 64" using balance_le_supply [OF assms(1), of a] assms(2) by linarith
  then have "u64_add (balance_of st a) v = balance_of st a + v" by (rule u64_add_exact)
  then show "total_supply (credit a v st) = total_supply st + v"
    using balances_sum_insert [OF assms(1), of a "balance_of st a + v"] by (simp add: total_supply_def credit_def)
  show "bt_sorted (balances (credit a v st))" using assms(1) by (simp add: credit_def bt_sorted_insert)
qed

lemma effective_split:
  assumes "base \<le> max_fee" "max_fee < 2 ^ 64"
  obtains tip where "effective_prices base max_fee prio = (base + tip, base, tip)" "base + tip \<le> max_fee"
proof
  let ?t = "min prio (max_fee - base)"
  show "base + ?t \<le> max_fee" using assms(1) by simp
  then have "u64_add base ?t = base + ?t" using assms(2) by (intro u64_add_exact) linarith
  then show "effective_prices base max_fee prio = (base + ?t, base, ?t)"
    by (simp add: effective_prices_def u64_sat_sub_def Let_def)
qed

lemma charge_fee_supply:
  assumes "bt_sorted (balances st)" "effective_prices base (tx_max_fee tx) (tx_max_priority tx) = (base + tip, base, tip)"
    "intrinsic_gas tx * (base + tip) \<le> balance_of st a" "total_supply st < 2 ^ 64"
  shows "total_supply (charge_fee tx base a pr st) = total_supply st" "bt_sorted (balances (charge_fee tx base a pr st))"
proof -
  let ?i = "intrinsic_gas tx" let ?cost = "?i * (base + tip)"
  let ?s1 = "st\<lparr>balances := bt_insert a (balance_of st a - ?cost) (balances st)\<rparr>"
  let ?s2 = "?s1\<lparr>burned := burned st + ?i * base\<rparr>"
  have le: "balance_of st a + burned st \<le> total_supply st" by (rule balance_le_supply [OF assms(1)])
  have cost: "?cost = ?i * base + ?i * tip" by (simp add: distrib_left)
  have small: "?cost < 2 ^ 64" "?i * base < 2 ^ 64" "?i * tip < 2 ^ 64" "balance_of st a < 2 ^ 64" "burned st + ?i * base < 2 ^ 64"
    using le assms(3,4) cost by linarith+
  note exact = u64_mul_exact [OF small(1)] u64_mul_exact [OF small(2)] u64_mul_exact [OF small(3)]
    u64_sub_exact [OF assms(3) small(4)] u64_add_exact [OF small(5)]
  have s2: "bt_sorted (balances ?s2)" "total_supply ?s2 + ?i * tip = total_supply st"
    using assms(1,3) balances_sum_insert [OF assms(1), of a "balance_of st a - ?cost"] cost
    by (auto simp: total_supply_def bt_sorted_insert)
  have charge: "charge_fee tx base a pr st =
      credit pr (?i * tip) ?s2\<lparr>nonces := bt_insert a (u64_add (nonce_of st a) 1) (nonces st)\<rparr>"
    by (simp add: charge_fee_def assms(2) Let_def exact)
  have "total_supply (credit pr (?i * tip) ?s2) = total_supply st" "bt_sorted (balances (credit pr (?i * tip) ?s2))"
    using supply_credit [OF s2(1), of "?i * tip" pr] s2(2) assms(4) by simp_all
  then show "total_supply (charge_fee tx base a pr st) = total_supply st" "bt_sorted (balances (charge_fee tx base a pr st))"
    by (simp_all add: charge total_supply_def)
qed

text \<open>
  C39. Transactions create money: the gas limit is never paid for in advance, yet the unused part is
  refunded. A key-value transaction that executes, with amounts that fit in 64 bits, raises the total of
  balances and burned fees by the unused gas times the price.
\<close>

theorem refund_mints:
  assumes "fst (apply_tx env c st tx base pr m) = Ok (r, st')" "\<not> starts_with EVM_PREFIX (tx_payload tx)"
    "bt_sorted (balances st)" "total_supply st + tx_gas_limit tx * tx_max_fee tx < 2 ^ 64" "tx_max_fee tx < 2 ^ 64"
  shows "total_supply st' = total_supply st + (tx_gas_limit tx - intrinsic_gas tx) * er_effective_gas_price r"
proof -
  let ?i = "intrinsic_gas tx"
  obtain a where a: "sender env c tx = Ok a" "check_tx c st tx base a = Ok ()" using assms(1) by (rule apply_tx_Ok)
  then have base: "base \<le> tx_max_fee tx" "?i \<le> tx_gas_limit tx"
    by (auto simp: check_tx_def Let_def split: if_splits prod.splits)
  obtain tip where tip: "effective_prices base (tx_max_fee tx) (tx_max_priority tx) = (base + tip, base, tip)"
      "base + tip \<le> tx_max_fee tx"
    using effective_split [OF base(1) assms(5)] by metis
  have le: "x * (base + tip) \<le> tx_gas_limit tx * tx_max_fee tx" if "x \<le> tx_gas_limit tx" for x
    using that tip(2) by (rule mult_le_mono)
  have cost: "u64_mul x (base + tip) = x * (base + tip)" if "x \<le> tx_gas_limit tx" for x
    using le [OF that] assms(4) by (intro u64_mul_exact) linarith
  have paid: "?i * (base + tip) \<le> balance_of st a"
    using a(2) cost [OF base(2)] tip(1) by (auto simp: check_tx_def Let_def split: if_splits)
  let ?s = "charge_fee tx base a pr st"
  have s: "total_supply ?s = total_supply st" "bt_sorted (balances ?s)"
    using charge_fee_supply [OF assms(3) tip(1) paid] assms(4) by simp_all
  obtain ok kv where payload: "run_payload env c tx base ?s = ((ok, [], 0), ?s\<lparr>st_kv := kv\<rparr>)"
    using assms(2) by (cases "fst (apply_kv_payload (tx_payload tx) (st_kv ?s))") (auto simp: run_payload_def split_def)
  let ?k = "?s\<lparr>st_kv := kv\<rparr>" let ?refund = "tx_gas_limit tx - ?i"
  have used: "u64_add ?i 0 = ?i" using base(2) by (simp add: intrinsic_gas_def u64_add_def)
  have st': "st' = (if ?refund > 0 then credit a (?refund * (base + tip)) ?k else ?k)"
    and price: "er_effective_gas_price r = base + tip"
    using assms(1) a payload tip(1) cost [of ?refund] by (auto simp: apply_tx_def Let_def used u64_sat_sub_def)
  have k: "bt_sorted (balances ?k)" "total_supply ?k = total_supply st" using s by (simp_all add: total_supply_def)
  have "total_supply ?k + ?refund * (base + tip) < 2 ^ 64" using le [of ?refund] k(2) assms(4) by simp
  then have "total_supply (credit a (?refund * (base + tip)) ?k) = total_supply st + ?refund * (base + tip)"
    using supply_credit(1) [OF k(1)] k(2) by simp
  with st' price k(2) show ?thesis by simp
qed

section \<open>Witnesses\<close>

text \<open>A node without signature checks that derives one address, and a transaction of that address.\<close>

definition plain_env :: "unit exec_env" where
  "plain_env = \<lparr>xe_derive_address = (\<lambda>_. ''alice''), xe_sign_bytes = tx_payload, xe_verify = (\<lambda>_ _ _. Ok ()),
     xe_tx_hash = tx_payload, xe_blake3 = (\<lambda>bs. bs), xe_hex = (\<lambda>_. []), xe_receipt_bytes = (\<lambda>_. None),
     xe_decode_evm = (\<lambda>_. None), xe_run_evm = (\<lambda>st _ _ _ _ _ _. (\<lparr>evm_success = True, evm_gas = 0, return_data = []\<rparr>, st)),
     xe_protocol_version = 1\<rparr>"

definition plain_tx :: exec_tx where
  "plain_tx = \<lparr>tx_pubkey = [], tx_from = ''alice'', tx_nonce = 0, tx_max_fee = 1, tx_max_priority = 0,
     tx_gas_limit = 30000, tx_payload = [], tx_signature = [], tx_chain_id = DEFAULT_CHAIN_ID\<rparr>"

definition plain_state :: kv_state where
  "plain_state = \<lparr>st_kv = [], balances = [(''alice'', 50000)], nonces = [], burned = 0\<rparr>"

lemma plain_apply:
  obtains r st' where "fst (apply_tx plain_env test_exec_config plain_state plain_tx 1 ''bob'' m) = Ok (r, st')"
    "er_effective_gas_price r = 1"
  by (simp add: apply_tx_def sender_def check_tx_def run_payload_def starts_with_def EVM_PREFIX_def ascii_def
      plain_env_def plain_tx_def plain_state_def test_exec_config_def default_exec_config_def effective_prices_def
      nonce_of_def balance_of_def intrinsic_gas_def INTRINSIC_GAS_def u64_add_def u64_mul_def u64_sat_sub_def
      apply_kv_payload_def Let_def split_def split: sum.splits option.splits)

theorem refund_mints_witness:
  "\<exists>r st'. fst (apply_tx plain_env test_exec_config plain_state plain_tx 1 ''bob'' zero_exec_metrics) = Ok (r, st') \<and>
    total_supply st' = total_supply plain_state + 9000"
proof -
  obtain r st' where run: "fst (apply_tx plain_env test_exec_config plain_state plain_tx 1 ''bob'' zero_exec_metrics) = Ok (r, st')"
      "er_effective_gas_price r = 1" by (rule plain_apply)
  have hyps: "\<not> starts_with EVM_PREFIX (tx_payload plain_tx)" "bt_sorted (balances plain_state)"
    "total_supply plain_state + tx_gas_limit plain_tx * tx_max_fee plain_tx < 2 ^ 64" "tx_max_fee plain_tx < 2 ^ 64"
    "tx_gas_limit plain_tx - intrinsic_gas plain_tx = 9000"
    by (simp_all add: starts_with_def EVM_PREFIX_def ascii_def plain_tx_def plain_state_def total_supply_def bt_sorted_def
        intrinsic_gas_def INTRINSIC_GAS_def u64_add_def u64_mul_def)
  have "total_supply st' = total_supply plain_state + 9000"
    using refund_mints [OF run(1) hyps(1-4)] by (simp only: hyps(5) run(2) mult_1_right)
  with run(1) show ?thesis by blast
qed

lemma plain_keeps_nonces: "evm_keeps_nonces plain_env"
  by (simp add: evm_keeps_nonces_def plain_env_def)

lemma plain_sequence:
  obtains res where "fst (apply_txs plain_env test_exec_config 1 ''bob'' [plain_tx] 0 [] plain_state m) = Ok res"
proof -
  obtain r st' where "fst (apply_tx plain_env test_exec_config plain_state plain_tx 1 ''bob'' m) = Ok (r, st')"
    by (rule plain_apply)
  with that show thesis by (cases "apply_tx plain_env test_exec_config plain_state plain_tx 1 ''bob'' m") auto
qed

theorem no_replay_in_sequence_witness:
  "\<exists>res. fst (apply_txs plain_env test_exec_config 1 ''bob'' [plain_tx] 0 [] plain_state zero_exec_metrics) = Ok res \<and>
    distinct [plain_tx] \<and> (\<exists>a. sender plain_env test_exec_config plain_tx = Ok a \<and> nonce_of plain_state a \<le> tx_nonce plain_tx)"
proof -
  obtain res where run: "fst (apply_txs plain_env test_exec_config 1 ''bob'' [plain_tx] 0 [] plain_state zero_exec_metrics) = Ok res"
    by (rule plain_sequence)
  have "bt_sorted (nonces plain_state)" "\<forall>tx \<in> set [plain_tx]. tx_nonce tx < U64_MAX"
    by (simp_all add: plain_state_def plain_tx_def bt_sorted_def U64_MAX_def)
  from no_replay_in_sequence [OF run plain_keeps_nonces this] have "distinct [plain_tx]"
    "\<exists>a. sender plain_env test_exec_config plain_tx = Ok a \<and> nonce_of plain_state a \<le> tx_nonce plain_tx" by simp_all
  with run show ?thesis by blast
qed

theorem build_then_verify_witness:
  "\<exists>blk st' rs. fst (build_block plain_env test_exec_config 7 1 0 [] [9] ''bob'' plain_state 1 [plain_tx] zero_exec_metrics)
      = Ok (blk, st', rs) \<and>
    fst (verify_block plain_env test_exec_config plain_state blk [9] ''bob'' zero_exec_metrics) = Ok (st', rs)"
proof -
  obtain res where "fst (apply_txs plain_env test_exec_config 1 ''bob'' [plain_tx] 0 [] plain_state zero_exec_metrics) = Ok res"
    by (rule plain_sequence)
  then obtain blk st' rs where
    run: "fst (build_block plain_env test_exec_config 7 1 0 [] [9] ''bob'' plain_state 1 [plain_tx] zero_exec_metrics) = Ok (blk, st', rs)"
    by (auto simp: build_block_def split_def simp del: apply_txs.simps)
  from build_then_verify [OF run] run show ?thesis by blast
qed

theorem next_base_fee_follows_usage_witness:
  "next_base_fee 100 0 1000000 < 100 \<and> 100 < next_base_fee 100 2000000 1000000"
  using next_base_fee_follows_usage [of 1000000 100 0 0] next_base_fee_follows_usage [of 1000000 100 2000000 0]
  by (simp add: EX_MIN_BASE_FEE_def U64_MAX_def)

theorem next_base_fee_bounds_witness:
  "next_base_fee 100 0 1000000 = 88 \<and> next_base_fee 100 2000000 1000000 = 112 \<and>
    100 - 100 div 8 \<le> next_base_fee 100 0 1000000"
proof -
  have "100 - 100 div 8 \<le> next_base_fee 100 0 1000000"
    using next_base_fee_bounds [of 100 1000000 0] by (simp add: EX_MIN_BASE_FEE_def U64_MAX_def)
  then show ?thesis
    by (simp add: next_base_fee_def EX_MIN_BASE_FEE_def ELASTICITY_DENOM_def u64_mul_def u64_sat_sub_def u64_sat_add_def U64_MAX_def)
qed

theorem state_root_ambiguous_witness:
  "compute_state_root plain_env (plain_state\<lparr>st_kv := [([1, 2], [3])]\<rparr>) =
      compute_state_root plain_env (plain_state\<lparr>st_kv := [([1], [2, 3])]\<rparr>) \<and>
    plain_state\<lparr>st_kv := [([1, 2], [3])]\<rparr> \<noteq> plain_state\<lparr>st_kv := [([1], [2, 3])]\<rparr>"
  using state_root_ambiguous [where x = "[2]" and env = plain_env and st = plain_state and pre = "[]" and k = "[1]"
      and v = "[3]" and post = "[]"] by simp

end
