(* ===== verification/Kernel_Bridge.thy ===== *)
theory Kernel_Bridge
  imports Engine_Sample
begin

text \<open>
  The kernel's side of consensus: access to user memory (\<open>src/src/syscall/user_access.rs\<close>), the state
  the kernel shows (\<open>src/src/consensus/mod.rs\<close>) and the system call that commits a block (the end of
  \<open>src/src/consensus/engine.rs\<close>).

  User memory is a function from addresses to bytes; a page fault kills the task, so that a copy that
  returns has read mapped memory. The gauges of the kernel's metrics, the window flags and \<open>stac\<close>/\<open>clac\<close> are not modelled.
  \<open>advance_tick\<close> takes the consensus engine out of the global it locks: the fields it uses are those of
  \<open>Engine\<close>, not of the \<open>KernelConsensusState\<close> the global is declared with. The file it writes
  is returned as path and contents; the clock is an argument. The shared state's operations are
  sequential: a compare-and-exchange loop ends with its first exchange.
\<close>

section \<open>User memory\<close>

definition USER_SPACE_MAX :: nat where
  "USER_SPACE_MAX = 0x800000000000"

definition check_user_range :: "nat \<Rightarrow> nat \<Rightarrow> bool" where
  "check_user_range ptr len =
     (if ptr = 0 then False
      else if ptr \<ge> USER_SPACE_MAX then False
      else if len > 0 then ptr + len \<le> U64_MAX \<and> ptr + len \<le> USER_SPACE_MAX
      else True)"

type_synonym memory = "nat \<Rightarrow> u8"

definition read_mem :: "memory \<Rightarrow> nat \<Rightarrow> nat \<Rightarrow> bytes" where
  "read_mem mem a n = map (\<lambda>i. mem (a + i)) [0..<n]"

definition write_mem :: "memory \<Rightarrow> nat \<Rightarrow> bytes \<Rightarrow> memory" where
  "write_mem mem a bs = (\<lambda>x. if a \<le> x \<and> x < a + length bs then bs ! (x - a) else mem x)"

definition copy_from_user :: "memory \<Rightarrow> nat \<Rightarrow> nat \<Rightarrow> (string, bytes) result" where
  "copy_from_user mem n src =
     (if \<not> check_user_range src n then Err ''EFAULT: bad user pointer'' else Ok (read_mem mem src n))"

definition copy_to_user :: "memory \<Rightarrow> nat \<Rightarrow> bytes \<Rightarrow> (string, nat) result \<times> memory" where
  "copy_to_user mem dst src =
     (if \<not> check_user_range dst (length src) then (Err ''EFAULT: bad user pointer'', mem)
      else (Ok (length src), write_mem mem dst src))"

definition get_user_u64 :: "memory \<Rightarrow> nat \<Rightarrow> (string, nat) result" where
  "get_user_u64 mem addr = (if \<not> check_user_range addr 8 then Err ''EFAULT'' else Ok (from_le (read_mem mem addr 8)))"

definition put_user_u64 :: "memory \<Rightarrow> nat \<Rightarrow> nat \<Rightarrow> (string, unit) result \<times> memory" where
  "put_user_u64 mem addr v =
     (if \<not> check_user_range addr 8 then (Err ''EFAULT'', mem) else (Ok (), write_mem mem addr (to_le 8 v)))"

text \<open>The loop of \<open>copy_cstr_from_user\<close>: the bytes read, and the characters pushed.\<close>

fun cstr_loop :: "memory \<Rightarrow> nat \<Rightarrow> nat \<Rightarrow> bytes" where
  "cstr_loop mem a 0 = []"
| "cstr_loop mem a (Suc n) =
     (let b = mem a in if b = 0 then [] else if b < 0x80 then b # cstr_loop mem (u64_add a 1) n else [])"

definition copy_cstr_from_user :: "memory \<Rightarrow> nat \<Rightarrow> (string, bytes) result" where
  "copy_cstr_from_user mem ptr = (if \<not> check_user_range ptr 1 then Err ''EFAULT'' else Ok (cstr_loop mem ptr 4095))"

section \<open>The state the kernel shows\<close>

record kernel_consensus_state =
  kc_height :: nat
  kc_round :: nat
  kc_peers :: nat
  kc_validator_id :: nat
  kc_fast_quorum :: bool

definition default_kernel_state :: kernel_consensus_state where
  "default_kernel_state = \<lparr>kc_height = 1, kc_round = 0, kc_peers = 0, kc_validator_id = 0, kc_fast_quorum = True\<rparr>"

definition kc_set_height :: "nat \<Rightarrow> kernel_consensus_state \<Rightarrow> kernel_consensus_state" where
  "kc_set_height h s = (if h > kc_height s then s\<lparr>kc_height := h\<rparr> else s)"

definition kc_increment_height :: "kernel_consensus_state \<Rightarrow> nat \<times> kernel_consensus_state" where
  "kc_increment_height s = (u64_sat_add (kc_height s) 1, s\<lparr>kc_height := u64_add (kc_height s) 1\<rparr>)"

definition kc_reset_round :: "kernel_consensus_state \<Rightarrow> kernel_consensus_state" where
  "kc_reset_round s = s\<lparr>kc_round := 0\<rparr>"

definition kc_set_round :: "nat \<Rightarrow> kernel_consensus_state \<Rightarrow> kernel_consensus_state" where
  "kc_set_round r s = s\<lparr>kc_round := r\<rparr>"

definition kc_set_peers :: "nat \<Rightarrow> kernel_consensus_state \<Rightarrow> kernel_consensus_state" where
  "kc_set_peers n s = s\<lparr>kc_peers := n\<rparr>"

definition kc_set_validator_id :: "nat \<Rightarrow> kernel_consensus_state \<Rightarrow> kernel_consensus_state" where
  "kc_set_validator_id v s = s\<lparr>kc_validator_id := v\<rparr>"

definition commit_block :: "kernel_consensus_state option \<Rightarrow> nat \<times> kernel_consensus_state option" where
  "commit_block g =
     (case g of
        None \<Rightarrow> (0, None)
      | Some s \<Rightarrow> let (h, s1) = kc_increment_height s in (h, Some (kc_reset_round s1)))"

definition init_kernel_engine :: "nat \<Rightarrow> kernel_consensus_state option \<Rightarrow> kernel_consensus_state option" where
  "init_kernel_engine v g = map_option (kc_set_validator_id v) g"

definition update_peer_count :: "nat \<Rightarrow> kernel_consensus_state option \<Rightarrow> kernel_consensus_state option" where
  "update_peer_count n g = map_option (kc_set_peers n) g"

definition current_height :: "kernel_consensus_state option \<Rightarrow> nat" where
  "current_height g = (case g of Some s \<Rightarrow> kc_height s | None \<Rightarrow> 0)"

definition current_round :: "kernel_consensus_state option \<Rightarrow> nat" where
  "current_round g = (case g of Some s \<Rightarrow> kc_round s | None \<Rightarrow> 0)"

section \<open>Committing a block from user space\<close>

record kernel_commit_cert =
  kcc_height :: nat
  vote_count :: nat
  kcc_quorum :: nat
  votes_hash :: hash32
  valset_hash :: hash32

text \<open>The layout of the \<open>repr(C)\<close> struct: 80 bytes without padding.\<close>

definition cert_of_bytes :: "bytes \<Rightarrow> kernel_commit_cert" where
  "cert_of_bytes bs = \<lparr>kcc_height = from_le (take 8 bs), vote_count = from_le (take 4 (drop 8 bs)),
     kcc_quorum = from_le (take 4 (drop 12 bs)), votes_hash = take 32 (drop 16 bs), valset_hash = take 32 (drop 48 bs)\<rparr>"

definition load_commit_cert :: "memory \<Rightarrow> nat \<Rightarrow> kernel_commit_cert option" where
  "load_commit_cert mem ptr =
     (if ptr = 0 then None
      else if \<not> check_user_range ptr 80 then None
      else case copy_from_user mem 80 ptr of Inl _ \<Rightarrow> None | Inr bs \<Rightarrow> Some (cert_of_bytes bs))"

definition verify_commit_cert :: "kernel_commit_cert \<Rightarrow> nat \<Rightarrow> bool" where
  "verify_commit_cert cert expected_height =
     (if kcc_height cert \<noteq> expected_height then False
      else if kcc_quorum cert = 0 then False
      else vote_count cert \<ge> kcc_quorum cert)"

text \<open>Numbers in base \<open>b\<close>, padded with zeros to a width.\<close>

function digits :: "nat \<Rightarrow> nat \<Rightarrow> string" where
  "digits b n = (if n < b \<or> b < 2 then [''0123456789abcdef'' ! (n mod 16)]
     else digits b (n div b) @ [''0123456789abcdef'' ! (n mod b)])"
  by pat_completeness auto
termination
  by (relation "measure snd") (auto intro: div_less_dividend)

declare digits.simps [simp del]

definition padded :: "nat \<Rightarrow> nat \<Rightarrow> nat \<Rightarrow> string" where
  "padded b w n = replicate (w - length (digits b n)) (CHR ''0'') @ digits b n"

definition persist_committed_block :: "nat \<Rightarrow> nat \<Rightarrow> nat \<Rightarrow> nat \<Rightarrow> string \<times> string" where
  "persist_committed_block now h validator_id cert_votes =
     (''/var/iona-node/blocks/'' @ padded 10 10 h,
      ''{\"h\":'' @ digits 10 h @ '',\"ts\":'' @ digits 10 now @ '',\"val\":'' @ digits 10 validator_id @
      '',\"votes\":'' @ digits 10 cert_votes @ '',\"hash\":\"0x'' @ padded 16 4 (u64_mul h 1009 mod 0xFFFF) @
      padded 16 4 (u64_mul h 7919 mod 0xFFFF) @ ''\"}'')"

definition as_u32 :: "nat \<Rightarrow> nat" where
  "as_u32 n = n mod 2 ^ 32"

definition cert_committed :: "memory \<Rightarrow> nat \<Rightarrow> nat \<Rightarrow> validator_set \<Rightarrow> bool" where
  "cert_committed mem ptr h vset =
     (if ptr = 0 then as_u32 (total_power vset) \<ge> as_u32 (quorum_threshold (total_power vset))
      else case load_commit_cert mem ptr of Some cert \<Rightarrow> verify_commit_cert cert h | None \<Rightarrow> False)"

text \<open>The result, the engine and the file written.\<close>

definition advance_tick ::
    "memory \<Rightarrow> nat \<Rightarrow> nat \<Rightarrow> nat \<Rightarrow> nat \<Rightarrow> nat \<Rightarrow> 'kv engine option \<Rightarrow> nat \<times> 'kv engine option \<times> (string \<times> string) option" where
  "advance_tick mem now h r stp ptr g =
     (case g of
        None \<Rightarrow> (0, None, None)
      | Some e \<Rightarrow>
          if h \<noteq> cs_height (e_state e) then (0, Some e, None)
          else
            let e1 = e\<lparr>e_state := (e_state e)\<lparr>cs_round := as_u32 r\<rparr>\<rparr> in
            if stp \<noteq> 3 then (0, Some e1, None)
            else if total_power (e_vset e1) = 0 then (0, Some e1, None)
            else if cert_committed mem ptr h (e_vset e1) then
              let cert_votes = (if ptr = 0 then as_u32 (total_power (e_vset e1))
                    else case load_commit_cert mem ptr of Some cert \<Rightarrow> vote_count cert | None \<Rightarrow> as_u32 (total_power (e_vset e1)));
                  e2 = e1\<lparr>e_state := (e_state e1)\<lparr>cs_height := u64_sat_add (cs_height (e_state e1)) 1, cs_round := 0\<rparr>\<rparr>
              in (h, Some e2, Some (persist_committed_block now h 0 cert_votes))
            else (0, Some e1, None))"

section \<open>What user memory access guarantees\<close>

lemma check_user_range_iff: "check_user_range ptr len \<longleftrightarrow> 0 < ptr \<and> ptr < USER_SPACE_MAX \<and> ptr + len \<le> USER_SPACE_MAX"
  by (auto simp: check_user_range_def USER_SPACE_MAX_def U64_MAX_def)

lemma read_write_mem: "read_mem (write_mem mem a bs) a (length bs) = bs"
  by (rule nth_equalityI) (simp_all add: read_mem_def write_mem_def)

text \<open>
  Words written to user memory are read back, and nothing else changes: for any address, either both
  calls fail and memory is as before, or the word read is the word written, and every byte that
  changed is in the eight bytes at the address, below the end of user space.
\<close>

theorem user_u64_round_trip:
  assumes "v < 2 ^ 64" "put_user_u64 mem addr v = (r, mem')"
  shows "r = Err ''EFAULT'' \<and> mem' = mem \<and> get_user_u64 mem addr = Err ''EFAULT'' \<or>
    r = Ok () \<and> get_user_u64 mem' addr = Ok v \<and>
      (\<forall>x. mem' x \<noteq> mem x \<longrightarrow> addr \<le> x \<and> x < addr + 8 \<and> x < USER_SPACE_MAX)"
proof (cases "check_user_range addr 8")
  case True
  have "from_le (read_mem (write_mem mem addr (to_le 8 v)) addr 8) = v"
    using read_write_mem [of mem addr "to_le 8 v"] from_to_le [of v 8] assms(1) by simp
  moreover have "addr \<le> x \<and> x < addr + 8 \<and> x < USER_SPACE_MAX" if "write_mem mem addr (to_le 8 v) x \<noteq> mem x" for x
    using that True by (auto simp: write_mem_def check_user_range_iff split: if_splits)
  ultimately show ?thesis using True assms(2) by (auto simp: put_user_u64_def get_user_u64_def)
qed (use assms(2) in \<open>auto simp: put_user_u64_def get_user_u64_def\<close>)

theorem user_u64_round_trip_witness:
  "get_user_u64 (snd (put_user_u64 (\<lambda>_. 0) 0x1000 0x123456789)) 0x1000 = Ok 0x123456789"
proof -
  obtain r mem' where p: "put_user_u64 (\<lambda>_. 0) 0x1000 0x123456789 = (r, mem')" by (rule prod.exhaust)
  have "check_user_range 0x1000 8" by (simp add: check_user_range_iff USER_SPACE_MAX_def)
  then have "r = Ok ()" using p by (simp add: put_user_u64_def)
  then show ?thesis using user_u64_round_trip [OF _ p] p by simp
qed

text \<open>
  Reading a C string checks only the first byte and dereferences up to 4095 addresses: a string that starts
  at the last byte of user space and does not end there makes the kernel read addresses which the range
  check refuses.
\<close>

lemma cstr_loop_reads:
  "(\<forall>i < n. 0 < mem (a + i) \<and> mem (a + i) < 0x80) \<Longrightarrow> a + n < 2 ^ 64 \<Longrightarrow> cstr_loop mem a n = read_mem mem a n"
proof (induction n arbitrary: a)
  case (Suc n)
  have "0 < mem (a + 1 + i) \<and> mem (a + 1 + i) < 0x80" if "i < n" for i
    using Suc.prems(1) [rule_format, of "Suc i"] that by simp
  then have "cstr_loop mem (a + 1) n = read_mem mem (a + 1) n" using Suc.prems(2) by (intro Suc.IH) auto
  moreover have "u64_add a 1 = a + 1" using Suc.prems(2) by (intro u64_add_exact) simp
  moreover have "0 < mem a" "mem a < 0x80" using Suc.prems(1) [rule_format, of 0] by simp_all
  moreover have "read_mem mem a (Suc n) = mem a # read_mem mem (a + 1) n"
    by (simp add: read_mem_def upt_conv_Cons map_Suc_upt [symmetric] del: upt_Suc)
  ultimately show ?case by (simp add: Let_def)
qed (simp add: read_mem_def)

lemma cstr_crosses_user_limit:
  assumes "\<forall>i < 4095. 0 < mem (USER_SPACE_MAX - 1 + i) \<and> mem (USER_SPACE_MAX - 1 + i) < 0x80"
  shows "\<exists>s. copy_cstr_from_user mem (USER_SPACE_MAX - 1) = Ok s \<and> length s = 4095 \<and>
    (\<forall>j < 4094. s ! Suc j = mem (USER_SPACE_MAX + j))"
proof -
  have "cstr_loop mem (USER_SPACE_MAX - 1) 4095 = read_mem mem (USER_SPACE_MAX - 1) 4095"
    using assms by (rule cstr_loop_reads) (simp add: USER_SPACE_MAX_def)
  moreover have "check_user_range (USER_SPACE_MAX - 1) 1" by (simp add: check_user_range_iff USER_SPACE_MAX_def)
  ultimately have "copy_cstr_from_user mem (USER_SPACE_MAX - 1) = Ok (read_mem mem (USER_SPACE_MAX - 1) 4095)"
    by (simp add: copy_cstr_from_user_def)
  moreover have "USER_SPACE_MAX - 1 + Suc j = USER_SPACE_MAX + j" for j by (simp add: USER_SPACE_MAX_def)
  then have "read_mem mem (USER_SPACE_MAX - 1) 4095 ! Suc j = mem (USER_SPACE_MAX + j)" if "j < 4094" for j
    using that by (simp add: read_mem_def)
  ultimately show ?thesis by (auto simp: read_mem_def)
qed

section \<open>What the commit call guarantees\<close>

lemma quorum_below_total: "0 < tot \<Longrightarrow> tot < 2 ^ 32 \<Longrightarrow> quorum_threshold tot \<le> tot \<and> quorum_threshold tot < 2 ^ 32"
  by (auto simp: quorum_threshold_def u64_mul_def u64_add_def)

text \<open>
  C37. A block can be committed without votes: with a null certificate the call compares the total power with
  the quorum of the total power, which always holds. For any engine with validators whose total power fits in
  32 bits, the call commits the current height and moves to the next one; the decision and the votes of the
  old height stay, so an engine that had decided ignores every vote from then on.
\<close>

theorem commit_without_votes:
  assumes "cs_height (e_state e) = h" "h < U64_MAX" "0 < total_power (e_vset e)" "total_power (e_vset e) < 2 ^ 32"
  shows "\<exists>e' f. advance_tick mem now h r 3 0 (Some e) = (h, Some e', Some f) \<and> cs_height (e_state e') = h + 1 \<and>
    (decided (e_state e) \<noteq> None \<longrightarrow> (\<forall>w v. w_engine w = e' \<longrightarrow> on_vote env v w = Some (Ok (), w)))"
proof -
  let ?e = "e\<lparr>e_state := (e_state e)\<lparr>cs_height := h + 1, cs_round := 0\<rparr>\<rparr>"
  have "cert_committed mem 0 h (e_vset e)"
    using quorum_below_total [OF assms(3,4)] assms(4) by (simp add: cert_committed_def as_u32_def)
  moreover have "u64_sat_add h 1 = h + 1" using assms(2) by (simp add: u64_sat_add_def)
  ultimately have "advance_tick mem now h r 3 0 (Some e) =
      (h, Some ?e, Some (persist_committed_block now h 0 (as_u32 (total_power (e_vset e)))))" (is "_ = (_, _, Some ?f)")
    using assms(1,3) by (simp add: advance_tick_def Let_def)
  moreover have "cs_height (e_state ?e) = h + 1" by simp
  moreover have "decided (e_state e) \<noteq> None \<longrightarrow> (\<forall>w v. w_engine w = ?e \<longrightarrow> on_vote env v w = Some (Ok (), w))"
    by (simp add: on_vote_def)
  ultimately show ?thesis by (intro exI [of _ ?e] exI [of _ ?f] conjI)
qed

theorem commit_without_votes_witness:
  "\<exists>e' f. advance_tick (\<lambda>_. 0) 7 4 0 3 0 (Some (solo_engine None)) = (4, Some e', Some f) \<and> cs_height (e_state e') = 5"
  using commit_without_votes [of "solo_engine None" 4 "\<lambda>_. 0" 7 0 "solo_env []"]
  by (auto simp: solo_engine_eq solo_vset_def state_new_def U64_MAX_def)

end
