(* ===== verification/Futex.thy ===== *)
theory Futex
  imports Wait_Queue
begin

text \<open>
  Futexes (\<open>src/src/process/futex/mod.rs\<close>): wait, wake, requeue and the system call that dispatches
  them. \<open>futex_wait\<close> blocks in the middle, so it is two definitions around \<open>block_current\<close>:
  \<open>futex_wait_begin\<close>, the critical section that compares and enqueues with the condition it then blocks
  on, and \<open>futex_wait_resume\<close>, what runs after the wake-up. The queues are a map from addresses to
  the waiting tasks; the operations return the tasks they call \<open>wake_task\<close> on, in order. The memory the
  futex words are in is an argument; a null pointer is the only address the code refuses. Fences, the
  unused \<open>locked\<close> flag and the ignored \<open>private\<close> flag and bit set are left out.
\<close>

unbundle bit_operations_syntax

definition MAX_WAKE_COUNT :: nat where
  "MAX_WAKE_COUNT = 1024"

datatype futex_error = FE_Again | FE_TimedOut | FE_InvalidArgument | FE_PermissionDenied | FE_BadAddress
  | FE_Interrupted | FE_ResourceUnavailable


type_synonym futex_queues = "(nat \<times> nat list) list"

section \<open>Waiting\<close>

text \<open>\<open>entry(addr).or_insert_with(WaitQueue::new)\<close> and \<open>push\<close>.\<close>

definition fq_push :: "nat \<Rightarrow> nat list \<Rightarrow> futex_queues \<Rightarrow> futex_queues" where
  "fq_push addr ks qs = bt_insert addr ((case bt_get qs addr of Some ws \<Rightarrow> ws | None \<Rightarrow> []) @ ks) qs"

definition futex_load :: "(nat \<Rightarrow> nat) \<Rightarrow> nat \<Rightarrow> (futex_error, nat) result" where
  "futex_load mem addr = (if addr = 0 then Err FE_BadAddress else Ok (mem addr))"

definition futex_condition :: "nat \<Rightarrow> nat option \<Rightarrow> wake_condition" where
  "futex_condition now timeout = (case timeout of Some d \<Rightarrow> WC_Timer (u64_add now d) | None \<Rightarrow> WC_Any)"

definition futex_wait_begin ::
    "(nat \<Rightarrow> nat) \<Rightarrow> nat \<Rightarrow> nat \<Rightarrow> nat \<Rightarrow> nat \<Rightarrow> nat option \<Rightarrow> futex_queues \<Rightarrow>
      (futex_error, wake_condition) result \<times> futex_queues" where
  "futex_wait_begin mem now k addr expected timeout qs =
     (case futex_load mem addr of
        Inl err \<Rightarrow> (Err err, qs)
      | Inr actual \<Rightarrow>
          if actual \<noteq> expected then (Err FE_Again, qs)
          else (Ok (futex_condition now timeout), fq_push addr [k] qs))"

text \<open>\<open>WaitQueue::remove\<close> only looks the task up.\<close>

definition fq_remove :: "nat \<Rightarrow> nat list \<Rightarrow> nat option" where
  "fq_remove k ws = position (\<lambda>t. t = k) ws"

definition futex_wait_resume :: "nat \<Rightarrow> nat \<Rightarrow> futex_queues \<Rightarrow> (futex_error, unit) result \<times> futex_queues" where
  "futex_wait_resume k addr qs =
     (case bt_get qs addr of
        None \<Rightarrow> (Ok (), qs)
      | Some ws \<Rightarrow>
          (case fq_remove k ws of
             None \<Rightarrow> (Ok (), qs)
           | Some _ \<Rightarrow> (Err FE_TimedOut, if ws = [] then bt_remove addr qs else qs)))"

section \<open>Waking and requeueing\<close>

text \<open>What a queue becomes after a drain: removed from the map when it is empty.\<close>

definition fq_rest :: "nat \<Rightarrow> nat list \<Rightarrow> futex_queues \<Rightarrow> futex_queues" where
  "fq_rest addr ws qs = (if ws = [] then bt_remove addr qs else bt_insert addr ws qs)"

definition futex_wake :: "nat \<Rightarrow> nat \<Rightarrow> futex_queues \<Rightarrow> (futex_error, nat) result \<times> nat list \<times> futex_queues" where
  "futex_wake addr n qs =
     (case bt_get qs addr of
        None \<Rightarrow> (Ok 0, [], qs)
      | Some ws \<Rightarrow>
          if ws = [] then (Ok 0, [], bt_remove addr qs)
          else
            let c = (if n = 0 then length ws else min (min n MAX_WAKE_COUNT) (length ws))
            in (Ok (length (take c ws)), take c ws, fq_rest addr (drop c ws) qs))"



section \<open>The system call\<close>

record futex_metrics =
  fm_waits :: nat
  fm_wakes :: nat
  fm_requeues :: nat
  fm_cmp_requeues :: nat
  fm_timeouts :: nat
  fm_errors :: nat

record futex_state =
  fx_queues :: futex_queues
  fx_metrics :: futex_metrics


definition fx_meter :: "(futex_metrics \<Rightarrow> futex_metrics) \<Rightarrow> futex_state \<Rightarrow> futex_state" where
  "fx_meter f st = st\<lparr>fx_metrics := f (fx_metrics st)\<rparr>"






section \<open>Waiters are neither lost nor duplicated\<close>











lemma get_rest: "bt_sorted qs \<Longrightarrow> bt_get (fq_rest addr ws qs) a = (if a = addr then if ws = [] then None else Some ws else bt_get qs a)"
  by (simp add: fq_rest_def bt.get_ins bt.get_del)







lemma fx_meter_queues [simp]: "fx_queues (fx_meter f st) = fx_queues st"
  by (simp add: fx_meter_def)








section \<open>Waiters that have left\<close>

text \<open>
  A wait that times out stays in the queue, because \<open>WaitQueue::remove\<close> only returns the position.
  The next wake of one waiter reports success but wakes the task that has left: the task that waits
  then sleeps until its own timeout, whatever timer interrupts come before.
\<close>

theorem futex_wakes_departed_waiter:
  assumes "bt_sorted qs" "bt_get qs addr = None" "addr \<noteq> 0" "mem addr = v" "j \<noteq> k"
    "futex_wait_begin mem now k addr v tm qs = (r1, qs1)" "futex_wait_resume k addr qs1 = (r2, qs2)"
    "futex_wait_begin mem now2 j addr v (Some d) qs2 = (r3, qs3)" "futex_wake addr 1 qs3 = (r4, ks, qs4)"
    "stranded (u64_add now2 d) j (wq, s)" "\<forall>env \<in> set envs. uptime env < u64_add now2 d"
  shows "r2 = Err FE_TimedOut \<and> r3 = Ok (WC_Timer (u64_add now2 d)) \<and> r4 = Ok 1 \<and> ks = [k] \<and> bt_get qs4 addr = Some [j] \<and>
    current_tid (snd (fold timer_interrupt envs (wq, wake_all ks s))) \<noteq> Some j"
proof -
  have q1: "qs1 = bt_insert addr [k] qs"
    using assms(2,3,4,6) by (simp add: futex_wait_begin_def futex_load_def fq_push_def)
  have r2: "r2 = Err FE_TimedOut" "qs2 = qs1"
    using assms(1,7) by (simp_all add: futex_wait_resume_def q1 bt.get_ins fq_remove_def)
  have q3: "r3 = Ok (WC_Timer (u64_add now2 d))" "qs3 = bt_insert addr [k, j] qs1"
    using assms(1,3,4,8) by (simp_all add: futex_wait_begin_def futex_load_def futex_condition_def fq_push_def r2(2) q1 bt.get_ins)
  have "bt_sorted qs3" "bt_get qs3 addr = Some [k, j]" using assms(1) by (simp_all add: q3 q1 bt_sorted_insert bt.get_ins)
  then have r4: "r4 = Ok 1" "ks = [k]" "bt_get qs4 addr = Some [j]"
    using assms(9) by (auto simp: futex_wake_def Let_def MAX_WAKE_COUNT_def fq_rest_def bt.get_ins)
  have "sched_ok (wake_all ks s)" using wake_all_keeps [of s ks] assms(10) by (simp add: same_tasks_def stranded_def)
  moreover have "bt_get (blocked (wake_all ks s)) j \<noteq> None"
    using assms(5,10) by (intro wake_all_blocked) (auto simp: r4(2) stranded_def sched_ok_def)
  ultimately have "stranded (u64_add now2 d) j (wq, wake_all ks s)" using assms(10) by (simp add: stranded_def)
  from stranded_forever [OF this assms(11)] show ?thesis using r2 q3 r4 by simp
qed

section \<open>Witnesses\<close>



theorem futex_wakes_departed_waiter_witness:
  "\<exists>qs4. futex_wake 64 1 [(64, [7, 0])] = (Ok 1, [7], qs4) \<and>
    current_tid (snd (fold timer_interrupt [] ([], wake_all [7] (block_current_task (sample_sched []))))) \<noteq> Some 0"
proof -
  have st: "stranded (u64_add 0 9) 0 ([], block_current_task (sample_sched []))"
    using block_current_task_stranded [OF sample_sched_ok sample_sched_current(1), of "[]"]
    by (simp only: sample_sched_current(2)) simp
  obtain r1 q1 where c1: "futex_wait_begin (\<lambda>_. 5) 0 7 64 5 (Some 1) [] = (r1, q1)" by (rule prod.exhaust)
  obtain r2 q2 where c2: "futex_wait_resume 7 64 q1 = (r2, q2)" by (rule prod.exhaust)
  obtain r3 q3 where c3: "futex_wait_begin (\<lambda>_. 5) 0 0 64 5 (Some 9) q2 = (r3, q3)" by (rule prod.exhaust)
  obtain r4 ks q4 where c4: "futex_wake 64 1 q3 = (r4, ks, q4)" by (rule prod_cases3)
  have "q3 = [(64, [7, 0])]" using c1 c2 c3
    by (auto simp: futex_wait_begin_def futex_load_def fq_push_def futex_wait_resume_def fq_remove_def)
  with c4 futex_wakes_departed_waiter [OF _ _ _ _ _ c1 c2 c3 c4 st, of "[]"] show ?thesis by auto
qed

end
