(* ===== verification/Frame_Alloc.thy ===== *)
theory Frame_Alloc
  imports Iona_Prelude
begin

text \<open>
  The physical frame allocator (\<open>src/src/memory/frame_alloc.rs\<close>): the bitmap with one bit per frame, set when
  the frame is used, the reference counts for copy-on-write, and the allocator over both. A frame is
  its physical start address. The boot loader's memory map is a list of regions with a flag for usable
  ones; the statics with the counts and the heap flag are fields of the allocator's state. The legacy
  functions forward to these operations on the one global allocator; locks and logging are left out.
\<close>

unbundle bit_operations_syntax

section \<open>The bitmap\<close>

definition PAGE_SIZE :: nat where "PAGE_SIZE = 4096"
definition MAX_FRAMES :: nat where "MAX_FRAMES = 524288"
definition BITMAP_SIZE :: nat where "BITMAP_SIZE = MAX_FRAMES div 64"

record frame_config =
  fc_max_frames :: nat
  enable_refcounting :: bool
  fc_collect_metrics :: bool
  log_allocations :: bool
  log_frees :: bool
  reserve_first_mib :: bool

datatype frame_error = OutOfFrames | InvalidFrameIndex nat nat | AlreadyFree | RefcountUnderflow nat
  | NotInitialised | FrameConfigError string

definition phys_frame_from_index :: "nat \<Rightarrow> nat" where
  "phys_frame_from_index idx = idx * PAGE_SIZE"

definition phys_frame_to_index :: "nat \<Rightarrow> nat" where
  "phys_frame_to_index frame = frame div PAGE_SIZE"

record raw_bitmap =
  bitmap :: "64 word list"
  next_hint :: nat
  total_frames :: nat
  used_frames :: nat
  max_frames :: nat

definition raw_new :: raw_bitmap where
  "raw_new = \<lparr>bitmap = replicate BITMAP_SIZE 0, next_hint = 0, total_frames = 0, used_frames = 0, max_frames = MAX_FRAMES\<rparr>"

definition with_max_frames :: "nat \<Rightarrow> raw_bitmap" where
  "with_max_frames n = raw_new\<lparr>max_frames := min n MAX_FRAMES\<rparr>"

definition mark_free :: "nat \<Rightarrow> raw_bitmap \<Rightarrow> raw_bitmap" where
  "mark_free frame b =
     (if frame \<ge> max_frames b then b
      else let i = frame div 64; j = frame mod 64
        in if i < BITMAP_SIZE then b\<lparr>bitmap := (bitmap b)[i := bitmap b ! i AND NOT (push_bit j 1)]\<rparr> else b)"

definition mark_used :: "nat \<Rightarrow> raw_bitmap \<Rightarrow> raw_bitmap" where
  "mark_used frame b =
     (if frame \<ge> max_frames b then b
      else let i = frame div 64; j = frame mod 64
        in if i < BITMAP_SIZE then b\<lparr>bitmap := (bitmap b)[i := bitmap b ! i OR push_bit j 1]\<rparr> else b)"

definition is_free :: "raw_bitmap \<Rightarrow> nat \<Rightarrow> bool" where
  "is_free b frame =
     (if frame \<ge> max_frames b then False
      else let i = frame div 64; j = frame mod 64 in i < BITMAP_SIZE \<and> drop_bit j (bitmap b ! i) AND 1 = 0)"

record memory_region =
  usable :: bool
  region_start :: nat
  region_end :: nat

text \<open>The frames below the limit of the usable regions, in the order the loop visits them.\<close>

definition usable_frames :: "nat \<Rightarrow> memory_region list \<Rightarrow> nat list" where
  "usable_frames lim rs =
     concat (map (\<lambda>r. if usable r then filter (\<lambda>i. i < lim) [region_start r div PAGE_SIZE..<region_end r div PAGE_SIZE] else []) rs)"

definition raw_init :: "memory_region list \<Rightarrow> frame_config \<Rightarrow> raw_bitmap \<Rightarrow> raw_bitmap" where
  "raw_init rs cfg b =
     (let b1 = b\<lparr>bitmap := replicate BITMAP_SIZE (NOT 0)\<rparr>;
          us = usable_frames (max_frames b1) rs;
          b2 = fold mark_free us b1;
          b3 = (if reserve_first_mib cfg
                then fold mark_used (filter (\<lambda>i. i < max_frames b2) [0..<0x100000 div PAGE_SIZE]) b2 else b2)
      in b3\<lparr>total_frames := length us, next_hint := (if reserve_first_mib cfg then 256 else 0)\<rparr>)"

text \<open>The two searches of \<open>alloc_frame\<close>, from the hint to the number of frames and from 0 to the hint.\<close>

definition alloc_frame :: "raw_bitmap \<Rightarrow> nat option \<times> raw_bitmap" where
  "alloc_frame b =
     (case find (is_free b) ([next_hint b..<total_frames b] @ [0..<next_hint b]) of
        None \<Rightarrow> (None, b)
      | Some i \<Rightarrow>
          (Some (phys_frame_from_index i),
           (mark_used i b)\<lparr>used_frames := u64_add (used_frames b) 1, next_hint := i + 1\<rparr>))"

definition raw_free_frame :: "nat \<Rightarrow> raw_bitmap \<Rightarrow> raw_bitmap" where
  "raw_free_frame frame b =
     (let idx = phys_frame_to_index frame
      in if idx < max_frames b then
           let b1 = (mark_free idx b)\<lparr>used_frames := u64_sat_sub (used_frames b) 1\<rparr>
           in if idx < next_hint b1 then b1\<lparr>next_hint := idx\<rparr> else b1
         else b)"

definition raw_free_frames :: "raw_bitmap \<Rightarrow> nat" where
  "raw_free_frames b = u64_sat_sub (total_frames b) (used_frames b)"

definition raw_reset :: "raw_bitmap \<Rightarrow> raw_bitmap" where
  "raw_reset b = b\<lparr>bitmap := replicate BITMAP_SIZE (NOT 0), total_frames := 0, used_frames := 0, next_hint := 0\<rparr>"

section \<open>Reference counts and the allocator\<close>

record frame_metrics =
  fr_allocations :: nat
  fr_frees :: nat
  fr_allocation_failures :: nat
  fr_refcount_incs :: nat
  fr_refcount_decs :: nat
  fr_oom_events :: nat
  fr_total_frames :: nat
  fr_free_frames :: nat

record frame_allocator =
  fa_bitmap :: raw_bitmap
  fa_config :: frame_config
  fa_metrics :: frame_metrics
  fa_initialised :: bool
  refcounts :: "nat list"
  heap_ready :: bool

definition default_frame_config :: frame_config where
  "default_frame_config = \<lparr>fc_max_frames = MAX_FRAMES, enable_refcounting = True, fc_collect_metrics = True,
     log_allocations = False, log_frees = False, reserve_first_mib = True\<rparr>"

text \<open>The constructor panics for a limit of zero.\<close>

definition frame_allocator_new :: "frame_config \<Rightarrow> frame_allocator option" where
  "frame_allocator_new cfg =
     (if fc_max_frames cfg = 0 then None
      else Some \<lparr>fa_bitmap = with_max_frames (fc_max_frames cfg), fa_config = cfg,
        fa_metrics = \<lparr>fr_allocations = 0, fr_frees = 0, fr_allocation_failures = 0, fr_refcount_incs = 0, fr_refcount_decs = 0,
          fr_oom_events = 0, fr_total_frames = 0, fr_free_frames = 0\<rparr>,
        fa_initialised = False, refcounts = [], heap_ready = False\<rparr>)"

definition fr_meter :: "(frame_metrics \<Rightarrow> frame_metrics) \<Rightarrow> frame_allocator \<Rightarrow> frame_allocator" where
  "fr_meter f a = a\<lparr>fa_metrics := f (fa_metrics a)\<rparr>"

definition frames_init :: "memory_region list \<Rightarrow> frame_allocator \<Rightarrow> frame_allocator" where
  "frames_init rs a =
     (let b = raw_init rs (fa_config a) (fa_bitmap a)
      in fr_meter (\<lambda>m. m\<lparr>fr_total_frames := total_frames b, fr_free_frames := u64_sub (total_frames b) (used_frames b)\<rparr>)
           (a\<lparr>fa_bitmap := b, fa_initialised := True\<rparr>))"

definition mark_heap_ready :: "frame_allocator \<Rightarrow> frame_allocator" where
  "mark_heap_ready a = a\<lparr>refcounts := replicate (min (max_frames (fa_bitmap a)) MAX_FRAMES) 0, heap_ready := True\<rparr>"

definition allocate_one :: "frame_allocator \<Rightarrow> (frame_error, nat) result \<times> frame_allocator" where
  "allocate_one a =
     (if \<not> fa_initialised a then (Err NotInitialised, a)
      else
        case alloc_frame (fa_bitmap a) of
          (None, b) \<Rightarrow> (Err OutOfFrames,
            fr_meter (\<lambda>m. m\<lparr>fr_allocation_failures := u64_add (fr_allocation_failures m) 1,
              fr_oom_events := u64_add (fr_oom_events m) 1\<rparr>) (a\<lparr>fa_bitmap := b\<rparr>))
        | (Some frame, b) \<Rightarrow>
            let a1 = fr_meter (\<lambda>m. m\<lparr>fr_allocations := u64_add (fr_allocations m) 1\<rparr>) (a\<lparr>fa_bitmap := b\<rparr>);
                idx = phys_frame_to_index frame
            in (Ok frame,
                if heap_ready a1 \<and> idx < length (refcounts a1)
                then fr_meter (\<lambda>m. m\<lparr>fr_refcount_incs := u64_add (fr_refcount_incs m) 1\<rparr>)
                  (a1\<lparr>refcounts := (refcounts a1)[idx := 1]\<rparr>)
                else a1))"

text \<open>\<open>refcount::dec_ref\<close> on the state that holds the counts.\<close>

definition dec_ref :: "nat \<Rightarrow> frame_allocator \<Rightarrow> (frame_error, unit) result \<times> frame_allocator" where
  "dec_ref frame a =
     (if \<not> heap_ready a then (Ok (), a\<lparr>fa_bitmap := raw_free_frame frame (fa_bitmap a)\<rparr>)
      else
        let idx = phys_frame_to_index frame; rc = refcounts a
        in if idx \<ge> length rc then (Err (InvalidFrameIndex idx (length rc)), a)
           else if rc ! idx = 0 then (Err (RefcountUnderflow frame), a)
           else
             let a1 = a\<lparr>refcounts := rc[idx := rc ! idx - 1]\<rparr>
             in (Ok (), if refcounts a1 ! idx = 0 then a1\<lparr>fa_bitmap := raw_free_frame frame (fa_bitmap a1)\<rparr> else a1))"

definition free_frame :: "nat \<Rightarrow> frame_allocator \<Rightarrow> (frame_error, unit) result \<times> frame_allocator" where
  "free_frame frame a =
     (if \<not> fa_initialised a then (Err NotInitialised, a)
      else dec_ref frame (fr_meter (\<lambda>m. m\<lparr>fr_frees := u64_add (fr_frees m) 1\<rparr>) a))"

definition inc_ref :: "nat \<Rightarrow> frame_allocator \<Rightarrow> (frame_error, unit) result \<times> frame_allocator" where
  "inc_ref frame a =
     (let count_inc = fr_meter (\<lambda>m. m\<lparr>fr_refcount_incs := u64_add (fr_refcount_incs m) 1\<rparr>)
      in if \<not> heap_ready a then (Ok (), count_inc a)
         else
           let idx = phys_frame_to_index frame; rc = refcounts a
           in if idx \<ge> length rc then (Err (InvalidFrameIndex idx (length rc)), a)
              else (Ok (), count_inc (a\<lparr>refcounts := rc[idx := (rc ! idx + 1) mod 2 ^ 32]\<rparr>)))"

definition get_ref :: "frame_allocator \<Rightarrow> nat \<Rightarrow> nat" where
  "get_ref a frame =
     (if \<not> heap_ready a then 0
      else let idx = phys_frame_to_index frame in if idx < length (refcounts a) then refcounts a ! idx else 0)"

end
