(* ===== verification/Frame_Safety.thy ===== *)
theory Frame_Safety
  imports Frame_Alloc
begin

text \<open>
  What the frame allocator guarantees. The bitmap implements a set of free frames: the locale
  \<open>frame_set\<close> is the contract, with the lemmas about marking many frames, and its interpretation
  \<open>raw\<close> shows that the word operations keep it. On top of it, over any run of the allocator: a frame
  is handed out only when nobody holds a reference to it, and which frames are never handed out.
\<close>

section \<open>Sets of free frames\<close>

locale frame_set =
  fixes wf :: "'b \<Rightarrow> bool"
    and free :: "'b \<Rightarrow> nat \<Rightarrow> bool"
    and put :: "nat \<Rightarrow> 'b \<Rightarrow> 'b"
    and get :: "nat \<Rightarrow> 'b \<Rightarrow> 'b"
    and limit :: "'b \<Rightarrow> nat"
  assumes wf_put: "wf b \<Longrightarrow> wf (put i b)"
    and wf_get: "wf b \<Longrightarrow> wf (get i b)"
    and limit_put: "limit (put i b) = limit b"
    and limit_get: "limit (get i b) = limit b"
    and free_put: "wf b \<Longrightarrow> free (put i b) j \<longleftrightarrow> free b j \<or> j = i \<and> i < limit b"
    and free_get: "wf b \<Longrightarrow> free (get i b) j \<longleftrightarrow> free b j \<and> j \<noteq> i"
begin

lemma fold_put: "wf b \<Longrightarrow> wf (fold put is b) \<and> limit (fold put is b) = limit b \<and>
    (free (fold put is b) j \<longleftrightarrow> free b j \<or> j \<in> set is \<and> j < limit b)"
  by (induction "is" arbitrary: b) (auto simp: wf_put limit_put free_put)

lemma fold_get: "wf b \<Longrightarrow> wf (fold get is b) \<and> limit (fold get is b) = limit b \<and>
    (free (fold get is b) j \<longleftrightarrow> free b j \<and> j \<notin> set is)"
  by (induction "is" arbitrary: b) (auto simp: wf_get limit_get free_get)

end

definition raw_wf :: "raw_bitmap \<Rightarrow> bool" where
  "raw_wf b \<longleftrightarrow> length (bitmap b) = BITMAP_SIZE \<and> max_frames b \<le> MAX_FRAMES"

lemma word_index_bound: "raw_wf b \<Longrightarrow> f < max_frames b \<Longrightarrow> f div 64 < BITMAP_SIZE"
  by (auto simp: raw_wf_def BITMAP_SIZE_def MAX_FRAMES_def)

lemma is_free_iff: "raw_wf b \<Longrightarrow> is_free b f \<longleftrightarrow> f < max_frames b \<and> \<not> bit (bitmap b ! (f div 64)) (f mod 64)"
  using word_index_bound [of b f]
  by (auto simp: is_free_def Let_def bit_iff_odd_drop_bit and_one_eq even_iff_mod_2_eq_zero)

lemma same_bit_iff: "(f :: nat) div 64 = g div 64 \<and> f mod 64 = g mod 64 \<longleftrightarrow> f = g"
  by (metis div_mult_mod_eq)

lemma mark_eq:
  assumes "raw_wf b" "i < max_frames b"
  shows "mark_free i b = b\<lparr>bitmap := (bitmap b)[i div 64 := bitmap b ! (i div 64) AND NOT (push_bit (i mod 64) 1)]\<rparr>"
    "mark_used i b = b\<lparr>bitmap := (bitmap b)[i div 64 := bitmap b ! (i div 64) OR push_bit (i mod 64) 1]\<rparr>"
  using assms word_index_bound [OF assms] by (simp_all add: mark_free_def mark_used_def Let_def)

lemma mark_sel [simp]:
  "max_frames (mark_free i b) = max_frames b" "max_frames (mark_used i b) = max_frames b"
  "next_hint (mark_free i b) = next_hint b" "next_hint (mark_used i b) = next_hint b"
  "total_frames (mark_free i b) = total_frames b" "total_frames (mark_used i b) = total_frames b"
  by (simp_all add: mark_free_def mark_used_def Let_def)

lemma mark_beyond: "max_frames b \<le> i \<Longrightarrow> mark_free i b = b" "max_frames b \<le> i \<Longrightarrow> mark_used i b = b"
  by (simp_all add: mark_free_def mark_used_def)

lemma raw_wf_update [simp]: "raw_wf (b\<lparr>bitmap := (bitmap b)[i := w]\<rparr>) = raw_wf b"
  by (simp add: raw_wf_def)

lemma mark_wf: "raw_wf b \<Longrightarrow> raw_wf (mark_free i b)" "raw_wf b \<Longrightarrow> raw_wf (mark_used i b)"
  by (simp_all add: raw_wf_def mark_free_def mark_used_def Let_def)

lemma is_free_mark_free:
  assumes "raw_wf b"
  shows "is_free (mark_free i b) j \<longleftrightarrow> is_free b j \<or> j = i \<and> i < max_frames b"
proof (cases "i < max_frames b \<and> j < max_frames b")
  case True
  have len: "i div 64 < length (bitmap b)" "j div 64 < length (bitmap b)"
    using True assms word_index_bound [OF assms] by (simp_all add: raw_wf_def)
  have "bit (w AND NOT (push_bit (i mod 64) 1)) (j mod 64) \<longleftrightarrow> bit w (j mod 64) \<and> j mod 64 \<noteq> i mod 64" for w :: "64 word"
    by (auto simp: bit_and_iff bit_not_iff bit_exp_iff)
  then have "is_free (mark_free i b) j \<longleftrightarrow> is_free b j \<or> i div 64 = j div 64 \<and> i mod 64 = j mod 64"
    using True assms len by (cases "i div 64 = j div 64") (auto simp: is_free_iff mark_wf mark_eq)
  then show ?thesis using True unfolding same_bit_iff by auto
qed (use assms in \<open>auto simp: is_free_iff mark_wf mark_beyond not_less\<close>)

lemma is_free_mark_used:
  assumes "raw_wf b"
  shows "is_free (mark_used i b) j \<longleftrightarrow> is_free b j \<and> j \<noteq> i"
proof (cases "i < max_frames b \<and> j < max_frames b")
  case True
  have len: "i div 64 < length (bitmap b)" "j div 64 < length (bitmap b)"
    using True assms word_index_bound [OF assms] by (simp_all add: raw_wf_def)
  have "bit (w OR push_bit (i mod 64) 1) (j mod 64) \<longleftrightarrow> bit w (j mod 64) \<or> j mod 64 = i mod 64" for w :: "64 word"
    by (auto simp: bit_or_iff bit_exp_iff)
  from this [of "bitmap b ! (j div 64)"] have "is_free (mark_used i b) j \<longleftrightarrow> is_free b j \<and> \<not> (i div 64 = j div 64 \<and> i mod 64 = j mod 64)"
    using True assms len by (cases "i div 64 = j div 64") (auto simp: is_free_iff mark_wf mark_eq)
  then show ?thesis unfolding same_bit_iff by blast
next
  case False
  show ?thesis
  proof (cases "i < max_frames b")
    case True
    with False assms show ?thesis by (simp add: is_free_iff mark_wf)
  qed (use assms in \<open>auto simp: is_free_iff mark_beyond not_less\<close>)
qed

interpretation raw: frame_set raw_wf is_free mark_free mark_used max_frames
  by unfold_locales (simp_all add: mark_wf is_free_mark_free is_free_mark_used)

section \<open>Runs of the allocator\<close>

text \<open>
  A run after reference counting is switched on, with the number of calls and the references held: each
  allocation gives one, sharing adds one to a frame that is held, and releasing drops one. A release
  of a frame that nobody holds may occur too.
\<close>

inductive frame_run :: "frame_allocator \<Rightarrow> nat \<Rightarrow> (nat \<Rightarrow> nat) \<Rightarrow> frame_allocator \<Rightarrow> bool" for a0 where
  frame_start: "frame_run a0 0 (\<lambda>_. 0) a0"
| frame_allocated: "frame_run a0 n r a \<Longrightarrow> allocate_one a = (Ok f, a') \<Longrightarrow> frame_run a0 (Suc n) (r(f := Suc (r f))) a'"
| frame_exhausted: "frame_run a0 n r a \<Longrightarrow> allocate_one a = (Err e, a') \<Longrightarrow> frame_run a0 (Suc n) r a'"
| frame_shared: "frame_run a0 n r a \<Longrightarrow> 0 < r f \<Longrightarrow> inc_ref f a = (x, a') \<Longrightarrow> frame_run a0 (Suc n) (r(f := Suc (r f))) a'"
| frame_released: "frame_run a0 n r a \<Longrightarrow> f mod PAGE_SIZE = 0 \<Longrightarrow> free_frame f a = (x, a') \<Longrightarrow>
    frame_run a0 (Suc n) (r(f := r f - 1)) a'"

definition frames_ready :: "frame_allocator \<Rightarrow> bool" where
  "frames_ready a \<longleftrightarrow> raw_wf (fa_bitmap a) \<and> fa_initialised a \<and> heap_ready a \<and>
     length (refcounts a) = max_frames (fa_bitmap a)"

text \<open>The counts are the references held, at most \<open>n\<close> each, and held frames are not free.\<close>

definition frames_inv :: "nat \<Rightarrow> (nat \<Rightarrow> nat) \<Rightarrow> frame_allocator \<Rightarrow> bool" where
  "frames_inv n r a \<longleftrightarrow> frames_ready a \<and> (\<forall>i < max_frames (fa_bitmap a). refcounts a ! i = r (phys_frame_from_index i)) \<and>
     (\<forall>f. r f \<le> n \<and> (0 < r f \<longrightarrow> f = phys_frame_from_index (phys_frame_to_index f) \<and>
       phys_frame_to_index f < max_frames (fa_bitmap a) \<and> \<not> is_free (fa_bitmap a) (phys_frame_to_index f)))"

lemma index_frame [simp]: "phys_frame_to_index (phys_frame_from_index i) = i"
  by (simp add: phys_frame_to_index_def phys_frame_from_index_def PAGE_SIZE_def)

lemma frame_index: "f mod PAGE_SIZE = 0 \<Longrightarrow> phys_frame_from_index (phys_frame_to_index f) = f"
  by (auto simp: phys_frame_to_index_def phys_frame_from_index_def)

lemma frame_index_inj [simp]: "phys_frame_from_index i = phys_frame_from_index j \<longleftrightarrow> i = j"
  by (simp add: phys_frame_from_index_def PAGE_SIZE_def)

lemma fr_meter_sel [simp]:
  "fa_bitmap (fr_meter f a) = fa_bitmap a" "refcounts (fr_meter f a) = refcounts a" "heap_ready (fr_meter f a) = heap_ready a"
  "fa_initialised (fr_meter f a) = fa_initialised a"
  by (simp_all add: fr_meter_def)

lemma alloc_frame_some:
  assumes "alloc_frame b = (Some f, b')"
  obtains i where "f = phys_frame_from_index i" "is_free b i" "i < max (total_frames b) (next_hint b)"
    "b' = (mark_used i b)\<lparr>used_frames := u64_add (used_frames b) 1, next_hint := i + 1\<rparr>"
proof -
  obtain i where i: "find (is_free b) ([next_hint b..<total_frames b] @ [0..<next_hint b]) = Some i"
    using assms by (auto simp: alloc_frame_def split: option.splits)
  then have "is_free b i" "i \<in> set ([next_hint b..<total_frames b] @ [0..<next_hint b])"
    by (metis find_Some_iff nth_mem)+
  with i assms that [of i] show thesis by (auto simp: alloc_frame_def)
qed

lemma is_free_fields [simp]: "is_free (b\<lparr>used_frames := u, next_hint := h\<rparr>) = is_free b"
  by (simp add: is_free_def fun_eq_iff)

lemma raw_wf_fields [simp]: "raw_wf (b\<lparr>used_frames := u, next_hint := h\<rparr>) = raw_wf b"
  by (simp add: raw_wf_def)

lemma is_free_bound: "is_free b i \<Longrightarrow> i < max_frames b"
  by (auto simp: is_free_def split: if_splits)

lemma allocate_one_ok:
  assumes "frames_ready a" "allocate_one a = (Ok f, a')"
  obtains i where "f = phys_frame_from_index i" "is_free (fa_bitmap a) i" "i < max (total_frames (fa_bitmap a)) (next_hint (fa_bitmap a))"
    "fa_bitmap a' = (mark_used i (fa_bitmap a))\<lparr>used_frames := u64_add (used_frames (fa_bitmap a)) 1, next_hint := i + 1\<rparr>"
    "refcounts a' = (refcounts a)[i := 1]" "heap_ready a'" "fa_initialised a'"
proof -
  obtain b where b: "alloc_frame (fa_bitmap a) = (Some f, b)" "fa_bitmap a' = b"
    using assms by (auto simp: allocate_one_def frames_ready_def Let_def split: prod.splits option.splits if_splits)
  from b(1) obtain i where i: "f = phys_frame_from_index i" "is_free (fa_bitmap a) i"
      "i < max (total_frames (fa_bitmap a)) (next_hint (fa_bitmap a))"
      "b = (mark_used i (fa_bitmap a))\<lparr>used_frames := u64_add (used_frames (fa_bitmap a)) 1, next_hint := i + 1\<rparr>"
    by (rule alloc_frame_some)
  then have "refcounts a' = (refcounts a)[i := 1] \<and> heap_ready a' \<and> fa_initialised a'"
    using assms b is_free_bound [OF i(2)] by (auto simp: allocate_one_def frames_ready_def Let_def split: if_splits)
  with that i b(2) show thesis by simp
qed

lemma allocated_inv:
  assumes "frames_inv n r a" "allocate_one a = (Ok f, a')"
  shows "r f = 0 \<and> frames_inv (Suc n) (r(f := Suc (r f))) a'"
proof -
  have rd: "frames_ready a" using assms(1) by (simp add: frames_inv_def)
  from rd assms(2) obtain i where i: "f = phys_frame_from_index i" "is_free (fa_bitmap a) i"
    "fa_bitmap a' = (mark_used i (fa_bitmap a))\<lparr>used_frames := u64_add (used_frames (fa_bitmap a)) 1, next_hint := i + 1\<rparr>"
    "refcounts a' = (refcounts a)[i := 1]" "heap_ready a'" "fa_initialised a'"
    by (rule allocate_one_ok)
  have bound: "i < max_frames (fa_bitmap a)" using i(2) by (rule is_free_bound)
  have "r f = 0" using assms(1) i(1,2) unfolding frames_inv_def by (metis index_frame not_gr_zero)
  moreover have "frames_ready a'" using rd i(3-6) by (simp add: frames_ready_def mark_wf)
  moreover have "raw_wf (fa_bitmap a)" using rd by (simp add: frames_ready_def)
  ultimately show ?thesis using assms(1) i bound rd
    by (auto simp: frames_inv_def frames_ready_def raw.free_get nth_list_update le_Suc_eq)
qed

lemma exhausted_same:
  assumes "allocate_one a = (Err e, a')"
  shows "fa_bitmap a' = fa_bitmap a \<and> refcounts a' = refcounts a \<and> heap_ready a' = heap_ready a \<and> fa_initialised a' = fa_initialised a"
proof -
  have "b = fa_bitmap a" if "alloc_frame (fa_bitmap a) = (None, b)" for b
    using that by (auto simp: alloc_frame_def split: option.splits)
  then show ?thesis using assms by (auto simp: allocate_one_def Let_def split: prod.splits option.splits if_splits)
qed

lemma frames_inv_cong:
  assumes "fa_bitmap a' = fa_bitmap a" "refcounts a' = refcounts a" "heap_ready a' = heap_ready a" "fa_initialised a' = fa_initialised a"
    "frames_inv n r a"
  shows "frames_inv (Suc n) r a'"
  using assms by (auto simp: frames_inv_def frames_ready_def le_SucI)

lemma shared_inv:
  assumes "frames_inv n r a" "0 < r f" "inc_ref f a = (x, a')" "Suc n < 2 ^ 32"
  shows "frames_inv (Suc n) (r(f := Suc (r f))) a'"
proof -
  let ?i = "phys_frame_to_index f"
  have f: "f = phys_frame_from_index ?i" "?i < max_frames (fa_bitmap a)" "r f \<le> n" "frames_ready a"
      "\<not> is_free (fa_bitmap a) ?i"
    using assms(1,2) by (simp_all add: frames_inv_def)
  then have "refcounts a ! ?i = r f" using assms(1) by (metis frames_inv_def)
  then have "refcounts a' = (refcounts a)[?i := Suc (r f)]" "fa_bitmap a' = fa_bitmap a" "heap_ready a'" "fa_initialised a'"
    using assms(3,4) f(2-4) by (auto simp: inc_ref_def Let_def frames_ready_def)
  moreover have "(r(f := Suc (r f))) (phys_frame_from_index j) = (if j = ?i then Suc (r f) else r (phys_frame_from_index j))" for j
    using f(1) by (metis fun_upd_apply index_frame)
  ultimately show ?thesis using assms(1) f unfolding frames_inv_def
    by (auto simp: nth_list_update frames_ready_def intro: le_SucI split: if_splits)
qed

lemma raw_free_frame_sel [simp]:
  "max_frames (raw_free_frame f b) = max_frames b" "total_frames (raw_free_frame f b) = total_frames b"
  "next_hint (raw_free_frame f b) \<le> next_hint b" "raw_wf b \<Longrightarrow> raw_wf (raw_free_frame f b)"
  using mark_wf(1) [of b "phys_frame_to_index f"] by (simp_all add: raw_free_frame_def Let_def raw_wf_def)

lemma is_free_raw_free_frame:
  "raw_wf b \<Longrightarrow> is_free (raw_free_frame f b) j \<longleftrightarrow> is_free b j \<or> j = phys_frame_to_index f \<and> j < max_frames b"
proof -
  assume "raw_wf b"
  moreover have "is_free (raw_free_frame f b) = (if phys_frame_to_index f < max_frames b then is_free (mark_free (phys_frame_to_index f) b) else is_free b)"
    by (simp add: raw_free_frame_def Let_def is_free_def fun_eq_iff)
  ultimately show ?thesis by (auto simp: raw.free_put)
qed

lemma stray_release:
  assumes "frames_inv n r a" "r f = 0" "f mod PAGE_SIZE = 0" "free_frame f a = (x, a')"
  shows "fa_bitmap a' = fa_bitmap a \<and> refcounts a' = refcounts a \<and> heap_ready a' = heap_ready a \<and> fa_initialised a' = fa_initialised a"
proof -
  have "refcounts a ! phys_frame_to_index f = 0" if "phys_frame_to_index f < max_frames (fa_bitmap a)"
    using assms(1-3) that frame_index [OF assms(3)] by (simp add: frames_inv_def)
  then show ?thesis using assms(1,4)
    by (auto simp: free_frame_def dec_ref_def Let_def frames_inv_def frames_ready_def split: if_splits)
qed

lemma release_state:
  assumes "frames_inv n r a" "0 < r f" "free_frame f a = (x, a')"
  defines "i \<equiv> phys_frame_to_index f"
  shows "refcounts a' = (refcounts a)[i := r f - 1]" "heap_ready a'" "fa_initialised a'"
    "fa_bitmap a' = (if r f = 1 then raw_free_frame f (fa_bitmap a) else fa_bitmap a)"
proof -
  have "i < max_frames (fa_bitmap a)" "refcounts a ! i = r f" "frames_ready a"
    using assms(1,2) by (auto simp: frames_inv_def i_def)
  then show "refcounts a' = (refcounts a)[i := r f - 1]" "heap_ready a'" "fa_initialised a'"
    "fa_bitmap a' = (if r f = 1 then raw_free_frame f (fa_bitmap a) else fa_bitmap a)"
    using assms(2,3) by (auto simp: free_frame_def dec_ref_def Let_def frames_ready_def i_def)
qed

lemma released_inv:
  assumes "frames_inv n r a" "0 < r f" "free_frame f a = (x, a')"
  shows "frames_inv (Suc n) (r(f := r f - 1)) a'"
proof -
  let ?i = "phys_frame_to_index f"
  have f: "f = phys_frame_from_index ?i" "?i < max_frames (fa_bitmap a)" "r f \<le> n" "frames_ready a"
    using assms(1,2) by (simp_all add: frames_inv_def)
  then have wf: "raw_wf (fa_bitmap a)" by (simp add: frames_ready_def)
  note st = release_state [OF assms]
  have upd: "(r(f := r f - 1)) (phys_frame_from_index j) = (if j = ?i then r f - 1 else r (phys_frame_from_index j))" for j
    using f(1) by (metis fun_upd_apply index_frame)
  have "max_frames (fa_bitmap a') = max_frames (fa_bitmap a)" "frames_ready a'"
    using st f(4) by (simp_all add: frames_ready_def)
  moreover have "\<not> is_free (fa_bitmap a') (phys_frame_to_index g)" if "0 < (r(f := r f - 1)) g" for g
  proof -
    have g: "0 < r g" "g = f \<Longrightarrow> 1 < r f" using that by (auto split: if_splits)
    then have "\<not> is_free (fa_bitmap a) (phys_frame_to_index g)" "g = phys_frame_from_index (phys_frame_to_index g)"
      using assms(1) by (simp_all add: frames_inv_def)
    then show ?thesis using f(1) g(2) by (auto simp: st(4) is_free_raw_free_frame [OF wf])
  qed
  moreover have "r f - 1 \<le> Suc n" using f(3) by simp
  ultimately show ?thesis using assms(1) f st(1) upd unfolding frames_inv_def
    by (auto simp: nth_list_update frames_ready_def intro: le_SucI split: if_splits)
qed

lemma frame_run_inv:
  assumes "frame_run a0 n r a" "frames_ready a0" "\<forall>c \<in> set (refcounts a0). c = 0" "n < 2 ^ 32"
  shows "frames_inv n r a"
  using assms
proof (induction rule: frame_run.induct)
  case frame_start
  then show ?case by (auto simp: frames_inv_def frames_ready_def)
next
  case (frame_exhausted n r a e a')
  then show ?case using exhausted_same [of a e a'] frames_inv_cong [of a' a n r] by simp
next
  case (frame_shared n r a f x a')
  then show ?case by (intro shared_inv) simp_all
next
  case (frame_released n r a f x a')
  then have inv: "frames_inv n r a" by simp
  show ?case
  proof (cases "r f = 0")
    case True
    then have "r(f := r f - 1) = r" by auto
    then show ?thesis using stray_release [OF inv True frame_released.hyps(2,3)] frames_inv_cong [OF _ _ _ _ inv, of a'] by simp
  next
    case False
    then have "0 < r f" by simp
    from released_inv [OF inv this frame_released.hyps(3)] show ?thesis .
  qed
qed (use allocated_inv in auto)

text \<open>A frame that was in use before the run gets no reference and is not freed.\<close>

lemma early_frames_stay:
  assumes "frame_run a0 n r a" "frames_ready a0" "\<forall>c \<in> set (refcounts a0). c = 0" "n < 2 ^ 32" "\<not> is_free (fa_bitmap a0) i"
  shows "r (phys_frame_from_index i) = 0 \<and> \<not> is_free (fa_bitmap a) i"
  using assms(1,4)
proof (induction rule: frame_run.induct)
  case (frame_allocated n r a f a')
  have inv: "frames_inv n r a" using frame_allocated.hyps(1) assms(2,3) frame_allocated.prems by (intro frame_run_inv) simp_all
  then have rd: "frames_ready a" by (simp add: frames_inv_def)
  from rd frame_allocated.hyps(2) obtain k where k: "f = phys_frame_from_index k" "is_free (fa_bitmap a) k"
    "fa_bitmap a' = (mark_used k (fa_bitmap a))\<lparr>used_frames := u64_add (used_frames (fa_bitmap a)) 1, next_hint := k + 1\<rparr>"
    by (rule allocate_one_ok)
  moreover have "raw_wf (fa_bitmap a)" using rd by (simp add: frames_ready_def)
  ultimately show ?case using frame_allocated.IH frame_allocated.prems by (auto simp: raw.free_get)
next
  case (frame_exhausted n r a e a')
  then show ?case using exhausted_same [of a e a'] by simp
next
  case (frame_shared n r a f x a')
  then have "fa_bitmap a' = fa_bitmap a" by (auto simp: inc_ref_def Let_def split: if_splits)
  with frame_shared show ?case by auto
next
  case (frame_released n r a f x a')
  have inv: "frames_inv n r a" using frame_released.hyps(1) assms(2,3) frame_released.prems by (intro frame_run_inv) simp_all
  have IH: "r (phys_frame_from_index i) = 0" "\<not> is_free (fa_bitmap a) i" using frame_released.IH frame_released.prems by simp_all
  show ?case
  proof (cases "r f = 0")
    case True
    with stray_release [OF inv True frame_released.hyps(2,3)] IH show ?thesis by simp
  next
    case False
    then have "f \<noteq> phys_frame_from_index i" "f = phys_frame_from_index (phys_frame_to_index f)" "raw_wf (fa_bitmap a)"
      using IH(1) inv by (auto simp: frames_inv_def frames_ready_def)
    with release_state(4) [OF inv _ frame_released.hyps(3)] False IH show ?thesis by (auto simp: is_free_raw_free_frame)
  qed
qed (use assms(5) in simp)

text \<open>
  C9. A frame is never handed out while it is in use. The run starts when reference counting has been switched on, with all counts
  zero, and has fewer than \<open>2 ^ 32\<close> calls, in which only frames held through the run are shared. The
  count of a frame is then the number of references taken during the run, a referenced frame is marked used, and an allocation
  returns a frame that has no reference. Frames that were in use before the run have no reference and stay marked used; in
  particular they are never handed out.
\<close>

theorem frames_handed_out_once:
  assumes "frames_ready a0" "\<forall>c \<in> set (refcounts a0). c = 0" "frame_run a0 n r a" "n < 2 ^ 32"
  shows "(\<forall>i < max_frames (fa_bitmap a). get_ref a (phys_frame_from_index i) = r (phys_frame_from_index i)) \<and>
    (\<forall>f. 0 < r f \<longrightarrow> \<not> is_free (fa_bitmap a) (phys_frame_to_index f)) \<and>
    (\<forall>f a'. allocate_one a = (Ok f, a') \<longrightarrow> r f = 0 \<and> get_ref a' f = 1) \<and>
    (\<forall>i. \<not> is_free (fa_bitmap a0) i \<longrightarrow> r (phys_frame_from_index i) = 0 \<and> \<not> is_free (fa_bitmap a) i)"
proof -
  have inv: "frames_inv n r a" using assms(3,1,2,4) by (rule frame_run_inv)
  have early: "\<forall>i. \<not> is_free (fa_bitmap a0) i \<longrightarrow> r (phys_frame_from_index i) = 0 \<and> \<not> is_free (fa_bitmap a) i"
    using early_frames_stay [OF assms(3,1,2,4)] by blast
  have "get_ref a' f = 1" if al: "allocate_one a = (Ok f, a')" for f a'
  proof -
    have rd: "frames_ready a" using inv by (simp add: frames_inv_def)
    then have "length (refcounts a) = max_frames (fa_bitmap a)" by (simp add: frames_ready_def)
    with rd al show ?thesis by - (rule allocate_one_ok, auto simp: get_ref_def Let_def dest: is_free_bound)
  qed
  then show ?thesis using inv allocated_inv [OF inv] early
    by (auto simp: frames_inv_def get_ref_def frames_ready_def Let_def)
qed

section \<open>Frames that are never handed out\<close>

lemma raw_init_wf: "raw_wf b \<Longrightarrow> raw_wf (raw_init rs cfg b) \<and> max_frames (raw_init rs cfg b) = max_frames b \<and>
    (is_free (raw_init rs cfg b) j \<longleftrightarrow> j \<in> set (usable_frames (max_frames b) rs) \<and> j < max_frames b \<and> (reserve_first_mib cfg \<longrightarrow> 256 \<le> j))"
proof -
  assume wf: "raw_wf b"
  define b1 where "b1 = b\<lparr>bitmap := replicate BITMAP_SIZE (NOT 0)\<rparr>"
  define b2 where "b2 = fold mark_free (usable_frames (max_frames b) rs) b1"
  define b3 where "b3 = (if reserve_first_mib cfg then fold mark_used (filter (\<lambda>i. i < max_frames b2) [0..<0x100000 div PAGE_SIZE]) b2 else b2)"
  have b1: "raw_wf b1" "max_frames b1 = max_frames b" using wf by (simp_all add: b1_def raw_wf_def)
  have none: "\<not> is_free b1 j" for j
    using word_index_bound [OF b1(1), of j] by (auto simp: is_free_iff [OF b1(1)]) (simp add: b1_def bit_minus_1_iff)
  have b2: "raw_wf b2" "max_frames b2 = max_frames b" "is_free b2 j \<longleftrightarrow> j \<in> set (usable_frames (max_frames b) rs) \<and> j < max_frames b" for j
    using raw.fold_put [OF b1(1)] b1(2) none by (simp_all add: b2_def)
  have "0x100000 div PAGE_SIZE = 256" by (simp add: PAGE_SIZE_def)
  then have reserved: "set [0..<0x100000 div PAGE_SIZE] = {0..<256}" by (simp only: set_upt)
  have b3: "raw_wf b3" "max_frames b3 = max_frames b" "is_free b3 j \<longleftrightarrow> is_free b2 j \<and> (reserve_first_mib cfg \<longrightarrow> 256 \<le> j)"
    using b2(1,2) is_free_bound [of b2 j] reserved raw.fold_get [OF b2(1), of "filter (\<lambda>i. i < max_frames b2) [0..<0x100000 div PAGE_SIZE]" j]
    by (auto simp: b3_def)
  have "raw_init rs cfg b = b3\<lparr>total_frames := length (usable_frames (max_frames b) rs), next_hint := (if reserve_first_mib cfg then 256 else 0)\<rparr>"
    by (simp add: raw_init_def Let_def b3_def b2_def b1_def)
  moreover have "raw_wf (b3\<lparr>total_frames := t, next_hint := h\<rparr>) = raw_wf b3" "is_free (b3\<lparr>total_frames := t, next_hint := h\<rparr>) = is_free b3" for t h
    by (simp_all add: raw_wf_def is_free_def fun_eq_iff)
  ultimately show ?thesis using b3 b2(3) [of j] by simp
qed

lemma raw_init_sel:
  "total_frames (raw_init rs cfg b) = length (usable_frames (max_frames b) rs)"
  "next_hint (raw_init rs cfg b) = (if reserve_first_mib cfg then 256 else 0)"
  by (simp_all add: raw_init_def Let_def)

lemma boot_ready:
  assumes "frame_allocator_new cfg = Some a" "a0 = mark_heap_ready (frames_init rs a)"
  shows "frames_ready a0" "\<forall>c \<in> set (refcounts a0). c = 0" "fa_bitmap a0 = raw_init rs cfg (with_max_frames (fc_max_frames cfg))"
proof -
  let ?b = "with_max_frames (fc_max_frames cfg)"
  have "raw_wf ?b" by (simp add: raw_wf_def with_max_frames_def raw_new_def)
  then have wf: "raw_wf (raw_init rs cfg ?b)" "max_frames (raw_init rs cfg ?b) = max_frames ?b" using raw_init_wf by blast+
  moreover have a0: "fa_bitmap a0 = raw_init rs cfg ?b" "heap_ready a0" "fa_initialised a0"
      "refcounts a0 = replicate (min (max_frames (raw_init rs cfg ?b)) MAX_FRAMES) 0"
    using assms by (auto simp: frame_allocator_new_def mark_heap_ready_def frames_init_def Let_def split: if_splits)
  ultimately show "frames_ready a0" "\<forall>c \<in> set (refcounts a0). c = 0" "fa_bitmap a0 = raw_init rs cfg ?b"
    by (auto simp: frames_ready_def raw_wf_def)
qed

text \<open>Frames from \<open>m\<close> on are not held, the search stays below \<open>m\<close>, and frame \<open>i\<close> is free.\<close>

definition untouched_from :: "nat \<Rightarrow> nat \<Rightarrow> (nat \<Rightarrow> nat) \<Rightarrow> frame_allocator \<Rightarrow> bool" where
  "untouched_from m i r a \<longleftrightarrow> frames_ready a \<and> total_frames (fa_bitmap a) \<le> m \<and> next_hint (fa_bitmap a) \<le> m \<and>
     (\<forall>j \<ge> m. r (phys_frame_from_index j) = 0) \<and> is_free (fa_bitmap a) i"

lemma dec_ref_untouched:
  assumes "untouched_from m i r a" "free_frame f a = (x, a')"
  shows "untouched_from m i (r(f := r f - 1)) a'"
proof -
  have rd: "frames_ready a" using assms(1) by (simp add: untouched_from_def)
  then have bm: "fa_bitmap a' = fa_bitmap a \<or> fa_bitmap a' = raw_free_frame f (fa_bitmap a)"
      "length (refcounts a') = length (refcounts a)" "heap_ready a'" "fa_initialised a'"
    using assms(2) by (auto simp: free_frame_def dec_ref_def Let_def frames_ready_def split: if_splits)
  have wf: "raw_wf (fa_bitmap a)" using rd by (simp add: frames_ready_def)
  have "next_hint (raw_free_frame f (fa_bitmap a)) \<le> m"
    using assms(1) by (intro order_trans [OF raw_free_frame_sel(3)]) (simp add: untouched_from_def)
  then have "next_hint (fa_bitmap a') \<le> m" using bm(1) assms(1) by (elim disjE) (simp_all add: untouched_from_def)
  moreover have "is_free (fa_bitmap a') i" "total_frames (fa_bitmap a') \<le> m"
    using bm(1) assms(1) wf by (elim disjE; simp add: untouched_from_def is_free_raw_free_frame)+
  moreover have "frames_ready a'" using bm wf rd by (elim disjE) (simp_all add: frames_ready_def)
  ultimately show ?thesis using assms(1) by (auto simp: untouched_from_def)
qed

lemma run_untouched:
  assumes "frame_run a0 n r a" "untouched_from m i (\<lambda>_. 0) a0" "m \<le> i"
  shows "untouched_from m i r a"
  using assms(1)
proof (induction rule: frame_run.induct)
  case (frame_allocated n r a f a')
  then have rd: "frames_ready a" by (simp add: untouched_from_def)
  from rd frame_allocated.hyps(2) obtain k where k: "f = phys_frame_from_index k"
    "k < max (total_frames (fa_bitmap a)) (next_hint (fa_bitmap a))"
    "fa_bitmap a' = (mark_used k (fa_bitmap a))\<lparr>used_frames := u64_add (used_frames (fa_bitmap a)) 1, next_hint := k + 1\<rparr>"
    "refcounts a' = (refcounts a)[k := 1]" "heap_ready a'" "fa_initialised a'"
    by (rule allocate_one_ok)
  moreover from this have "k < m" using frame_allocated.IH by (auto simp: untouched_from_def)
  ultimately show ?case using frame_allocated.IH assms(3)
    by (auto simp: untouched_from_def frames_ready_def mark_wf raw.free_get)
next
  case (frame_exhausted n r a e a')
  then show ?case using exhausted_same [of a e a'] by (auto simp: untouched_from_def frames_ready_def)
next
  case (frame_shared n r a f x a')
  then have "f \<noteq> phys_frame_from_index j" if "m \<le> j" for j using that by (auto simp: untouched_from_def)
  then show ?case using frame_shared by (auto simp: untouched_from_def inc_ref_def Let_def frames_ready_def split: if_splits)
next
  case (frame_released n r a f x a')
  from dec_ref_untouched [OF frame_released.IH frame_released.hyps(3)] show ?case .
qed (rule assms(2))

text \<open>
  Memory above a hole is lost: the search for a free frame ends at the number of usable frames, which
  counts frames, not addresses. For any memory map, a usable frame whose index is at or above that number
  (and above the reserved first MiB) is never handed out, over any run after boot, and stays free.
\<close>

theorem frames_above_count_unused:
  assumes "frame_allocator_new cfg = Some a" "a0 = mark_heap_ready (frames_init rs a)" "frame_run a0 n r a1"
    "i \<in> set (usable_frames (max_frames (fa_bitmap a)) rs)" "max (length (usable_frames (max_frames (fa_bitmap a)) rs)) 256 \<le> i"
  shows "r (phys_frame_from_index i) = 0 \<and> is_free (fa_bitmap a1) i"
proof -
  let ?b = "with_max_frames (fc_max_frames cfg)"
  have a: "fa_bitmap a = ?b" using assms(1) by (auto simp: frame_allocator_new_def split: if_splits)
  have "raw_wf ?b" by (simp add: raw_wf_def with_max_frames_def raw_new_def)
  moreover have "i < max_frames ?b" using assms(4) unfolding a by (auto simp: usable_frames_def split: if_splits)
  ultimately have "is_free (raw_init rs cfg ?b) i"
    using conjunct2 [OF conjunct2 [OF raw_init_wf [of ?b rs cfg i]]] assms(4,5) unfolding a by simp
  then have "untouched_from (max (length (usable_frames (max_frames ?b) rs)) 256) i (\<lambda>_. 0) a0"
    using boot_ready(1) [OF assms(1,2)] unfolding untouched_from_def boot_ready(3) [OF assms(1,2)] raw_init_sel by simp
  from run_untouched [OF assms(3) this] assms(5) show ?thesis by (simp add: untouched_from_def a)
qed

section \<open>Witnesses\<close>

text \<open>One usable frame behind a hole, the frame with index 512.\<close>

definition hole_map :: "memory_region list" where
  "hole_map = [\<lparr>usable = True, region_start = 0x200000, region_end = 0x201000\<rparr>]"

lemma hole_boot:
  obtains a where "frame_allocator_new default_frame_config = Some a" "usable_frames (max_frames (fa_bitmap a)) hole_map = [512]"
proof -
  have "fc_max_frames default_frame_config = MAX_FRAMES" by (simp add: default_frame_config_def)
  then show thesis using that
    by (simp add: frame_allocator_new_def MAX_FRAMES_def usable_frames_def hole_map_def PAGE_SIZE_def with_max_frames_def raw_new_def)
qed

theorem frames_above_count_unused_witness:
  "\<exists>a a1 x. frame_allocator_new default_frame_config = Some a \<and>
     allocate_one (mark_heap_ready (frames_init hole_map a)) = (x, a1) \<and> is_free (fa_bitmap a1) 512"
proof -
  obtain a where a: "frame_allocator_new default_frame_config = Some a" "usable_frames (max_frames (fa_bitmap a)) hole_map = [512]"
    by (rule hole_boot)
  let ?a0 = "mark_heap_ready (frames_init hole_map a)"
  obtain x a1 where x: "allocate_one ?a0 = (x, a1)" by (rule prod.exhaust)
  have "\<exists>r. frame_run ?a0 1 r a1"
    using frame_allocated [OF frame_start, of ?a0 _ a1] frame_exhausted [OF frame_start, of ?a0 _ a1] x by (cases x) auto
  then obtain r where "frame_run ?a0 1 r a1" ..
  from frames_above_count_unused [OF a(1) refl this, of 512] a x show ?thesis by auto
qed

text \<open>Two megabytes of memory from address 0 on. The first mebibyte is reserved, so the first frame handed out has index 256.\<close>

definition low_map :: "memory_region list" where
  "low_map = [\<lparr>usable = True, region_start = 0, region_end = 0x200000\<rparr>]"

lemma low_boot:
  obtains a where "frame_allocator_new default_frame_config = Some a" "usable_frames (max_frames (fa_bitmap a)) low_map = [0..<512]"
proof -
  have "filter (\<lambda>i. i < MAX_FRAMES) [0..<512] = [0..<512]" by (simp add: filter_id_conv MAX_FRAMES_def)
  then show thesis using that
    by (simp add: frame_allocator_new_def default_frame_config_def usable_frames_def low_map_def PAGE_SIZE_def with_max_frames_def raw_new_def MAX_FRAMES_def
        del: upt_Suc)
qed

lemma allocate_at_hint:
  assumes "frames_ready a" "is_free (fa_bitmap a) (next_hint (fa_bitmap a))" "next_hint (fa_bitmap a) < total_frames (fa_bitmap a)"
  shows "fst (allocate_one a) = Ok (phys_frame_from_index (next_hint (fa_bitmap a)))"
proof -
  let ?b = "fa_bitmap a"
  have "[next_hint ?b..<total_frames ?b] = next_hint ?b # [Suc (next_hint ?b)..<total_frames ?b]" using assms(3) by (rule upt_conv_Cons)
  then have "find (is_free ?b) ([next_hint ?b..<total_frames ?b] @ [0..<next_hint ?b]) = Some (next_hint ?b)" using assms(2) by simp
  then show ?thesis using assms(1) by (simp add: allocate_one_def alloc_frame_def frames_ready_def Let_def)
qed

theorem frames_handed_out_once_witness:
  "\<exists>a0 a1 a2 f g. allocate_one a0 = (Ok f, a1) \<and> allocate_one a1 = (Ok g, a2) \<and> frame_run a0 1 ((\<lambda>_. 0)(f := 1)) a1 \<and>
     get_ref a1 f = 1 \<and> g \<noteq> f \<and> get_ref a2 g = 1"
proof -
  obtain a where a: "frame_allocator_new default_frame_config = Some a" "usable_frames (max_frames (fa_bitmap a)) low_map = [0..<512]"
    by (rule low_boot)
  let ?a0 = "mark_heap_ready (frames_init low_map a)"
  have fb: "fa_bitmap a = with_max_frames MAX_FRAMES" using a(1) by (auto simp: frame_allocator_new_def default_frame_config_def split: if_splits)
  note boot = boot_ready [OF a(1) refl, of low_map]
  have wf: "raw_wf (with_max_frames MAX_FRAMES)" by (simp add: raw_wf_def with_max_frames_def raw_new_def)
  have cfg: "fc_max_frames default_frame_config = MAX_FRAMES" "reserve_first_mib default_frame_config" by (simp_all add: default_frame_config_def)
  have b0: "next_hint (fa_bitmap ?a0) = 256" "total_frames (fa_bitmap ?a0) = 512"
    using a(2) unfolding boot(3) cfg(1) raw_init_sel fb by (simp_all add: cfg(2))
  have free0: "is_free (fa_bitmap ?a0) j" if "256 \<le> j" "j < 512" for j
    using a(2) that raw_init_wf [OF wf, of low_map default_frame_config j] unfolding boot(3) cfg(1) fb
    by (simp add: with_max_frames_def raw_new_def MAX_FRAMES_def)
  obtain a1 where a1: "allocate_one ?a0 = (Ok (phys_frame_from_index 256), a1)"
    using allocate_at_hint [OF boot(1)] free0 b0 by (cases "allocate_one ?a0") simp
  then have run: "frame_run ?a0 1 ((\<lambda>_. 0)(phys_frame_from_index 256 := 1)) a1" using frame_allocated [OF frame_start] by fastforce
  obtain i where i: "phys_frame_from_index 256 = phys_frame_from_index i"
    "fa_bitmap a1 = (mark_used i (fa_bitmap ?a0))\<lparr>used_frames := u64_add (used_frames (fa_bitmap ?a0)) 1, next_hint := i + 1\<rparr>"
    using boot(1) a1 by (rule allocate_one_ok)
  have "frames_ready a1" using frame_run_inv [OF run boot(1,2)] by (simp add: frames_inv_def)
  moreover have "is_free (fa_bitmap a1) 257" "next_hint (fa_bitmap a1) = 257" "total_frames (fa_bitmap a1) = 512"
    using i b0 free0 [of 257] boot(1) by (simp_all add: frames_ready_def raw.free_get)
  ultimately obtain a2 where a2: "allocate_one a1 = (Ok (phys_frame_from_index 257), a2)"
    using allocate_at_hint [of a1] by (cases "allocate_one a1") simp
  note start = frames_handed_out_once [OF boot(1,2) frame_start] and later = frames_handed_out_once [OF boot(1,2) run]
  have "get_ref a1 (phys_frame_from_index 256) = 1" "get_ref a2 (phys_frame_from_index 257) = 1" using start later a1 a2 by simp_all
  with a1 a2 run show ?thesis
    by (intro exI [of _ ?a0] exI [of _ a1] exI [of _ a2] exI [of _ "phys_frame_from_index 256"] exI [of _ "phys_frame_from_index 257"]) simp
qed

end
