(* ===== verification/Mmap.thy ===== *)
theory Mmap
  imports Frame_Safety Ordered_Map
begin

text \<open>
  Memory mappings (\<open>src/src/process/mmap/mod.rs\<close>): regions, the search for a free address, \<open>mmap\<close>,
  \<open>munmap\<close>, \<open>mprotect\<close>, \<open>madvise\<close>, the page-fault handler and the clean-up of a task, over the frame
  allocator and the page tables of the current address space.

  A four-level page table is three maps for the tables below the top one and one for the entries,
  keyed by the address bits that select them; an entry is a frame with its writable and no-execute bits.
  Physical memory is a function from addresses to bytes; signals are recorded in the order sent. Files and
  the paths of file descriptors are the environment. \<open>get_manager_mut\<close> clones a manager, whose type has
  no \<open>Clone\<close>: it is read as a copy of the fields, which the comment at the call says. The
  search may run forever on wrapped addresses, so it is a partial function. \<open>msync\<close> changes nothing;
  TLB flushes and logging are left out.
\<close>

unbundle bit_operations_syntax

section \<open>Regions\<close>

datatype mmap_error = ME_InvalidArgument | ME_OutOfMemory | ME_AddressNotAvailable | ME_FileNotFound | ME_PermissionDenied
  | ME_RegionNotFound | ME_Unsupported | ME_TooManyRegions | ME_IoError | ME_ProtectionConflict
  | ME_ResourceUnavailable | ME_Interrupted

datatype mmap_backing = Anonymous | FileBacked string nat bool

record mmap_region =
  mr_start :: nat
  mr_length :: nat
  mr_prot :: "32 word"
  mr_flags :: "32 word"
  mr_backing :: mmap_backing
  mr_pages :: "(nat, nat) btree_map"
  dontneed :: bool
  mr_locked :: bool

definition region_new :: "nat \<Rightarrow> nat \<Rightarrow> 32 word \<Rightarrow> 32 word \<Rightarrow> mmap_backing \<Rightarrow> mmap_region" where
  "region_new start len prot flags backing = \<lparr>mr_start = start, mr_length = len, mr_prot = prot, mr_flags = flags,
     mr_backing = backing, mr_pages = [], dontneed = False, mr_locked = False\<rparr>"

definition mr_end :: "mmap_region \<Rightarrow> nat" where
  "mr_end r = u64_add (mr_start r) (mr_length r)"

definition mr_contains :: "mmap_region \<Rightarrow> nat \<Rightarrow> bool" where
  "mr_contains r addr \<longleftrightarrow> addr \<ge> mr_start r \<and> addr < mr_end r"

text \<open>The page-table bits of a region: writable, no-execute.\<close>

definition to_pte_flags :: "mmap_region \<Rightarrow> bool \<times> bool" where
  "to_pte_flags r = (mr_prot r AND 2 \<noteq> 0, mr_prot r AND 4 = 0)"

section \<open>Managers and the search for an address\<close>

definition MMAP_BASE_ADDR :: nat where "MMAP_BASE_ADDR = 0x700000000000"
definition MAX_MMAP_REGIONS :: nat where "MAX_MMAP_REGIONS = 1024"
definition MAX_MAP_PAGES :: nat where "MAX_MAP_PAGES = 1048576"

record mmap_manager =
  regions :: "mmap_region list"
  next_addr :: nat
  mapped_pages :: nat
  locked_pages :: nat

definition manager_new :: mmap_manager where
  "manager_new = \<lparr>regions = [], next_addr = MMAP_BASE_ADDR, mapped_pages = 0, locked_pages = 0\<rparr>"

text \<open>\<open>(x + 4095) & !4095\<close>, in the two forms the code has.\<close>

definition page_up :: "nat \<Rightarrow> nat" where
  "page_up x = u64_add x 4095 div 4096 * 4096"

definition clashes :: "nat \<Rightarrow> nat \<Rightarrow> mmap_region \<Rightarrow> bool" where
  "clashes candidate len r \<longleftrightarrow> mr_start r < u64_add candidate len \<and> candidate < mr_end r"

partial_function (option) search_free :: "mmap_region list \<Rightarrow> nat \<Rightarrow> nat \<Rightarrow> nat option" where
  "search_free rs len candidate =
     (case find (clashes candidate len) rs of
        None \<Rightarrow> Some candidate
      | Some r \<Rightarrow> search_free rs len (page_up (mr_end r)))"

definition find_free_address ::
    "nat \<Rightarrow> nat \<Rightarrow> bool \<Rightarrow> mmap_manager \<Rightarrow> ((mmap_error, nat) result \<times> mmap_manager) option" where
  "find_free_address len hint fixed m =
     (if fixed then
        Some (if hint = 0 then Err ME_InvalidArgument
          else if \<exists>r \<in> set (regions m). clashes hint len r then Err ME_AddressNotAvailable
          else Ok hint, m)
      else
        let start = (if hint \<noteq> 0 then
              let aligned = hint div 4096 * 4096 in if aligned \<ge> next_addr m then aligned else next_addr m
            else next_addr m)
        in map_option (\<lambda>c. (Ok c, m\<lparr>next_addr := u64_add c len\<rparr>)) (search_free (regions m) len start))"

definition mm_add_region :: "mmap_region \<Rightarrow> mmap_manager \<Rightarrow> (mmap_error, unit) result \<times> mmap_manager" where
  "mm_add_region r m =
     (if length (regions m) \<ge> MAX_MMAP_REGIONS then (Err ME_TooManyRegions, m)
      else (Ok (), m\<lparr>regions := regions m @ [r]\<rparr>))"

definition mm_remove_region :: "nat \<Rightarrow> mmap_manager \<Rightarrow> (mmap_error, mmap_region) result \<times> mmap_manager" where
  "mm_remove_region start m =
     (case position (\<lambda>r. mr_start r = start) (regions m) of
        None \<Rightarrow> (Err ME_RegionNotFound, m)
      | Some i \<Rightarrow> (Ok (regions m ! i), m\<lparr>regions := remove_at i (regions m)\<rparr>))"

section \<open>Page tables and frames\<close>

record page_tables =
  l3_tables :: "nat \<rightharpoonup> nat"
  l2_tables :: "nat \<rightharpoonup> nat"
  l1_tables :: "nat \<rightharpoonup> nat"
  ptes :: "nat \<rightharpoonup> nat \<times> bool \<times> bool"

record mmap_world =
  mw_managers :: "(nat, mmap_manager) btree_map"
  mw_frames :: frame_allocator
  mw_tables :: page_tables
  mw_memory :: "nat \<Rightarrow> u8"
  mw_signals :: "nat list"

record mmap_env =
  me_fd_path :: "nat \<Rightarrow> nat \<Rightarrow> string option"
  me_read :: "string \<Rightarrow> bytes option"

text \<open>The part of an address that selects an entry: the low 48 bits without the \<open>n\<close> lowest.\<close>

definition pt_key :: "nat \<Rightarrow> nat \<Rightarrow> nat" where
  "pt_key n v = v mod 2 ^ 48 div 2 ^ n"

definition take_frame :: "mmap_world \<Rightarrow> nat option \<times> mmap_world" where
  "take_frame w =
     (case allocate_one (mw_frames w) of
        (Inr f, fr) \<Rightarrow> (Some f, w\<lparr>mw_frames := fr\<rparr>)
      | (Inl _, fr) \<Rightarrow> (None, w\<lparr>mw_frames := fr\<rparr>))"

definition drop_frame :: "nat \<Rightarrow> mmap_world \<Rightarrow> mmap_world" where
  "drop_frame f w = w\<lparr>mw_frames := snd (free_frame f (mw_frames w))\<rparr>"

definition fill_page :: "nat \<Rightarrow> (nat \<Rightarrow> u8) \<Rightarrow> mmap_world \<Rightarrow> mmap_world" where
  "fill_page f content w =
     w\<lparr>mw_memory := (\<lambda>x. if f \<le> x \<and> x < f + 4096 then content (x - f) else mw_memory w x)\<rparr>"

text \<open>\<open>get_table_mut!\<close> of \<open>map_frame\<close>: a missing table is allocated, zeroed and referenced once more.\<close>

definition table_at ::
    "(page_tables \<Rightarrow> nat \<rightharpoonup> nat) \<Rightarrow> (nat \<Rightarrow> nat \<Rightarrow> page_tables \<Rightarrow> page_tables) \<Rightarrow> nat \<Rightarrow> mmap_world \<Rightarrow> bool \<times> mmap_world" where
  "table_at sel put key w =
     (if sel (mw_tables w) key \<noteq> None then (True, w)
      else
        case take_frame w of
          (None, w1) \<Rightarrow> (False, w1)
        | (Some f, w1) \<Rightarrow>
            let w2 = fill_page f (\<lambda>_. 0) w1
            in (True, w2\<lparr>mw_tables := put key f (mw_tables w2), mw_frames := snd (inc_ref f (mw_frames w2))\<rparr>))"

definition map_frame :: "nat \<Rightarrow> nat \<Rightarrow> bool \<times> bool \<Rightarrow> mmap_world \<Rightarrow> bool \<times> mmap_world" where
  "map_frame v f fl w =
     (case table_at l3_tables (\<lambda>k t pt. pt\<lparr>l3_tables := (l3_tables pt)(k \<mapsto> t)\<rparr>) (pt_key 39 v) w of
        (False, w1) \<Rightarrow> (False, w1)
      | (True, w1) \<Rightarrow>
          (case table_at l2_tables (\<lambda>k t pt. pt\<lparr>l2_tables := (l2_tables pt)(k \<mapsto> t)\<rparr>) (pt_key 30 v) w1 of
             (False, w2) \<Rightarrow> (False, w2)
           | (True, w2) \<Rightarrow>
               (case table_at l1_tables (\<lambda>k t pt. pt\<lparr>l1_tables := (l1_tables pt)(k \<mapsto> t)\<rparr>) (pt_key 21 v) w2 of
                  (False, w3) \<Rightarrow> (False, w3)
                | (True, w3) \<Rightarrow>
                    (True, w3\<lparr>mw_tables := (mw_tables w3)\<lparr>ptes := (ptes (mw_tables w3))(pt_key 12 v \<mapsto> (f, fl))\<rparr>\<rparr>))))"

text \<open>Whether an address has all its tables, as \<open>unmap_pages\<close> and \<open>mprotect\<close> look for them.\<close>

definition has_tables :: "page_tables \<Rightarrow> nat \<Rightarrow> bool" where
  "has_tables pt v \<longleftrightarrow> l3_tables pt (pt_key 39 v) \<noteq> None \<and> l2_tables pt (pt_key 30 v) \<noteq> None \<and> l1_tables pt (pt_key 21 v) \<noteq> None"

definition unmap_pages :: "mmap_region \<Rightarrow> mmap_world \<Rightarrow> mmap_world" where
  "unmap_pages r w =
     fold (\<lambda>(v, f) w.
       if has_tables (mw_tables w) v
       then drop_frame f (w\<lparr>mw_tables := (mw_tables w)\<lparr>ptes := (ptes (mw_tables w))(pt_key 12 v := None)\<rparr>\<rparr>)
       else w) (mr_pages r) w"

section \<open>Page faults\<close>

definition segv :: "nat \<Rightarrow> mmap_world \<Rightarrow> mmap_world" where
  "segv k w = w\<lparr>mw_signals := mw_signals w @ [k]\<rparr>"

definition put_manager :: "nat \<Rightarrow> mmap_manager \<Rightarrow> mmap_world \<Rightarrow> mmap_world" where
  "put_manager k m w = w\<lparr>mw_managers := bt_insert k m (mw_managers w)\<rparr>"

text \<open>\<open>region.pages.insert\<close> on the region at a position.\<close>

definition set_page :: "nat \<Rightarrow> nat \<Rightarrow> nat \<Rightarrow> mmap_manager \<Rightarrow> mmap_manager" where
  "set_page i page f m = m\<lparr>regions := (regions m)[i := (regions m ! i)\<lparr>mr_pages := bt_insert page f (mr_pages (regions m ! i))\<rparr>]\<rparr>"

definition page_content :: "mmap_env \<Rightarrow> mmap_region \<Rightarrow> nat \<Rightarrow> nat \<Rightarrow> u8" where
  "page_content env r page j =
     (case mr_backing r of
        Anonymous \<Rightarrow> 0
      | FileBacked path offset _ \<Rightarrow>
          let pos = u64_add offset (u64_sub page (mr_start r));
              data = (case me_read env path of Some d \<Rightarrow> d | None \<Rightarrow> [])
          in if pos < length data \<and> j < min (length data - pos) 4096 then data ! (pos + j) else 0)"

text \<open>Maps the frame; on failure the frame is given back and the task is signalled.\<close>

definition map_or_fail :: "nat \<Rightarrow> nat \<Rightarrow> nat \<Rightarrow> mmap_region \<Rightarrow> mmap_world \<Rightarrow> bool \<times> mmap_world" where
  "map_or_fail k page f r w =
     (case map_frame page f (to_pte_flags r) w of
        (True, w1) \<Rightarrow> (True, w1)
      | (False, w1) \<Rightarrow> (False, segv k (drop_frame f w1)))"

definition handle_mmap_fault :: "mmap_env \<Rightarrow> nat \<Rightarrow> nat \<Rightarrow> bool \<Rightarrow> mmap_world \<Rightarrow> bool \<times> mmap_world" where
  "handle_mmap_fault env k virt_addr is_write w =
     (let page = virt_addr div 4096 * 4096
      in case bt_get (mw_managers w) k of
           None \<Rightarrow> (False, w)
         | Some m \<Rightarrow>
             case position (\<lambda>r. mr_contains r virt_addr) (regions m) of
               None \<Rightarrow> (False, w)
             | Some i \<Rightarrow>
                 let r = regions m ! i
                 in if is_write \<and> mr_prot r AND 2 = 0 then (False, segv k w)
                    else if \<not> is_write \<and> mr_prot r AND 1 = 0 then (False, segv k w)
                    else case bt_get (mr_pages r) page of
                      Some old \<Rightarrow>
                        if is_write \<and> mr_flags r AND 2 \<noteq> 0 then
                          (case take_frame w of
                             (None, w1) \<Rightarrow> (False, segv k w1)
                           | (Some f, w1) \<Rightarrow>
                               map_or_fail k page f r
                                 (put_manager k (set_page i page f m) (drop_frame old (fill_page f (\<lambda>j. mw_memory w1 (old + j)) w1))))
                        else if is_write then
                          (case map_frame page old (True, snd (to_pte_flags r)) w of
                             (True, w1) \<Rightarrow> (True, w1)
                           | (False, w1) \<Rightarrow> (False, segv k w1))
                        else (True, w)
                    | None \<Rightarrow>
                        (case take_frame w of
                           (None, w1) \<Rightarrow> (False, segv k w1)
                         | (Some f, w1) \<Rightarrow>
                             let m1 = set_page i page f m
                             in map_or_fail k page f r
                                  (put_manager k (m1\<lparr>mapped_pages := u64_add (mapped_pages m1) 1\<rparr>)
                                    (fill_page f (page_content env r page) w1))))"

section \<open>The system calls\<close>

definition get_manager_mut :: "nat \<Rightarrow> mmap_world \<Rightarrow> mmap_manager \<times> mmap_world" where
  "get_manager_mut k w =
     (case bt_get (mw_managers w) k of
        Some m \<Rightarrow> (m, w)
      | None \<Rightarrow> (manager_new, put_manager k manager_new w))"

text \<open>
  The addresses the populate loop visits: it ends at once when the end of the range wraps, and otherwise
  takes one step per page.
\<close>

definition populate_pages :: "nat \<Rightarrow> nat \<Rightarrow> nat list" where
  "populate_pages v len = (if v < u64_add v len then map (\<lambda>i. v + i * 4096) [0..<len div 4096] else [])"

definition mmap_backing_of ::
    "mmap_env \<Rightarrow> nat \<Rightarrow> 32 word \<Rightarrow> int \<Rightarrow> nat \<Rightarrow> (mmap_error, mmap_backing) result" where
  "mmap_backing_of env k flags fd offset =
     (if flags AND 0x20 \<noteq> 0 \<or> fd = -1 then Ok Anonymous
      else
        case me_fd_path env k (nat (fd mod 2 ^ 64)) of
          None \<Rightarrow> Err ME_FileNotFound
        | Some path \<Rightarrow> Ok (FileBacked path offset (flags AND 1 \<noteq> 0)))"

definition mmap ::
    "mmap_env \<Rightarrow> nat \<Rightarrow> nat \<Rightarrow> nat \<Rightarrow> 32 word \<Rightarrow> 32 word \<Rightarrow> int \<Rightarrow> nat \<Rightarrow> mmap_world \<Rightarrow>
      ((mmap_error, nat) result \<times> mmap_world) option" where
  "mmap env k addr len prot flags fd offset w =
     (if len = 0 then Some (Err ME_InvalidArgument, w)
      else if offset mod 4096 \<noteq> 0 then Some (Err ME_InvalidArgument, w)
      else
        let len_aligned = page_up len
        in if len_aligned = 0 then Some (Err ME_InvalidArgument, w)
           else if len_aligned div 4096 > MAX_MAP_PAGES then Some (Err ME_InvalidArgument, w)
           else
             case mmap_backing_of env k flags fd offset of
               Inl err \<Rightarrow> Some (Err err, w)
             | Inr backing \<Rightarrow>
                 if flags AND 1 \<noteq> 0 \<and> flags AND 2 \<noteq> 0 then Some (Err ME_InvalidArgument, w)
                 else
                   let (m, w1) = get_manager_mut k w
                   in case find_free_address len_aligned addr (flags AND 0x10 \<noteq> 0) m of
                        None \<Rightarrow> None
                      | Some (Inl err, m1) \<Rightarrow> Some (Err err, w1)
                      | Some (Inr v, m1) \<Rightarrow>
                          (case mm_add_region (region_new v len_aligned prot flags backing) m1 of
                             (Inl err, m2) \<Rightarrow> Some (Err err, w1)
                           | (Inr _, m2) \<Rightarrow>
                               Some (Ok v,
                                 if flags AND 0x8000 \<noteq> 0
                                 then fold (\<lambda>page w. snd (handle_mmap_fault env k page (prot AND 2 \<noteq> 0) w)) (populate_pages v len_aligned) w1
                                 else w1)))"

text \<open>
  A partial unmap from the start splits the region: the region keeps the unmapped part, and a new region has
  the rest. \<open>unmap_pages\<close> then runs on the region that was kept.
\<close>

definition munmap :: "nat \<Rightarrow> nat \<Rightarrow> nat \<Rightarrow> mmap_world \<Rightarrow> (mmap_error, unit) result \<times> mmap_world" where
  "munmap k addr len w =
     (if len = 0 then (Err ME_InvalidArgument, w)
      else
        let len_aligned = page_up len
        in if len_aligned = 0 then (Ok (), w)
           else case bt_get (mw_managers w) k of
             None \<Rightarrow> (Err ME_RegionNotFound, w)
           | Some m \<Rightarrow>
               case position (\<lambda>r. mr_start r = addr) (regions m) of
                 None \<Rightarrow> (Err ME_RegionNotFound, w)
               | Some i \<Rightarrow>
                   let r = regions m ! i
                   in if mr_length r \<noteq> len_aligned then
                        if len_aligned < mr_length r then
                          let new_start = u64_add addr len_aligned;
                              keep = filter (\<lambda>p. fst p \<ge> new_start) (mr_pages r);
                              r1 = r\<lparr>mr_length := len_aligned, mr_pages := filter (\<lambda>p. fst p < new_start) (mr_pages r)\<rparr>;
                              r2 = r\<lparr>mr_start := new_start, mr_length := mr_length r - len_aligned, mr_pages := keep\<rparr>;
                              m1 = m\<lparr>regions := take i (regions m) @ [r1, r2] @ drop (Suc i) (regions m),
                                mapped_pages := u64_sub (mapped_pages m) (length (mr_pages r) - length keep)\<rparr>
                          in (Ok (), put_manager k m1 (unmap_pages r1 w))
                        else (Err ME_Unsupported, w)
                      else
                        (Ok (), put_manager k (m\<lparr>regions := remove_at i (regions m),
                            mapped_pages := u64_sub (mapped_pages m) (length (mr_pages r))\<rparr>) (unmap_pages r w)))"

definition mprotect :: "nat \<Rightarrow> nat \<Rightarrow> nat \<Rightarrow> 32 word \<Rightarrow> mmap_world \<Rightarrow> (mmap_error, unit) result \<times> mmap_world" where
  "mprotect k addr len prot w =
     (if len = 0 then (Err ME_InvalidArgument, w)
      else case bt_get (mw_managers w) k of
        None \<Rightarrow> (Err ME_RegionNotFound, w)
      | Some m \<Rightarrow>
          case position (\<lambda>r. mr_start r = addr) (regions m) of
            None \<Rightarrow> (Err ME_RegionNotFound, w)
          | Some i \<Rightarrow>
              if mr_length (regions m ! i) \<noteq> page_up len then (Err ME_Unsupported, w)
              else
                let r = (regions m ! i)\<lparr>mr_prot := prot\<rparr>;
                    w1 = put_manager k (m\<lparr>regions := (regions m)[i := r]\<rparr>) w
                in (Ok (), fold (\<lambda>(v, f) w.
                     if has_tables (mw_tables w) v
                     then w\<lparr>mw_tables := (mw_tables w)\<lparr>ptes := (ptes (mw_tables w))(pt_key 12 v \<mapsto> (f, to_pte_flags r))\<rparr>\<rparr>
                     else w) (mr_pages r) w1))"

text \<open>
  \<open>MADV_WILLNEED\<close> calls the fault handler with the managers locked: the handler's own lock never returns.
  The result \<open>None\<close> is a call that does not return.
\<close>

definition madvise :: "nat \<Rightarrow> nat \<Rightarrow> nat \<Rightarrow> nat \<Rightarrow> mmap_world \<Rightarrow> ((mmap_error, unit) result \<times> mmap_world) option" where
  "madvise k addr len advice w =
     (if len = 0 then Some (Ok (), w)
      else case bt_get (mw_managers w) k of
        None \<Rightarrow> Some (Err ME_RegionNotFound, w)
      | Some m \<Rightarrow>
          case position (\<lambda>r. mr_start r = addr) (regions m) of
            None \<Rightarrow> Some (Err ME_RegionNotFound, w)
          | Some i \<Rightarrow>
              let with_flag = (\<lambda>d. put_manager k (m\<lparr>regions := (regions m)[i := (regions m ! i)\<lparr>dontneed := d\<rparr>]\<rparr>) w)
              in if advice = 0 then Some (Ok (), with_flag False)
                 else if advice = 1 \<or> advice = 2 then Some (Ok (), w)
                 else if advice = 3 then (if populate_pages addr (page_up len) = [] then Some (Ok (), w) else None)
                 else if advice = 4 \<or> advice = 8 then Some (Ok (), with_flag True)
                 else Some (Err ME_InvalidArgument, w))"

definition cleanup_for :: "nat \<Rightarrow> mmap_world \<Rightarrow> mmap_world" where
  "cleanup_for k w =
     (case bt_get (mw_managers w) k of
        None \<Rightarrow> w
      | Some m \<Rightarrow> fold unmap_pages (regions m) (w\<lparr>mw_managers := bt_remove k (mw_managers w)\<rparr>))"

end
