(* ===== verification/Mmap_Safety.thy ===== *)
theory Mmap_Safety
  imports Mmap
begin

text \<open>
  What the mapping calls guarantee: the search for an address returns and finds a free range, a first touch of
  anonymous memory maps a zeroed page with the region's permissions, and what becomes of the regions
  that \<open>mmap\<close> creates.
\<close>

section \<open>The search for an address\<close>

lemma page_up_bounds: "x + 4095 < 2 ^ 64 \<Longrightarrow> x \<le> page_up x \<and> page_up x \<le> x + 4095"
proof -
  assume "x + 4095 < 2 ^ 64"
  then have "page_up x = (x + 4095) div 4096 * 4096" by (simp add: page_up_def u64_add_def)
  moreover have "(x + 4095) div 4096 * 4096 + (x + 4095) mod 4096 = x + 4095" by (rule div_mult_mod_eq)
  moreover have "(x + 4095) mod 4096 \<le> 4095" using mod_less_divisor [of 4096 "x + 4095"] by linarith
  ultimately show ?thesis by linarith
qed

lemma filter_shrinks: "\<forall>x \<in> set xs. Q x \<longrightarrow> P x \<Longrightarrow> y \<in> set xs \<Longrightarrow> P y \<Longrightarrow> \<not> Q y \<Longrightarrow>
    length (filter Q xs) < length (filter P xs)"
proof (induction xs)
  case (Cons x xs)
  have "length (filter Q xs) \<le> length (filter P xs)"
    using Cons.prems(1) by (induction xs) auto
  with Cons show ?case by (auto simp: less_Suc_eq_le)
qed simp

text \<open>
  C21. The search for a free address ends and is right: when the regions end at or below a bound and the bound
  plus the length does not come near the end of the address space, the search from any start returns an address at
  or above it, near the bound at most, whose range meets no region.
\<close>

theorem search_free_returns:
  assumes "\<forall>r \<in> set rs. mr_start r + mr_length r \<le> B" "c \<le> B + 4095" "B + 4095 + len < 2 ^ 64"
  shows "\<exists>a. search_free rs len c = Some a \<and> c \<le> a \<and> a \<le> B + 4095 \<and>
    (\<forall>r \<in> set rs. a + len \<le> mr_start r \<or> mr_start r + mr_length r \<le> a)"
  using assms(2)
proof (induction "length (filter (\<lambda>r. c < mr_end r) rs)" arbitrary: c rule: less_induct)
  case less
  have ends: "mr_end r = mr_start r + mr_length r" if "r \<in> set rs" for r
    using assms(1,3) that unfolding mr_end_def by (intro u64_add_exact) force
  have sum: "u64_add c len = c + len" using less.prems assms(3) by (intro u64_add_exact) linarith
  show ?case
  proof (cases "find (clashes c len) rs")
    case None
    then have "\<forall>r \<in> set rs. \<not> clashes c len r" by (simp add: find_None_iff)
    then have "\<forall>r \<in> set rs. c + len \<le> mr_start r \<or> mr_start r + mr_length r \<le> c"
      by (auto simp: clashes_def sum ends not_less)
    moreover have "search_free rs len c = Some c" by (subst search_free.simps) (simp add: None)
    ultimately show ?thesis using less.prems by blast
  next
    case (Some r)
    then have r: "r \<in> set rs" "c < mr_end r" by (auto simp: find_Some_iff clashes_def)
    have "mr_end r \<le> B" using ends [OF r(1)] assms(1) r(1) by simp
    then have up: "mr_end r \<le> page_up (mr_end r)" "page_up (mr_end r) \<le> B + 4095"
      using page_up_bounds [of "mr_end r"] assms(3) by linarith+
    have "length (filter (\<lambda>q. page_up (mr_end r) < mr_end q) rs) < length (filter (\<lambda>q. c < mr_end q) rs)"
      using r up(1) by (intro filter_shrinks [of _ _ _ r]) auto
    from less.hyps [OF this up(2)] obtain a where "search_free rs len (page_up (mr_end r)) = Some a"
      "page_up (mr_end r) \<le> a" "a \<le> B + 4095" "\<forall>r \<in> set rs. a + len \<le> mr_start r \<or> mr_start r + mr_length r \<le> a" by blast
    moreover have "search_free rs len c = search_free rs len (page_up (mr_end r))"
      by (subst search_free.simps) (simp add: Some)
    ultimately show ?thesis using r(2) up(1) by (intro exI [of _ a]) auto
  qed
qed

theorem search_free_returns_witness:
  "\<exists>a. search_free [region_new 0x1000 0x2000 3 2 Anonymous, region_new 0x4000 0x1000 1 2 Anonymous] 0x2000 0x1000 = Some a \<and>
    0x1000 \<le> a \<and> (a + 0x2000 \<le> 0x4000 \<or> 0x5000 \<le> a)"
  using search_free_returns [where rs = "[region_new 0x1000 0x2000 3 2 Anonymous, region_new 0x4000 0x1000 1 2 Anonymous]"
      and B = "0x5000" and c = "0x1000" and len = "0x2000"]
  by (auto simp: region_new_def)

section \<open>Regions are not recorded\<close>

text \<open>A run of the calls and of page faults, of any tasks.\<close>

inductive mmap_run :: "mmap_env \<Rightarrow> mmap_world \<Rightarrow> mmap_world \<Rightarrow> bool" for env w0 where
  mmap_start: "mmap_run env w0 w0"
| mmap_call: "mmap_run env w0 w \<Longrightarrow> mmap env k addr len prot flags fd offset w = Some (x, w') \<Longrightarrow> mmap_run env w0 w'"
| mmap_munmap: "mmap_run env w0 w \<Longrightarrow> munmap k addr len w = (y, w') \<Longrightarrow> mmap_run env w0 w'"
| mmap_mprotect: "mmap_run env w0 w \<Longrightarrow> mprotect k addr len prot w = (y, w') \<Longrightarrow> mmap_run env w0 w'"
| mmap_madvise: "mmap_run env w0 w \<Longrightarrow> madvise k addr len advice w = Some (y, w') \<Longrightarrow> mmap_run env w0 w'"
| mmap_fault: "mmap_run env w0 w \<Longrightarrow> handle_mmap_fault env k addr is_write w = (z, w') \<Longrightarrow> mmap_run env w0 w'"
| mmap_cleanup: "mmap_run env w0 w \<Longrightarrow> mmap_run env w0 (cleanup_for k w)"

definition all_new :: "mmap_world \<Rightarrow> bool" where
  "all_new w \<longleftrightarrow> bt_sorted (mw_managers w) \<and> (\<forall>k m. bt_get (mw_managers w) k = Some m \<longrightarrow> m = manager_new)"

lemma manager_new_regions [simp]: "regions manager_new = []" "next_addr manager_new = MMAP_BASE_ADDR"
  by (simp_all add: manager_new_def)

lemma all_new_same:
  assumes "all_new w"
  shows "handle_mmap_fault env k addr is_write w = (False, w)" "snd (munmap k addr len w) = w"
    "snd (mprotect k addr len prot w) = w" "madvise k addr len advice w = Some (y, w') \<Longrightarrow> w' = w"
    "page_up len \<noteq> 0 \<Longrightarrow> len \<noteq> 0 \<Longrightarrow> munmap k addr len w = (Err ME_RegionNotFound, w)"
proof -
  have m: "bt_get (mw_managers w) k = None \<or> bt_get (mw_managers w) k = Some manager_new"
    using assms by (cases "bt_get (mw_managers w) k") (auto simp: all_new_def)
  then show "handle_mmap_fault env k addr is_write w = (False, w)" by (auto simp: handle_mmap_fault_def)
  from m show "snd (munmap k addr len w) = w" by (auto simp: munmap_def Let_def)
  from m show "snd (mprotect k addr len prot w) = w" by (auto simp: mprotect_def)
  from m show "madvise k addr len advice w = Some (y, w') \<Longrightarrow> w' = w" by (auto simp: madvise_def split: if_splits)
  from m show "page_up len \<noteq> 0 \<Longrightarrow> len \<noteq> 0 \<Longrightarrow> munmap k addr len w = (Err ME_RegionNotFound, w)" by (auto simp: munmap_def Let_def)
qed

lemma get_manager_new:
  assumes "all_new w"
  shows "fst (get_manager_mut k w) = manager_new" "all_new (snd (get_manager_mut k w))"
  using assms by (auto simp: get_manager_mut_def put_manager_def all_new_def bt_sorted_insert bt.get_ins split: option.splits)

lemma populate_same: "all_new w \<Longrightarrow> fold (\<lambda>page w. snd (handle_mmap_fault env k page wr w)) ps w = w"
  by (induction ps) (simp_all add: all_new_same(1))

lemma mmap_new:
  assumes "all_new w" "mmap env k addr len prot flags fd offset w = Some (x, w')"
  shows "w' = w \<or> w' = snd (get_manager_mut k w)"
  using assms(2) get_manager_new [OF assms(1), of k]
  by (auto simp: mmap_def Let_def split_def populate_same split: if_splits sum.splits option.splits prod.splits)

lemma mmap_run_new:
  assumes "mmap_run env w0 w" "mw_managers w0 = []"
  shows "all_new w"
  using assms
proof (induction rule: mmap_run.induct)
  case mmap_start
  then show ?case by (simp add: all_new_def)
next
  case (mmap_call w k addr len prot flags fd offset x w')
  then have "all_new w" by simp
  from mmap_new [OF this mmap_call.hyps(2)] get_manager_new(2) [OF this, of k] this show ?case by (elim disjE) simp_all
next
  case (mmap_cleanup w k)
  have "regions m = []" if "bt_get (mw_managers w) k = Some m" for m
    using mmap_cleanup that unfolding all_new_def by (metis manager_new_regions(1))
  then show ?case using mmap_cleanup
    by (auto simp: cleanup_for_def all_new_def bt_sorted_remove bt.get_del split: option.splits)
qed (use all_new_same in \<open>metis snd_conv\<close>)+

text \<open>
  C38. Mappings are forgotten: \<open>mmap\<close> adds the region to a copy of the task's manager, which is dropped. After any
  run of calls, the address of a mapping without a fixed address depends on its hint alone: it is the hint's page when that is at
  or above the base address, and the base address otherwise. So two mappings of a task with the same hint, or without one,
  coincide; a mapping cannot be unmapped, and no page fault in it is handled.
\<close>

theorem mappings_forgotten:
  assumes "mw_managers w0 = []" "mmap_run env w0 w" "mmap env k hint len prot flags fd offset w = Some (Ok v, w1)" "flags AND 0x10 = 0"
  shows "v = max (hint div 4096 * 4096) MMAP_BASE_ADDR \<and> munmap k v len w1 = (Err ME_RegionNotFound, w1) \<and> handle_mmap_fault env k addr is_write w1 = (False, w1)"
proof -
  have new: "all_new w" using assms(2,1) by (rule mmap_run_new)
  then have new1: "all_new w1" using mmap_new [OF new assms(3)] get_manager_new(2) [OF new, of k] by (elim disjE) simp_all
  have len: "len \<noteq> 0" "page_up len \<noteq> 0" using assms(3) by (auto simp: mmap_def Let_def split: if_splits)
  have "search_free [] l c = Some c" for l c by (subst search_free.simps) simp
  then have "\<exists>m1. find_free_address l hint (flags AND 0x10 \<noteq> 0) manager_new = Some (Ok (max (hint div 4096 * 4096) MMAP_BASE_ADDR), m1)" for l
    using assms(4) by (simp add: find_free_address_def manager_new_def Let_def max_def)
  from this [of "page_up len"] have "v = max (hint div 4096 * 4096) MMAP_BASE_ADDR" using assms(3) get_manager_new(1) [OF new, of k]
    by (auto simp: mmap_def Let_def split_def split: if_splits sum.splits option.splits prod.splits)
  then show ?thesis using all_new_same(1) [OF new1] all_new_same(5) [OF new1 len(2,1)] by blast
qed

section \<open>First touch of anonymous memory\<close>

lemma take_frame_sel:
  "take_frame w = (x, w') \<Longrightarrow> mw_managers w' = mw_managers w \<and> mw_tables w' = mw_tables w \<and> mw_memory w' = mw_memory w"
  by (auto simp: take_frame_def split: prod.splits sum.splits)

definition zeroed :: "nat \<Rightarrow> mmap_world \<Rightarrow> bool" where
  "zeroed f w \<longleftrightarrow> (\<forall>j < 4096. mw_memory w (f + j) = 0)"

lemma table_at_keeps:
  assumes "table_at sel put key w = (ok, w')"
  shows "mw_managers w' = mw_managers w \<and> (zeroed f w \<longrightarrow> zeroed f w')"
proof -
  have "mw_managers w1 = mw_managers w \<and> mw_memory w1 = mw_memory w" if "take_frame w = (x, w1)" for x w1
    using take_frame_sel [OF that] by blast
  then show ?thesis using assms
    by (auto simp: table_at_def zeroed_def fill_page_def Let_def split: if_splits prod.splits option.splits)
qed

lemma map_frame_maps:
  assumes "map_frame v f fl w = (True, w')"
  shows "ptes (mw_tables w') (pt_key 12 v) = Some (f, fl) \<and> mw_managers w' = mw_managers w \<and> (zeroed g w \<longrightarrow> zeroed g w')"
proof -
  obtain w1 w2 w3 where "table_at l3_tables (\<lambda>k t pt. pt\<lparr>l3_tables := (l3_tables pt)(k \<mapsto> t)\<rparr>) (pt_key 39 v) w = (True, w1)"
      "table_at l2_tables (\<lambda>k t pt. pt\<lparr>l2_tables := (l2_tables pt)(k \<mapsto> t)\<rparr>) (pt_key 30 v) w1 = (True, w2)"
      "table_at l1_tables (\<lambda>k t pt. pt\<lparr>l1_tables := (l1_tables pt)(k \<mapsto> t)\<rparr>) (pt_key 21 v) w2 = (True, w3)"
      "w' = w3\<lparr>mw_tables := (mw_tables w3)\<lparr>ptes := (ptes (mw_tables w3))(pt_key 12 v \<mapsto> (f, fl))\<rparr>\<rparr>"
    using assms by (auto simp: map_frame_def split: prod.splits bool.splits)
  then show ?thesis using table_at_keeps [of _ _ _ w True w1 g] table_at_keeps [of _ _ _ w1 True w2 g]
      table_at_keeps [of _ _ _ w2 True w3 g] by (auto simp: zeroed_def)
qed

text \<open>
  C29. The first touch of anonymous memory is safe: when the handler resolves a fault on a page that is not present, the
  page is mapped to a frame, writable exactly when the region allows writing, the frame's 4096 bytes are zero, and
  the region records the frame.
\<close>

theorem fault_maps_zero_page:
  assumes "bt_sorted (mw_managers w)" "bt_get (mw_managers w) k = Some m"
    "position (\<lambda>r. mr_contains r addr) (regions m) = Some i" "bt_sorted (mr_pages (regions m ! i))"
    "mr_backing (regions m ! i) = Anonymous" "bt_get (mr_pages (regions m ! i)) (addr div 4096 * 4096) = None"
    "handle_mmap_fault env k addr is_write w = (True, w')"
  shows "\<exists>f m' nx. ptes (mw_tables w') (pt_key 12 (addr div 4096 * 4096)) = Some (f, mr_prot (regions m ! i) AND 2 \<noteq> 0, nx) \<and>
    (\<forall>j < 4096. mw_memory w' (f + j) = 0) \<and> bt_get (mw_managers w') k = Some m' \<and>
    bt_get (mr_pages (regions m' ! i)) (addr div 4096 * 4096) = Some f"
proof -
  let ?p = "addr div 4096 * 4096" let ?r = "regions m ! i"
  let ?m = "\<lambda>f. (set_page i ?p f m)\<lparr>mapped_pages := u64_add (mapped_pages (set_page i ?p f m)) 1\<rparr>"
  obtain f w1 where f: "take_frame w = (Some f, w1)"
      "map_frame ?p f (to_pte_flags ?r) (put_manager k (?m f) (fill_page f (page_content env ?r ?p) w1)) = (True, w')"
    using assms(2,3,6,7)
    by (auto simp: handle_mmap_fault_def Let_def map_or_fail_def split: if_splits prod.splits option.splits bool.splits)
  let ?w = "put_manager k (?m f) (fill_page f (page_content env ?r ?p) w1)"
  have "zeroed f ?w" using assms(5) by (simp add: zeroed_def put_manager_def fill_page_def page_content_def)
  moreover have "mw_managers ?w = bt_insert k (?m f) (mw_managers w)"
    using take_frame_sel [OF f(1)] by (simp add: put_manager_def fill_page_def)
  moreover have "i < length (regions m)" using position_Some [OF assms(3)] by simp
  then have "bt_get (mr_pages (regions (?m f) ! i)) ?p = Some f" using assms(4) by (simp add: set_page_def bt.get_ins)
  ultimately show ?thesis using map_frame_maps [OF f(2), of f] assms(1)
    by (intro exI [of _ f] exI [of _ "?m f"] exI [of _ "mr_prot ?r AND 4 = 0"]) (simp add: zeroed_def bt.get_ins to_pte_flags_def)
qed

section \<open>Witnesses\<close>

text \<open>A world with eight free frames, all page tables present, and the given managers.\<close>

definition sample_frames :: frame_allocator where
  "sample_frames = \<lparr>fa_bitmap = \<lparr>bitmap = [0], next_hint = 0, total_frames = 8, used_frames = 0, max_frames = 8\<rparr>,
     fa_config = default_frame_config, fa_metrics = \<lparr>fr_allocations = 0, fr_frees = 0, fr_allocation_failures = 0,
       fr_refcount_incs = 0, fr_refcount_decs = 0, fr_oom_events = 0, fr_total_frames = 0, fr_free_frames = 0\<rparr>,
     fa_initialised = True, refcounts = [], heap_ready = False\<rparr>"

definition sample_world :: "(nat, mmap_manager) btree_map \<Rightarrow> mmap_world" where
  "sample_world ms = \<lparr>mw_managers = ms, mw_frames = sample_frames,
     mw_tables = \<lparr>l3_tables = (\<lambda>_. Some 0), l2_tables = (\<lambda>_. Some 0), l1_tables = (\<lambda>_. Some 0), ptes = (\<lambda>_. None)\<rparr>,
     mw_memory = (\<lambda>_. 7), mw_signals = []\<rparr>"

definition no_files :: mmap_env where
  "no_files = \<lparr>me_fd_path = (\<lambda>_ _. None), me_read = (\<lambda>_. None)\<rparr>"

lemma sample_mmap:
  "\<exists>v w. mmap no_files 3 0 100 3 0x22 (-1) 0 (sample_world []) = Some (Ok v, w)"
proof -
  have "page_up 100 = 4096" by (simp add: page_up_def u64_add_def)
  moreover have "search_free [] l c = Some c" for l c by (subst search_free.simps) simp
  ultimately show ?thesis
    by (simp add: mmap_def Let_def mmap_backing_of_def get_manager_mut_def sample_world_def find_free_address_def mm_add_region_def
        MAX_MAP_PAGES_def MAX_MMAP_REGIONS_def)
qed

theorem mappings_forgotten_witness:
  "\<exists>v w. mmap no_files 3 0 100 3 0x22 (-1) 0 (sample_world []) = Some (Ok v, w) \<and> v = MMAP_BASE_ADDR \<and>
    munmap 3 v 100 w = (Err ME_RegionNotFound, w)"
proof -
  obtain v w where run: "mmap no_files 3 0 100 3 0x22 (-1) 0 (sample_world []) = Some (Ok v, w)" using sample_mmap by blast
  have "mw_managers (sample_world []) = []" by (simp add: sample_world_def)
  from mappings_forgotten [OF this mmap_start run, of 0 False] run show ?thesis by auto
qed

lemma sample_take_frame: "\<exists>fr. take_frame (sample_world ms) = (Some 0, (sample_world ms)\<lparr>mw_frames := fr\<rparr>)"
proof -
  have "is_free (fa_bitmap sample_frames) 0" by (simp add: is_free_def sample_frames_def BITMAP_SIZE_def MAX_FRAMES_def)
  moreover have "[0..<8 :: nat] = 0 # [1..<8]" by (simp add: upt_conv_Cons)
  ultimately have "fst (alloc_frame (fa_bitmap sample_frames)) = Some 0"
    by (simp add: alloc_frame_def sample_frames_def phys_frame_from_index_def del: upt_rec_numeral)
  then show ?thesis
    by (cases "alloc_frame (fa_bitmap sample_frames)")
      (simp add: take_frame_def allocate_one_def sample_world_def sample_frames_def Let_def)
qed

theorem fault_maps_zero_page_witness:
  "\<exists>w' f nx. handle_mmap_fault no_files 3 0x1234 True
      (sample_world [(3, manager_new\<lparr>regions := [region_new 0x1000 0x1000 3 2 Anonymous]\<rparr>)]) = (True, w') \<and>
    ptes (mw_tables w') (pt_key 12 0x1000) = Some (f, True, nx) \<and> (\<forall>j < 4096. mw_memory w' (f + j) = 0)"
proof -
  let ?r = "region_new 0x1000 0x1000 3 2 Anonymous"
  let ?m = "manager_new\<lparr>regions := [?r]\<rparr>"
  let ?w = "sample_world [(3, ?m)]"
  have pos: "position (\<lambda>r. mr_contains r 0x1234) (regions ?m) = Some 0"
    by (simp add: mr_contains_def mr_end_def region_new_def u64_add_def)
  obtain fr where fr: "take_frame ?w = (Some 0, ?w\<lparr>mw_frames := fr\<rparr>)" using sample_take_frame by blast
  have "\<exists>w'. handle_mmap_fault no_files 3 0x1234 True ?w = (True, w')"
    using pos fr by (simp add: handle_mmap_fault_def Let_def map_or_fail_def map_frame_def table_at_def put_manager_def fill_page_def
        sample_world_def region_new_def)
  then obtain w' where run: "handle_mmap_fault no_files 3 0x1234 True ?w = (True, w')" ..
  have "bt_sorted (mw_managers ?w)" "bt_get (mw_managers ?w) 3 = Some ?m" "bt_sorted (mr_pages (regions ?m ! 0))"
      "mr_backing (regions ?m ! 0) = Anonymous" "bt_get (mr_pages (regions ?m ! 0)) (0x1234 div 4096 * 4096) = None"
    by (simp_all add: sample_world_def region_new_def bt_sorted_def)
  from fault_maps_zero_page [OF this(1,2) pos this(3-5) run] run show ?thesis
    by (auto simp: region_new_def)
qed

end
