(* ===== verification/Evm_Words.thy ===== *)
theory Evm_Words
  imports Iona_Prelude
begin

text \<open>
  The 256-bit arithmetic and the hash of the EVM interpreter (\<open>src/src/blockchain/revm_port.rs\<close>). A value
  is its 32 bytes, most significant first, as in the code; \<open>from_be\<close> reads it as a number. The loops
  that run from the last byte to the first work on the reversed byte strings.
\<close>

unbundle bit_operations_syntax

type_synonym u256 = bytes

abbreviation zero256 :: u256 where
  "zero256 \<equiv> replicate 32 0"

section \<open>Conversions\<close>

definition to_u64 :: "u256 \<Rightarrow> nat" where
  "to_u64 v = from_be (take 8 (drop 24 v))"

definition from_u64 :: "nat \<Rightarrow> u256" where
  "from_u64 n = replicate 24 0 @ to_be 8 n"

definition from_u128 :: "nat \<Rightarrow> u256" where
  "from_u128 n = replicate 16 0 @ to_be 16 n"

section \<open>Arithmetic\<close>

fun add_carry :: "(u8 \<times> u8) list \<Rightarrow> nat \<Rightarrow> bytes" where
  "add_carry [] carry = []"
| "add_carry ((a, b) # ps) carry =
     (let s = unat a + unat b + carry in of_nat s # add_carry ps (s div 256))"

definition u256_add :: "u256 \<Rightarrow> u256 \<Rightarrow> u256" where
  "u256_add a b = rev (add_carry (rev (zip a b)) 0)"

fun sub_borrow :: "(u8 \<times> u8) list \<Rightarrow> int \<Rightarrow> bytes" where
  "sub_borrow [] borrow = []"
| "sub_borrow ((a, b) # ps) borrow =
     (let s = int (unat a) - int (unat b) - borrow in of_int s # sub_borrow ps (if s < 0 then 1 else 0))"

definition u256_sub :: "u256 \<Rightarrow> u256 \<Rightarrow> u256" where
  "u256_sub a b = rev (sub_borrow (rev (zip a b)) 0)"

text \<open>The four 64-bit limbs of a value, least significant first: \<open>al[3 - i]\<close> is limb \<open>i\<close>.\<close>

definition limbs :: "u256 \<Rightarrow> nat list" where
  "limbs v = map (\<lambda>i. from_be (take 8 (drop (24 - 8 * i) v))) [0..<4]"

text \<open>The body of the two loops of \<open>u256_mul\<close>.\<close>

definition mul_step :: "nat list \<Rightarrow> nat list \<Rightarrow> nat \<times> nat \<Rightarrow> nat list \<Rightarrow> nat list" where
  "mul_step al bl ij r =
     (let i = fst ij; j = snd ij; dest = i + j
      in if dest < 4 then
           let s = r ! dest + al ! i * bl ! j;
               r1 = r[dest := s mod 2 ^ 64]
           in if dest + 1 < 4 then r1[dest + 1 := u64_add (r1 ! (dest + 1)) (s div 2 ^ 64)] else r1
         else r)"

definition u256_mul :: "u256 \<Rightarrow> u256 \<Rightarrow> u256" where
  "u256_mul a b =
     concat (map (to_be 8) (rev (fold (mul_step (limbs a) (limbs b)) (List.product [0..<4] [0..<4]) [0, 0, 0, 0])))"

section \<open>Keccak\<close>

definition rotl64 :: "nat \<Rightarrow> 64 word \<Rightarrow> 64 word" where
  "rotl64 n w = push_bit n w OR drop_bit (64 - n) w"

definition KECCAK_RC :: "64 word list" where
  "KECCAK_RC = [0x0000000000000001, 0x0000000000008082, 0x800000000000808A,
     0x8000000080008000, 0x000000000000808B, 0x0000000080000001,
     0x8000000080008081, 0x8000000000008009, 0x000000000000008A,
     0x0000000000000088, 0x0000000080008009, 0x000000008000000A,
     0x000000008000808B, 0x800000000000008B, 0x8000000000008089,
     0x8000000000008003, 0x8000000000008002, 0x8000000000000080,
     0x000000000000800A, 0x800000008000000A, 0x8000000080008081,
     0x8000000000008080, 0x0000000080000001, 0x8000000080008008]"

definition KECCAK_ROT :: "nat list" where
  "KECCAK_ROT = [0, 1, 62, 28, 27, 36, 44, 6, 55, 20, 3, 10, 43, 25, 39, 41, 45, 15, 21, 8, 18, 2, 61, 56, 14]"

definition KECCAK_PI :: "nat list" where
  "KECCAK_PI = [0, 6, 12, 18, 24, 3, 9, 10, 16, 22, 1, 7, 13, 19, 20, 4, 5, 11, 17, 23, 2, 8, 14, 15, 21]"

definition keccak_theta :: "64 word list \<Rightarrow> 64 word list" where
  "keccak_theta st =
     (let c = map (\<lambda>x. st ! x XOR st ! (x + 5) XOR st ! (x + 10) XOR st ! (x + 15) XOR st ! (x + 20)) [0..<5];
          d = map (\<lambda>x. c ! ((x + 4) mod 5) XOR rotl64 1 (c ! ((x + 1) mod 5))) [0..<5]
      in map (\<lambda>i. st ! i XOR d ! (i mod 5)) [0..<25])"

definition keccak_rho_pi :: "64 word list \<Rightarrow> 64 word list" where
  "keccak_rho_pi st = fold (\<lambda>i b. b[KECCAK_PI ! i := rotl64 (KECCAK_ROT ! i) (st ! i)]) [0..<25] (replicate 25 0)"

definition keccak_chi :: "64 word list \<Rightarrow> 64 word list" where
  "keccak_chi b =
     map (\<lambda>i. let x = i mod 5; y = i div 5
       in b ! i XOR (NOT (b ! ((x + 1) mod 5 + 5 * y)) AND b ! ((x + 2) mod 5 + 5 * y))) [0..<25]"

definition keccak_f1600 :: "64 word list \<Rightarrow> 64 word list" where
  "keccak_f1600 st =
     fold (\<lambda>rc st. let st1 = keccak_chi (keccak_rho_pi (keccak_theta st)) in st1[0 := st1 ! 0 XOR rc]) KECCAK_RC st"

definition xor_byte :: "nat \<Rightarrow> u8 \<Rightarrow> 64 word list \<Rightarrow> 64 word list" where
  "xor_byte i b st = st[i div 8 := st ! (i div 8) XOR push_bit (8 * (i mod 8)) (ucast b)]"

function keccak_absorb :: "bytes \<Rightarrow> 64 word list \<Rightarrow> 64 word list" where
  "keccak_absorb xs st =
     (if xs = [] then st
      else let block = take 136 xs; st1 = fold (\<lambda>(i, b). xor_byte i b) (enumerate 0 block) st
        in keccak_absorb (drop 136 xs) (if length block = 136 then keccak_f1600 st1 else st1))"
  by pat_completeness auto
termination
  by (relation "measure (length \<circ> fst)") auto

declare keccak_absorb.simps [simp del]

definition keccak256 :: "bytes \<Rightarrow> u256" where
  "keccak256 xs =
     (let st = keccak_absorb xs (replicate 25 0);
          st1 = xor_byte 135 0x80 (xor_byte (length xs mod 136) 0x01 st)
      in concat (map (\<lambda>w. to_le 8 (unat w)) (take 4 (keccak_f1600 st1))))"

section \<open>Addition and subtraction are exact\<close>

lemma unat_of_nat8: "unat (of_nat s :: u8) = s mod 256"
  by (subst unat_of_nat) simp

lemma add_carry_value:
  "from_le (add_carry ps c) = (from_le (map fst ps) + from_le (map snd ps) + c) mod 256 ^ length ps"
proof (induction ps c rule: add_carry.induct)
  case (2 a b ps c)
  let ?s = "unat a + unat b + c" and ?r = "from_le (map fst ps) + from_le (map snd ps)"
  have "(?s + 256 * ?r) mod (256 * 256 ^ length ps) = 256 * ((?s + 256 * ?r) div 256 mod 256 ^ length ps) + (?s + 256 * ?r) mod 256"
    by (rule mod_mult2_eq)
  moreover have "(?s + 256 * ?r) div 256 = ?r + ?s div 256" "(?s + 256 * ?r) mod 256 = ?s mod 256"
    by (rule div_mult_self2, simp) (rule mod_mult_self2)
  ultimately have "(?s + 256 * ?r) mod 256 ^ length ((a, b) # ps) = ?s mod 256 + 256 * ((?r + ?s div 256) mod 256 ^ length ps)"
    by simp
  moreover have "from_le (map fst ((a, b) # ps)) + from_le (map snd ((a, b) # ps)) + c = ?s + 256 * ?r" by (simp add: algebra_simps)
  ultimately show ?case using "2.IH" [OF refl] by (simp only: add_carry.simps Let_def from_le.simps unat_of_nat8)
qed simp

lemma borrow_div: "(x :: int) < 256 \<Longrightarrow> -256 \<le> x \<Longrightarrow> x div 256 = - (if x < 0 then 1 else 0)"
proof (cases "x < 0")
  case True
  assume "-256 \<le> x"
  with True have "(x + 256) div 256 = 0" by (intro div_pos_pos_trivial) simp_all
  with True show ?thesis by simp
qed (simp add: div_pos_pos_trivial)

lemma unat_of_int8: "int (unat (of_int s :: u8)) = s mod 256"
proof -
  have "uint (of_int s :: u8) = s mod 256" by (simp add: uint_word_of_int)
  then show ?thesis by simp
qed

lemma sub_borrow_value:
  assumes "0 \<le> c" "c \<le> 1"
  shows "int (from_le (sub_borrow ps c)) = (int (from_le (map fst ps)) - int (from_le (map snd ps)) - c) mod 256 ^ length ps"
  using assms
proof (induction ps c rule: sub_borrow.induct)
  case (2 a b ps c)
  let ?s = "int (unat a) - int (unat b) - c" and ?r = "int (from_le (map fst ps)) - int (from_le (map snd ps))"
  let ?c = "if ?s < 0 then 1 else 0 :: int"
  have ab: "int (unat a) < 256" "int (unat b) < 256" using unsigned_less [of a] unsigned_less [of b] by simp_all
  have "0 \<le> int (unat a)" "0 \<le> int (unat b)" by (rule of_nat_0_le_iff)+
  then have "?s < 256" "-256 \<le> ?s" using ab "2.prems" by linarith+
  then have borrow: "?s div 256 = - ?c" by (rule borrow_div)
  have "(?s + 256 * ?r) mod (256 * 256 ^ length ps) = 256 * ((?s + 256 * ?r) div 256 mod 256 ^ length ps) + (?s + 256 * ?r) mod 256"
    by (rule zmod_zmult2_eq) simp
  moreover have "(?s + 256 * ?r) div 256 = ?r - ?c" "(?s + 256 * ?r) mod 256 = ?s mod 256"
    using borrow by (simp_all only: div_mult_self2 mod_mult_self2 zero_neq_numeral [symmetric] not_False_eq_True)
  ultimately have "(?s + 256 * ?r) mod (256 * 256 ^ length ps) = int (unat (of_int ?s :: u8)) + 256 * ((?r - ?c) mod 256 ^ length ps)"
    unfolding unat_of_int8 by (simp only: add.commute)
  moreover have "(256 :: int) ^ length ((a, b) # ps) = 256 * 256 ^ length ps" by simp
  moreover have "int (from_le (map fst ((a, b) # ps))) - int (from_le (map snd ((a, b) # ps))) - c = ?s + 256 * ?r"
    by (simp add: algebra_simps)
  moreover have "int (from_le (sub_borrow ps ?c)) = (?r - ?c) mod 256 ^ length ps" by (rule "2.IH" [OF refl]) simp_all
  ultimately show ?case by (simp only: sub_borrow.simps Let_def from_le.simps of_nat_add of_nat_mult of_nat_numeral)
qed simp

text \<open>
  C19. The byte-wise addition and subtraction of the interpreter are addition and subtraction modulo
  \<open>2 ^ 256\<close>, carries and borrows included.
\<close>

theorem u256_add_sub_exact:
  assumes "length a = 32" "length b = 32"
  shows "from_be (u256_add a b) = (from_be a + from_be b) mod 2 ^ 256 \<and>
    int (from_be (u256_sub a b)) = (int (from_be a) - int (from_be b)) mod 2 ^ 256"
proof -
  have zip: "map fst (rev (zip a b)) = rev a" "map snd (rev (zip a b)) = rev b" "length (rev (zip a b)) = 32"
    using assms by (simp_all flip: rev_map)
  have p: "(256 :: nat) ^ 32 = 2 ^ 256" "(256 :: int) ^ 32 = 2 ^ 256" by simp_all
  have "from_be (u256_add a b) = (from_be a + from_be b) mod 2 ^ 256"
    using add_carry_value [of "rev (zip a b)" 0] unfolding zip p by (simp only: u256_add_def from_be_def rev_rev_ident add_0_right)
  moreover have "int (from_be (u256_sub a b)) = (int (from_be a) - int (from_be b)) mod 2 ^ 256"
    using sub_borrow_value [of 0 "rev (zip a b)"] unfolding zip p by (simp only: u256_sub_def from_be_def rev_rev_ident diff_0_right)
  ultimately show ?thesis ..
qed

section \<open>Multiplication loses carries\<close>

text \<open>The largest value of two limbs, whose square needs four.\<close>

definition two_limbs :: u256 where
  "two_limbs = replicate 16 0 @ replicate 16 255"

lemma limbs_two_limbs: "limbs two_limbs = [18446744073709551615, 18446744073709551615, 0, 0]"
proof -
  have "[0..<4] = [0, 1, 2, 3 :: nat]" by (simp add: upt_rec)
  then show ?thesis by (simp add: limbs_def two_limbs_def from_be_def from_le_replicate)
qed

lemma mul_two_limbs:
  "fold (mul_step (limbs two_limbs) (limbs two_limbs)) (List.product [0..<4] [0..<4]) [0, 0, 0, 0] =
    [1, 0, 18446744073709551614, 18446744073709551614]"
  unfolding limbs_two_limbs by (simp add: mul_step_def u64_add_def upt_rec)

text \<open>
  The 256-bit multiplication is wrong: the carry into the next limb is added with wrap-around, and the carry out
  of that addition is dropped. The square of \<open>2 ^ 128 - 1\<close>, which fits in 256 bits, comes out as
  \<open>2 ^ 192\<close> too small.
\<close>

theorem u256_mul_loses_carry:
  "from_be two_limbs = 2 ^ 128 - 1 \<and>
   from_be (u256_mul two_limbs two_limbs) + 2 ^ 192 = (2 ^ 128 - 1) ^ 2"
proof -
  have "from_be two_limbs = 2 ^ 128 - 1" by (simp add: two_limbs_def from_be_def from_le_append from_le_replicate)
  moreover have "from_le (to_le 8 v) = v" if "v < 256 ^ 8" for v using that by (rule from_to_le)
  then have "from_be (u256_mul two_limbs two_limbs) = 1 + 2 ^ 128 * 18446744073709551614 + 2 ^ 192 * 18446744073709551614"
    by (simp add: u256_mul_def mul_two_limbs from_be_def to_be_def from_le_append del: to_le.simps)
  ultimately show ?thesis by simp
qed

theorem u256_add_sub_exact_witness:
  "from_be (u256_add (from_u64 300) (from_u64 500)) = 800 \<and> int (from_be (u256_sub (from_u64 300) (from_u64 500))) = 2 ^ 256 - 200"
proof -
  have "from_be (from_u64 n) = n" if "n < 2 ^ 64" for n
    using that by (simp add: from_be_def from_u64_def to_be_def from_le_append from_to_le from_le_replicate del: to_le.simps)
  then have v: "from_be (from_u64 300) = 300" "from_be (from_u64 500) = 500" by simp_all
  show ?thesis using u256_add_sub_exact [of "from_u64 300" "from_u64 500"] unfolding v by (simp add: from_u64_def)
qed

section \<open>The lane permutation\<close>

text \<open>
  In the standard (FIPS 202, steps rho and pi), lane \<open>(x, y)\<close>, stored at \<open>x + 5 * y\<close>, is rotated and moved to
  lane \<open>(y, 2 * x + 3 * y)\<close>.
\<close>

definition pi_dest :: "nat \<Rightarrow> nat" where
  "pi_dest i = (let x = i mod 5; y = i div 5 in y + 5 * ((2 * x + 3 * y) mod 5))"

definition standard_rho_pi :: "64 word list \<Rightarrow> 64 word list" where
  "standard_rho_pi st = fold (\<lambda>i b. b[pi_dest i := rotl64 (KECCAK_ROT ! i) (st ! i)]) [0..<25] (replicate 25 0)"

lemma upt_25: "[0..<25] = [0, 1, 2, 3, 4, 5, 6, 7, 8, 9, 10, 11, 12, 13, 14, 15, 16, 17, 18, 19, 20, 21, 22, 23, 24 :: nat]"
  by (simp add: upt_rec)

lemma pi_dest_table: "map pi_dest KECCAK_PI = [0..<25]"
  by (simp add: KECCAK_PI_def pi_dest_def upt_25)

text \<open>
  The permutation table of the hash is inverted: entry \<open>i\<close> names the lane that the standard moves to \<open>i\<close>, but the
  code writes lane \<open>i\<close> to the entry. Lane 1 ends in lane 6, where the standard puts it in lane 10, and the
  step is not the one of the standard.
\<close>

theorem keccak_lanes_inverted:
  "map pi_dest KECCAK_PI = [0..<25] \<and>
   (\<forall>st. keccak_rho_pi st ! 6 = rotl64 1 (st ! 1) \<and> standard_rho_pi st ! 10 = rotl64 1 (st ! 1)) \<and>
   keccak_rho_pi \<noteq> standard_rho_pi"
proof -
  have code: "keccak_rho_pi st ! 6 = rotl64 1 (st ! 1)" "keccak_rho_pi st ! 10 = rotl64 6 (st ! 7)" for st
    by (simp_all add: keccak_rho_pi_def KECCAK_PI_def KECCAK_ROT_def upt_25)
  moreover have std: "standard_rho_pi st ! 10 = rotl64 1 (st ! 1)" for st
    by (simp add: standard_rho_pi_def pi_dest_def KECCAK_ROT_def upt_25)
  moreover have "keccak_rho_pi \<noteq> standard_rho_pi"
  proof
    assume eq: "keccak_rho_pi = standard_rho_pi"
    have "rotl64 6 ((replicate 25 0)[1 := 1] ! 7) = rotl64 1 ((replicate 25 0)[1 := 1] ! 1)"
      using code(2) [of "(replicate 25 0)[1 := 1]"] std [of "(replicate 25 0)[1 := 1]"] unfolding eq by simp
    then show False by (simp add: rotl64_def nth_list_update)
  qed
  ultimately show ?thesis using pi_dest_table by blast
qed

end
