(* ===== verification/Evm_State.thy ===== *)
theory Evm_State
  imports Evm_Words
begin

text \<open>
  The configuration, the errors, the counters and the account store of the EVM interpreter
  (\<open>src/src/blockchain/revm_port.rs\<close>: \<open>EvmError\<close>, \<open>EvmConfig\<close>,
  \<open>EvmMetrics\<close>, \<open>Account\<close>, \<open>EvmStateDb\<close>).

  The ordered maps of the store are read and written by key only, so they are maps. The files
  \<open>/evm/acct/<address>\<close> of the file system are the map \<open>sd_db\<close> from addresses to file
  contents, present when the store was opened with a database name. This is the file system within one boot, where a write
  is read back under its full name: on disk, \<open>Ionafs\<close> cuts these names of 50 bytes to 47, so that the files are not found after
  a remount.
\<close>

section \<open>Errors, configuration, counters\<close>

datatype evm_error =
    OutOfGas nat nat
  | StackOverflow nat
  | StackUnderflow
  | InvalidJumpDest nat
  | CodeTooLarge nat nat
  | InsufficientBalance nat nat
  | Revert bytes
  | Halted string
  | InvalidOpcode u8
  | StaticCallViolation
  | AccountNotFound
  | EvmIo string
  | EvmConfigError string
  | EvmInternal string

record evm_config =
  ec_gas_limit :: nat
  ec_intrinsic_gas :: nat
  ec_gas_per_zero_byte :: nat
  ec_gas_per_nonzero_byte :: nat
  ec_max_stack_depth :: nat
  ec_max_code_size :: nat
  ec_enable_access_list :: bool
  ec_enable_refunds :: bool
  ec_enable_push0 :: bool
  ec_trace_opcodes :: bool
  ec_collect_metrics :: bool

definition default_config :: evm_config where
  "default_config = \<lparr> ec_gas_limit = 30000000, ec_intrinsic_gas = 21000, ec_gas_per_zero_byte = 4,
     ec_gas_per_nonzero_byte = 16, ec_max_stack_depth = 1024, ec_max_code_size = 24576,
     ec_enable_access_list = True, ec_enable_refunds = True, ec_enable_push0 = True,
     ec_trace_opcodes = False, ec_collect_metrics = True \<rparr>"

definition validate :: "evm_config \<Rightarrow> (evm_error, unit) result" where
  "validate cfg =
     (if ec_gas_limit cfg = 0 then Err (EvmConfigError ''gas_limit must be > 0'')
      else if ec_intrinsic_gas cfg = 0 then Err (EvmConfigError ''intrinsic_gas must be > 0'')
      else if ec_max_stack_depth cfg = 0 then Err (EvmConfigError ''max_stack_depth must be > 0'')
      else if ec_max_code_size cfg = 0 then Err (EvmConfigError ''max_code_size must be > 0'')
      else Ok ())"

record evm_metrics =
  mt_total_txs :: nat
  mt_successful_txs :: nat
  mt_failed_txs :: nat
  mt_total_gas_used :: nat
  mt_total_gas_refunded :: nat
  mt_opcode_counts :: "nat list"

definition default_metrics :: evm_metrics where
  "default_metrics = \<lparr> mt_total_txs = 0, mt_successful_txs = 0, mt_failed_txs = 0, mt_total_gas_used = 0,
     mt_total_gas_refunded = 0, mt_opcode_counts = replicate 256 0 \<rparr>"

definition evm_record_tx :: "bool \<Rightarrow> nat \<Rightarrow> nat \<Rightarrow> evm_metrics \<Rightarrow> evm_metrics" where
  "evm_record_tx success gas_used gas_refunded m =
     (let m1 = m\<lparr>mt_total_txs := u64_add (mt_total_txs m) 1\<rparr>;
          m2 = (if success then m1\<lparr>mt_successful_txs := u64_add (mt_successful_txs m1) 1\<rparr>
                else m1\<lparr>mt_failed_txs := u64_add (mt_failed_txs m1) 1\<rparr>)
      in m2\<lparr>mt_total_gas_used := u64_add (mt_total_gas_used m2) gas_used,
            mt_total_gas_refunded := u64_add (mt_total_gas_refunded m2) gas_refunded\<rparr>)"

definition record_opcode :: "u8 \<Rightarrow> nat list \<Rightarrow> nat list" where
  "record_opcode op cs = cs[unat op := u64_add (cs ! unat op) 1]"

definition reset_metrics :: "evm_metrics \<Rightarrow> evm_metrics" where
  "reset_metrics m = m\<lparr>mt_total_txs := 0, mt_successful_txs := 0, mt_failed_txs := 0, mt_total_gas_used := 0,
     mt_total_gas_refunded := 0, mt_opcode_counts := map (\<lambda>_. 0) (mt_opcode_counts m)\<rparr>"

section \<open>Accounts\<close>

type_synonym address = bytes

record account =
  ac_balance :: nat
  ac_nonce :: nat
  ac_code :: bytes
  ac_storage :: "u256 \<rightharpoonup> u256"

definition default_account :: account where
  "default_account = \<lparr> ac_balance = 0, ac_nonce = 0, ac_code = [], ac_storage = Map.empty \<rparr>"

definition u128_add :: "nat \<Rightarrow> nat \<Rightarrow> nat" where
  "u128_add a b = (a + b) mod 2 ^ 128"

text \<open>The contents of an account file: what \<open>get_account\<close> reads and \<open>commit\<close> writes.\<close>

definition account_of_file :: "bytes \<Rightarrow> account" where
  "account_of_file data = \<lparr> ac_balance = from_le (take 16 data), ac_nonce = from_le (take 8 (drop 16 data)),
     ac_code = drop 32 data, ac_storage = Map.empty \<rparr>"

definition account_file :: "account \<Rightarrow> bytes" where
  "account_file acc = to_le 16 (ac_balance acc) @ to_le 8 (ac_nonce acc) @ replicate 8 0 @ ac_code acc"

section \<open>The store\<close>

record evm_state =
  sd_accounts :: "address \<rightharpoonup> account"
  sd_dirty :: "address \<rightharpoonup> account"
  sd_db :: "(address \<rightharpoonup> bytes) option"
  sd_snapshots :: "(address \<rightharpoonup> account) list"
  sd_static_call :: bool

definition new_state :: "(address \<rightharpoonup> bytes) option \<Rightarrow> evm_state" where
  "new_state db = \<lparr> sd_accounts = Map.empty, sd_dirty = Map.empty, sd_db = db, sd_snapshots = [],
     sd_static_call = False \<rparr>"

definition get_account :: "address \<Rightarrow> evm_state \<Rightarrow> account \<times> evm_state" where
  "get_account addr st =
     (case sd_dirty st addr of
        Some acc \<Rightarrow> (acc, st)
      | None \<Rightarrow> (case sd_accounts st addr of
            Some acc \<Rightarrow> (acc, st)
          | None \<Rightarrow> (case sd_db st of
                None \<Rightarrow> (default_account, st)
              | Some files \<Rightarrow> (case files addr of
                    None \<Rightarrow> (default_account, st)
                  | Some data \<Rightarrow>
                      if length data \<ge> 32 then
                        let acc = account_of_file data
                        in (acc, st\<lparr>sd_accounts := (sd_accounts st)(addr \<mapsto> acc)\<rparr>)
                      else (default_account, st)))))"

definition set_account :: "address \<Rightarrow> account \<Rightarrow> evm_state \<Rightarrow> evm_state" where
  "set_account addr acc st =
     (if sd_static_call st then st else st\<lparr>sd_dirty := (sd_dirty st)(addr \<mapsto> acc)\<rparr>)"

definition get_storage :: "address \<Rightarrow> u256 \<Rightarrow> evm_state \<Rightarrow> u256 \<times> evm_state" where
  "get_storage addr slot st =
     (let (acc, st1) = get_account addr st
      in (case ac_storage acc slot of None \<Rightarrow> zero256 | Some v \<Rightarrow> v, st1))"

definition set_storage :: "address \<Rightarrow> u256 \<Rightarrow> u256 \<Rightarrow> evm_state \<Rightarrow> evm_state" where
  "set_storage addr slot val st =
     (if sd_static_call st then st
      else let (acc, st1) = get_account addr st
        in set_account addr
             (if val = zero256 then acc\<lparr>ac_storage := (ac_storage acc)(slot := None)\<rparr>
              else acc\<lparr>ac_storage := (ac_storage acc)(slot \<mapsto> val)\<rparr>) st1)"

text \<open>The bytes of a number without its leading zero bytes, of which at least one is kept.\<close>

definition rlp_number :: "nat \<Rightarrow> bytes" where
  "rlp_number n = (let bs = to_be 8 n
     in drop (case position (\<lambda>b. b \<noteq> 0) bs of None \<Rightarrow> 7 | Some i \<Rightarrow> i) bs)"

definition rlp_create :: "address \<Rightarrow> nat \<Rightarrow> bytes" where
  "rlp_create sender nonce =
     (let rlp = 0x94 # sender @
            (if nonce = 0 then [0x80]
             else if nonce < 0x80 then [of_nat nonce]
             else of_nat (0x80 + length (rlp_number nonce)) # rlp_number nonce);
          total_len = length rlp
      in (if total_len < 56 then [of_nat (0xc0 + total_len)]
          else of_nat (0xf7 + length (rlp_number total_len)) # rlp_number total_len) @ rlp)"

definition compute_create_addr :: "address \<Rightarrow> nat \<Rightarrow> address" where
  "compute_create_addr sender nonce = drop 12 (keccak256 (rlp_create sender nonce))"

definition snapshot :: "evm_state \<Rightarrow> evm_state" where
  "snapshot st = st\<lparr>sd_snapshots := sd_dirty st # sd_snapshots st\<rparr>"

definition revert :: "evm_state \<Rightarrow> evm_state" where
  "revert st =
     (case sd_snapshots st of
        [] \<Rightarrow> st
      | snap # rest \<Rightarrow> st\<lparr>sd_snapshots := rest, sd_dirty := snap\<rparr>)"

definition commit_state :: "evm_state \<Rightarrow> evm_state" where
  "commit_state st = st\<lparr>
     sd_accounts := sd_accounts st ++ sd_dirty st,
     sd_db := map_option (\<lambda>files. files ++ (\<lambda>a. map_option account_file (sd_dirty st a))) (sd_db st),
     sd_dirty := Map.empty,
     sd_snapshots := []\<rparr>"

definition enter_static :: "evm_state \<Rightarrow> evm_state" where
  "enter_static st = st\<lparr>sd_static_call := True\<rparr>"

definition exit_static :: "evm_state \<Rightarrow> evm_state" where
  "exit_static st = st\<lparr>sd_static_call := False\<rparr>"

definition account_balance :: "address \<Rightarrow> evm_state \<Rightarrow> nat \<times> evm_state" where
  "account_balance addr st = (let (acc, st1) = get_account addr st in (ac_balance acc, st1))"

definition transfer :: "address \<Rightarrow> address \<Rightarrow> nat \<Rightarrow> evm_state \<Rightarrow> (evm_error, unit) result \<times> evm_state" where
  "transfer from_addr to_addr val st =
     (if val = 0 then (Ok (), st)
      else let (from_acc, st1) = get_account from_addr st
        in if ac_balance from_acc < val then (Err (InsufficientBalance val (ac_balance from_acc)), st1)
           else let st2 = set_account from_addr (from_acc\<lparr>ac_balance := ac_balance from_acc - val\<rparr>) st1;
                    (to_acc, st3) = get_account to_addr st2
             in (Ok (), set_account to_addr (to_acc\<lparr>ac_balance := u128_add (ac_balance to_acc) val\<rparr>) st3))"

section \<open>The store as a map of accounts\<close>

text \<open>What the store holds for an address: the written account, the cached one, or the one on disk.\<close>

definition account_at :: "evm_state \<Rightarrow> address \<Rightarrow> account" where
  "account_at st addr = fst (get_account addr st)"

definition balance_at :: "evm_state \<Rightarrow> address \<Rightarrow> nat" where
  "balance_at st addr = ac_balance (account_at st addr)"

text \<open>
  The contract the interpreter relies on: a read (\<open>touch\<close> is what it leaves behind, the cache of
  \<open>get_account\<close> filled) changes no account, and a write changes exactly one.
\<close>

locale account_store =
  fixes view :: "'s \<Rightarrow> 'a \<Rightarrow> 'r" and put :: "'a \<Rightarrow> 'r \<Rightarrow> 's \<Rightarrow> 's"
    and touch :: "'a \<Rightarrow> 's \<Rightarrow> 's" and writable :: "'s \<Rightarrow> bool"
  assumes view_put: "writable s \<Longrightarrow> view (put a r s) = (view s)(a := r)"
    and view_touch: "view (touch a s) = view s"
    and writable_put: "writable (put a r s) = writable s"
    and writable_touch: "writable (touch a s) = writable s"
begin

lemmas store_laws = view_put view_touch writable_put writable_touch

lemma view_move:
  assumes "writable s"
  shows "view (put t r' (touch t (put f r (touch f s)))) = (view s)(f := r, t := r')"
  using assms by (simp add: store_laws)

lemma sum_move:
  fixes amount :: "'r \<Rightarrow> nat"
  assumes "finite A" "f \<in> A" "t \<in> A"
    and "amount r + v = amount (m f)" "amount r' = amount ((m(f := r)) t) + v"
  shows "(\<Sum>a\<in>A. amount ((m(f := r, t := r')) a)) = (\<Sum>a\<in>A. amount (m a))"
proof -
  note at = sum.remove [OF \<open>finite A\<close>]
  have "(\<Sum>a\<in>A - {t}. amount ((m(f := r, t := r')) a)) = (\<Sum>a\<in>A - {t}. amount ((m(f := r)) a))"
    "(\<Sum>a\<in>A - {f}. amount ((m(f := r)) a)) = (\<Sum>a\<in>A - {f}. amount (m a))"
    by (rule sum.cong; simp)+
  with at [OF \<open>t \<in> A\<close>, of "\<lambda>a. amount ((m(f := r, t := r')) a)"] at [OF \<open>t \<in> A\<close>, of "\<lambda>a. amount ((m(f := r)) a)"]
    at [OF \<open>f \<in> A\<close>, of "\<lambda>a. amount ((m(f := r)) a)"] at [OF \<open>f \<in> A\<close>, of "\<lambda>a. amount (m a)"] assms(4,5)
  show ?thesis by simp
qed

end

lemma get_account_state:
  "snd (get_account a st) = st \<or>
    (\<exists>files data. sd_db st = Some files \<and> files a = Some data \<and> 32 \<le> length data \<and> sd_dirty st a = None \<and>
      sd_accounts st a = None \<and> snd (get_account a st) = st\<lparr>sd_accounts := (sd_accounts st)(a \<mapsto> account_of_file data)\<rparr>)"
  by (auto simp: get_account_def Let_def split: option.splits)

lemma get_account_keeps [simp]:
  "sd_dirty (snd (get_account a st)) = sd_dirty st" "sd_db (snd (get_account a st)) = sd_db st"
  "sd_snapshots (snd (get_account a st)) = sd_snapshots st" "sd_static_call (snd (get_account a st)) = sd_static_call st"
  using get_account_state [of a st] by auto

lemma account_at_get_account [simp]: "account_at (snd (get_account a st)) = account_at st"
proof (rule ext)
  fix b
  show "account_at (snd (get_account a st)) b = account_at st b"
    using get_account_state [of a st] by (auto simp: account_at_def get_account_def Let_def split: option.splits)
qed

lemma get_account_eq: "get_account a st = (account_at st a, snd (get_account a st))"
  by (simp add: account_at_def)

lemma account_at_set_account: "\<not> sd_static_call st \<Longrightarrow> account_at (set_account a acc st) = (account_at st)(a := acc)"
  by (rule ext) (auto simp: account_at_def set_account_def get_account_def Let_def split: option.splits)

lemma set_account_keeps [simp]:
  "sd_static_call (set_account a acc st) = sd_static_call st" "sd_snapshots (set_account a acc st) = sd_snapshots st"
  "sd_accounts (set_account a acc st) = sd_accounts st" "sd_db (set_account a acc st) = sd_db st"
  by (simp_all add: set_account_def)

interpretation evm_store: account_store account_at set_account "\<lambda>a st. snd (get_account a st)" "\<lambda>st. \<not> sd_static_call st"
  by unfold_locales (simp_all add: account_at_set_account)

lemma account_at_new_state: "account_at (new_state None) a = default_account"
  by (simp add: account_at_def get_account_def new_state_def)

lemma account_at_commit [simp]: "account_at (commit_state st) = account_at st"
  by (rule ext)
    (auto simp: account_at_def get_account_def commit_state_def Let_def map_add_def split: option.splits)

section \<open>Transfers\<close>

lemma transfer_eq:
  "transfer f t v st =
     (if v = 0 then (Ok (), st)
      else if balance_at st f < v then (Err (InsufficientBalance v (balance_at st f)), snd (get_account f st))
      else let st2 = set_account f ((account_at st f)\<lparr>ac_balance := balance_at st f - v\<rparr>) (snd (get_account f st));
               to_acc = account_at st2 t
        in (Ok (), set_account t (to_acc\<lparr>ac_balance := u128_add (ac_balance to_acc) v\<rparr>) (snd (get_account t st2))))"
  by (simp add: transfer_def balance_at_def account_at_def Let_def split_beta)

text \<open>
  C13. A transfer moves exactly its value: outside static mode it succeeds exactly when the sender has the value. Between two
  accounts it then takes the value from the one balance and adds it to the other, and nothing else of any account
  changes; a transfer to oneself or one that fails changes no account. So the total balance of any set of accounts that holds both ends
  is unchanged. The total must fit the balance's 128 bits.
\<close>

theorem transfer_conserves:
  assumes "finite A" "f \<in> A" "t \<in> A" "\<not> sd_static_call st" "(\<Sum>a\<in>A. balance_at st a) < 2 ^ 128"
  shows "is_ok (fst (transfer f t v st)) = (v \<le> balance_at st f) \<and>
    account_at (snd (transfer f t v st)) =
      (if v \<le> balance_at st f \<and> f \<noteq> t
       then (account_at st)(f := (account_at st f)\<lparr>ac_balance := balance_at st f - v\<rparr>,
         t := (account_at st t)\<lparr>ac_balance := balance_at st t + v\<rparr>)
       else account_at st) \<and>
    (\<Sum>a\<in>A. balance_at (snd (transfer f t v st)) a) = (\<Sum>a\<in>A. balance_at st a)"
proof (cases "v = 0 \<or> balance_at st f < v")
  case True
  then have "account_at (snd (transfer f t v st)) = account_at st" by (auto simp: transfer_eq)
  with True show ?thesis by (auto simp: transfer_eq balance_at_def fun_eq_iff)
next
  case False
  define r where "r = (account_at st f)\<lparr>ac_balance := balance_at st f - v\<rparr>"
  define to_acc where "to_acc = ((account_at st)(f := r)) t"
  define r' where "r' = to_acc\<lparr>ac_balance := u128_add (ac_balance to_acc) v\<rparr>"
  let ?st = "snd (transfer f t v st)"
  have view: "account_at ?st = (account_at st)(f := r, t := r')"
    using False assms(4) by (simp add: transfer_eq Let_def r_def r'_def to_acc_def evm_store.store_laws)
  have "ac_balance to_acc + v < 2 ^ 128"
  proof (cases "f = t")
    case True
    with False have "ac_balance to_acc + v = balance_at st f" by (simp add: to_acc_def r_def)
    moreover have "balance_at st f \<le> (\<Sum>a\<in>A. balance_at st a)" using assms by (intro member_le_sum) simp_all
    ultimately show ?thesis using assms(5) by simp
  next
    case neq: False
    have "(\<Sum>a\<in>{f, t}. balance_at st a) \<le> (\<Sum>a\<in>A. balance_at st a)" using assms by (intro sum_mono2) auto
    with neq False assms(5) show ?thesis by (simp add: to_acc_def balance_at_def)
  qed
  then have r': "ac_balance r' = ac_balance to_acc + v" by (simp add: r'_def u128_add_def)
  have "(\<Sum>a\<in>A. ac_balance (account_at ?st a)) = (\<Sum>a\<in>A. ac_balance (account_at st a))"
    unfolding view using assms(1-3) r' False by (intro evm_store.sum_move [where v = v]) (simp_all add: r_def to_acc_def balance_at_def)
  moreover have "account_at ?st = (if f \<noteq> t
      then (account_at st)(f := r, t := (account_at st t)\<lparr>ac_balance := balance_at st t + v\<rparr>) else account_at st)"
  proof (cases "f = t")
    case True
    then have "r' = account_at st t" using r' False by (simp add: r'_def to_acc_def r_def balance_at_def)
    with True show ?thesis unfolding view by auto
  next
    case neq: False
    then have "r' = (account_at st t)\<lparr>ac_balance := balance_at st t + v\<rparr>" using r' by (simp add: r'_def to_acc_def balance_at_def)
    with neq show ?thesis unfolding view by simp
  qed
  ultimately show ?thesis using False by (auto simp: transfer_eq Let_def balance_at_def r_def)
qed

theorem transfer_conserves_witness:
  "let st = set_account [1] (default_account\<lparr>ac_balance := 9\<rparr>) (new_state None); st1 = snd (transfer [1] [2] 7 st)
   in balance_at st1 [1] = 2 \<and> balance_at st1 [2] = 7 \<and> (\<Sum>a\<in>{[1], [2]}. balance_at st1 a) = 9"
proof -
  let ?st = "set_account [1] (default_account\<lparr>ac_balance := 9\<rparr>) (new_state None)"
  have "balance_at ?st [1] = 9" "balance_at ?st [2] = 0" "\<not> sd_static_call ?st"
    by (simp_all add: balance_at_def account_at_set_account new_state_def account_at_def get_account_def default_account_def)
  then show ?thesis using transfer_conserves [of "{[1], [2]}" "[1]" "[2]" ?st 7] by (simp add: Let_def) (simp add: balance_at_def)
qed

section \<open>Snapshots\<close>

text \<open>The operations of the interpreter between a snapshot and the decision to keep or drop its effects.\<close>

datatype state_op =
    OpGet address
  | OpSet address account
  | OpStore address u256 u256
  | OpTransfer address address nat

fun apply_op :: "state_op \<Rightarrow> evm_state \<Rightarrow> evm_state" where
  "apply_op (OpGet a) st = snd (get_account a st)"
| "apply_op (OpSet a acc) st = set_account a acc st"
| "apply_op (OpStore a slot v) st = set_storage a slot v st"
| "apply_op (OpTransfer f t v) st = snd (transfer f t v st)"

text \<open>The states from which \<open>revert\<close> goes back to the view \<open>m\<close> over the writes \<open>d\<close>.\<close>

definition reverts_to :: "(address \<rightharpoonup> account) \<Rightarrow> (address \<Rightarrow> account) \<Rightarrow> evm_state \<Rightarrow> bool" where
  "reverts_to d m st \<longleftrightarrow>
     (\<exists>rest. sd_snapshots st = d # rest) \<and> account_at (st\<lparr>sd_dirty := d\<rparr>) = m"

lemma account_at_cong:
  assumes "sd_accounts s = sd_accounts s'" "sd_dirty s = sd_dirty s'" "sd_db s = sd_db s'"
  shows "account_at s = account_at s'"
  using assms by (auto simp: fun_eq_iff account_at_def get_account_def Let_def split: option.splits if_splits)

lemma reverts_to_snapshot: "reverts_to (sd_dirty st) (account_at st) (snapshot st)"
  by (auto simp: reverts_to_def snapshot_def intro: account_at_cong)

lemma reverts_to_get: "reverts_to d m st \<Longrightarrow> reverts_to d m (snd (get_account a st))"
proof -
  have "account_at (snd (get_account a st)\<lparr>sd_dirty := d\<rparr>) b = account_at (st\<lparr>sd_dirty := d\<rparr>) b" for b
    using get_account_state [of a st] by (auto simp: account_at_def get_account_def Let_def split: option.splits)
  then have "account_at (snd (get_account a st)\<lparr>sd_dirty := d\<rparr>) = account_at (st\<lparr>sd_dirty := d\<rparr>)" by (rule ext)
  then show "reverts_to d m st \<Longrightarrow> reverts_to d m (snd (get_account a st))" by (simp add: reverts_to_def)
qed

lemma reverts_to_set: "reverts_to d m st \<Longrightarrow> reverts_to d m (set_account a acc st)"
  by (simp add: reverts_to_def set_account_def)

lemma reverts_to_apply_op: "reverts_to d m st \<Longrightarrow> reverts_to d m (apply_op op st)"
  by (cases op) (auto simp: set_storage_def transfer_eq Let_def split_beta intro!: reverts_to_get reverts_to_set)

lemma reverts_to_fold: "reverts_to d m st \<Longrightarrow> reverts_to d m (fold apply_op ops st)"
  by (induction ops arbitrary: st) (simp_all add: reverts_to_apply_op)

lemma account_at_revert: "reverts_to d m st \<Longrightarrow> account_at (revert st) = m"
  by (auto simp: reverts_to_def revert_def intro: account_at_cong)

text \<open>
  C18. Reverting to a snapshot undoes every read, write, storage write and transfer made since, whatever their number
  and order: every account is as it was. A commit in between drops the snapshots, and then the same revert undoes nothing.
\<close>

theorem revert_undoes_writes:
  "account_at (revert (fold apply_op ops (snapshot st))) = account_at st \<and>
   account_at (revert (commit_state (fold apply_op ops (snapshot st)))) = account_at (fold apply_op ops (snapshot st))"
proof -
  have "account_at (revert (fold apply_op ops (snapshot st))) = account_at st"
    by (rule account_at_revert [OF reverts_to_fold [OF reverts_to_snapshot]])
  moreover have "revert (commit_state st') = commit_state st'" for st' by (simp add: revert_def commit_state_def)
  ultimately show ?thesis by simp
qed

section \<open>Accounts on disk\<close>

lemma account_file_round_trip:
  assumes "ac_balance acc < 2 ^ 128" "ac_nonce acc < 2 ^ 64"
  shows "account_of_file (account_file acc) = acc\<lparr>ac_storage := Map.empty\<rparr>"
proof -
  have "from_le (to_le 16 (ac_balance acc)) = ac_balance acc" "from_le (to_le 8 (ac_nonce acc)) = ac_nonce acc"
    using assms by (simp_all add: from_to_le del: to_le.simps)
  then show ?thesis by (simp add: account_of_file_def account_file_def del: to_le.simps)
qed

text \<open>
  What a commit writes is what a store opened later on the same files reads, for every account written: balance,
  nonce and code survive. The storage of the account does not; the later store finds every slot empty.
\<close>

theorem commit_then_reopen:
  assumes "sd_db st = Some files" "sd_dirty st a = Some acc" "ac_balance acc < 2 ^ 128" "ac_nonce acc < 2 ^ 64"
  shows "account_at (new_state (sd_db (commit_state st))) a = acc\<lparr>ac_storage := Map.empty\<rparr>"
proof -
  have "32 \<le> length (account_file acc)" by (simp add: account_file_def del: to_le.simps)
  with assms show ?thesis
    by (simp add: account_at_def get_account_def new_state_def commit_state_def account_file_round_trip Let_def del: to_le.simps)
qed

theorem commit_then_reopen_witness:
  "get_storage [1] zero256 (set_storage [1] zero256 (from_u64 5) (new_state (Some Map.empty))) =
     (from_u64 5, set_storage [1] zero256 (from_u64 5) (new_state (Some Map.empty))) \<and>
   ac_storage (account_at (new_state (sd_db (commit_state
     (set_storage [1] zero256 (from_u64 5) (new_state (Some Map.empty)))))) [1]) zero256 = None"
proof -
  let ?acc = "default_account\<lparr>ac_storage := [zero256 \<mapsto> from_u64 5]\<rparr>"
  have "from_be zero256 \<noteq> from_be (from_u64 5)"
    by (simp add: from_be_def from_u64_def to_be_def from_le_append from_to_le from_le_replicate del: to_le.simps)
  then have "from_u64 5 \<noteq> zero256" by metis
  then have st: "set_storage [1] zero256 (from_u64 5) (new_state (Some Map.empty)) =
    (new_state (Some Map.empty))\<lparr>sd_dirty := [[1] \<mapsto> ?acc]\<rparr>"
    by (simp add: set_storage_def get_account_def set_account_def new_state_def default_account_def)
  show ?thesis
    using commit_then_reopen [of "(new_state (Some Map.empty))\<lparr>sd_dirty := [[1] \<mapsto> ?acc]\<rparr>" Map.empty "[1]" ?acc]
    unfolding st by (simp add: get_storage_def get_account_def) (simp add: new_state_def default_account_def)
qed

end
