(* ===== verification/Evm.thy ===== *)
theory Evm
  imports Evm_State "HOL-Library.Signed_Division"
begin

text \<open>
  The interpreter loop and the executor (\<open>src/src/blockchain/revm_port.rs\<close>: \<open>Vm\<close>,
  \<open>EvmExecutor\<close>).

  The stack is a list with its top first. An opcode maps the machine to an outcome: it goes on, returns an
  error, panics, or asks for a nested machine to be run. The opcodes that run a nested machine (CREATE, CREATE2, CALL,
  CALLCODE, DELEGATECALL) are split at that run: \<open>VCall\<close> holds the nested machine, the caller as it waits and what
  it waits for, and \<open>resume\<close> is the code after \<open>sub_vm.run()\<close>. A panic is a slice out of
  range, a buffer larger than \<open>isize::MAX\<close> or a signed division that overflows; the allocator is taken to serve
  every smaller request. \<open>if !self.use_gas(n) { break; }\<close> leaves \<open>reverted\<close> set, which ends the
  loop, so it is \<open>charge n\<close> where nothing follows it.
\<close>

unbundle bit_operations_syntax

section \<open>The machine\<close>

record evm_log =
  lg_address :: address
  lg_topics :: "u256 list"
  lg_data :: bytes

record vm =
  vm_state :: evm_state
  vm_code :: bytes
  vm_pc :: nat
  vm_stack :: "u256 list"
  vm_memory :: bytes
  vm_gas :: nat
  vm_gas_limit :: nat
  vm_caller :: address
  vm_origin :: address
  vm_address :: address
  vm_value :: nat
  vm_calldata :: bytes
  vm_output :: bytes
  vm_logs :: "evm_log list"
  vm_stopped :: bool
  vm_reverted :: bool
  vm_returndata_size :: nat
  vm_refund :: nat
  vm_static_call :: bool
  vm_counts :: "nat list"

definition vm_new ::
  "evm_state \<Rightarrow> bytes \<Rightarrow> address \<Rightarrow> address \<Rightarrow> nat \<Rightarrow> bytes \<Rightarrow> nat \<Rightarrow> nat list \<Rightarrow> bool \<Rightarrow> vm" where
  "vm_new st code caller addr val calldata gas_limit counts static_call =
     \<lparr> vm_state = st, vm_code = code, vm_pc = 0, vm_stack = [], vm_memory = [], vm_gas = gas_limit,
       vm_gas_limit = gas_limit, vm_caller = caller, vm_origin = caller, vm_address = addr, vm_value = val,
       vm_calldata = calldata, vm_output = [], vm_logs = [], vm_stopped = False, vm_reverted = False,
       vm_returndata_size = 0, vm_refund = 0, vm_static_call = static_call, vm_counts = counts \<rparr>"

definition use_gas :: "nat \<Rightarrow> vm \<Rightarrow> bool \<times> vm" where
  "use_gas n vm =
     (if vm_gas vm < n then (False, vm\<lparr>vm_reverted := True\<rparr>) else (True, vm\<lparr>vm_gas := vm_gas vm - n\<rparr>))"

definition charge :: "nat \<Rightarrow> vm \<Rightarrow> vm" where
  "charge n vm = snd (use_gas n vm)"

definition push :: "evm_config \<Rightarrow> u256 \<Rightarrow> vm \<Rightarrow> vm" where
  "push cfg v vm =
     (if length (vm_stack vm) \<ge> ec_max_stack_depth cfg then vm\<lparr>vm_reverted := True\<rparr>
      else vm\<lparr>vm_stack := v # vm_stack vm\<rparr>)"

definition pop :: "vm \<Rightarrow> u256 \<times> vm" where
  "pop vm = (case vm_stack vm of [] \<Rightarrow> (zero256, vm) | v # rest \<Rightarrow> (v, vm\<lparr>vm_stack := rest\<rparr>))"

definition peek :: "vm \<Rightarrow> u256" where
  "peek vm = (case vm_stack vm of [] \<Rightarrow> zero256 | v # _ \<Rightarrow> v)"

definition pop_u64 :: "vm \<Rightarrow> nat \<times> vm" where
  "pop_u64 vm = (let (v, vm1) = pop vm in (to_u64 v, vm1))"

fun pop_n :: "nat \<Rightarrow> vm \<Rightarrow> u256 list \<times> vm" where
  "pop_n 0 vm = ([], vm)"
| "pop_n (Suc n) vm = (let (v, vm1) = pop vm; (vs, vm2) = pop_n n vm1 in (v # vs, vm2))"

section \<open>Memory\<close>

definition ISIZE_MAX :: nat where
  "ISIZE_MAX = 2 ^ 63 - 1"

definition mem_expand :: "nat \<Rightarrow> nat \<Rightarrow> vm \<Rightarrow> vm option" where
  "mem_expand offset len vm =
     (if len = 0 then Some vm
      else let need = u64_add offset len; m = vm_memory vm
        in if need > length m then
             let new_len = u64_add need 31 div 32 * 32
             in if new_len > ISIZE_MAX then None
                else Some (vm\<lparr>vm_memory := take new_len m @ replicate (new_len - length m) 0\<rparr>)
           else Some vm)"

text \<open>\<open>m[off..off + len]\<close>, read and written; \<open>None\<close> is the panic of a range out of bounds or,
  for the write, of lengths that differ.\<close>

definition slice :: "bytes \<Rightarrow> nat \<Rightarrow> nat \<Rightarrow> bytes option" where
  "slice m off len =
     (let e = u64_add off len in if off \<le> e \<and> e \<le> length m then Some (take (e - off) (drop off m)) else None)"

definition mem_write :: "nat \<Rightarrow> bytes \<Rightarrow> vm \<Rightarrow> vm option" where
  "mem_write off data vm =
     (let m = vm_memory vm; e = u64_add off (length data)
      in if off \<le> e \<and> e \<le> length m \<and> e - off = length data
         then Some (vm\<lparr>vm_memory := take off m @ data @ drop e m\<rparr>) else None)"

definition mload :: "nat \<Rightarrow> vm \<Rightarrow> (u256 \<times> vm) option" where
  "mload off vm =
     (case mem_expand off 32 vm of
        None \<Rightarrow> None
      | Some vm1 \<Rightarrow> map_option (\<lambda>v. (v, vm1)) (slice (vm_memory vm1) off 32))"

definition mstore :: "nat \<Rightarrow> u256 \<Rightarrow> vm \<Rightarrow> vm option" where
  "mstore off v vm = (case mem_expand off 32 vm of None \<Rightarrow> None | Some vm1 \<Rightarrow> mem_write off v vm1)"

definition mstore8 :: "nat \<Rightarrow> u8 \<Rightarrow> vm \<Rightarrow> vm option" where
  "mstore8 off b vm =
     (case mem_expand off 1 vm of
        None \<Rightarrow> None
      | Some vm1 \<Rightarrow> if off < length (vm_memory vm1) then Some (vm1\<lparr>vm_memory := (vm_memory vm1)[off := b]\<rparr>) else None)"

section \<open>Outcomes of an opcode\<close>

datatype call_frame = FCreate address nat | FCall nat nat

datatype vm_outcome = VContinue vm | VError evm_error vm | VPanic | VCall call_frame vm vm

definition continue_with :: "vm option \<Rightarrow> (vm \<Rightarrow> vm_outcome) \<Rightarrow> vm_outcome" where
  "continue_with r k = (case r of None \<Rightarrow> VPanic | Some vm \<Rightarrow> k vm)"

text \<open>\<open>mem_expand(off, len)\<close> followed by a read of \<open>memory[off..off + len]\<close>.\<close>

definition with_slice :: "nat \<Rightarrow> nat \<Rightarrow> vm \<Rightarrow> (bytes \<Rightarrow> vm \<Rightarrow> vm_outcome) \<Rightarrow> vm_outcome" where
  "with_slice off len vm k =
     continue_with (mem_expand off len vm)
       (\<lambda>vm1. case slice (vm_memory vm1) off len of None \<Rightarrow> VPanic | Some data \<Rightarrow> k data vm1)"

text \<open>\<open>self.state.transfer(..)?\<close> when the value is not zero.\<close>

definition with_transfer :: "address \<Rightarrow> address \<Rightarrow> nat \<Rightarrow> vm \<Rightarrow> (vm \<Rightarrow> vm_outcome) \<Rightarrow> vm_outcome" where
  "with_transfer f t v vm k =
     (if v > 0 then
        case transfer f t v (vm_state vm) of
          (Inl e, st) \<Rightarrow> VError e (vm\<lparr>vm_state := st\<rparr>)
        | (Inr _, st) \<Rightarrow> k (vm\<lparr>vm_state := st\<rparr>)
      else k vm)"

definition vm_account :: "address \<Rightarrow> vm \<Rightarrow> account \<times> vm" where
  "vm_account a vm = (let (acc, st) = get_account a (vm_state vm) in (acc, vm\<lparr>vm_state := st\<rparr>))"

definition binop :: "evm_config \<Rightarrow> nat \<Rightarrow> (u256 \<Rightarrow> u256 \<Rightarrow> u256) \<Rightarrow> vm \<Rightarrow> vm_outcome" where
  "binop cfg gas f vm =
     (let (a, vm1) = pop vm; (b, vm2) = pop vm1 in VContinue (charge gas (push cfg (f a b) vm2)))"

definition push_charge :: "evm_config \<Rightarrow> nat \<Rightarrow> u256 \<Rightarrow> vm \<Rightarrow> vm_outcome" where
  "push_charge cfg gas v vm = VContinue (charge gas (push cfg v vm))"

section \<open>Arithmetic opcodes\<close>

definition to_i64 :: "nat \<Rightarrow> int" where
  "to_i64 n = (if n < 2 ^ 63 then int n else int n - 2 ^ 64)"

definition of_i64 :: "int \<Rightarrow> nat" where
  "of_i64 z = nat (z mod 2 ^ 64)"

text \<open>\<open>i64\<close> division and remainder panic on \<open>i64::MIN\<close> by \<open>-1\<close>.\<close>

definition signed_op :: "evm_config \<Rightarrow> (int \<Rightarrow> int \<Rightarrow> int) \<Rightarrow> vm \<Rightarrow> vm_outcome" where
  "signed_op cfg f vm =
     (let (a, vm1) = pop vm; (b, vm2) = pop vm1; av = to_i64 (to_u64 a); bv = to_i64 (to_u64 b)
      in if bv = 0 then push_charge cfg 5 zero256 vm2
         else if av = - (2 ^ 63) \<and> bv = -1 then VPanic
         else push_charge cfg 5 (from_u64 (of_i64 (f av bv))) vm2)"

definition modop :: "evm_config \<Rightarrow> (nat \<Rightarrow> nat \<Rightarrow> nat) \<Rightarrow> vm \<Rightarrow> vm_outcome" where
  "modop cfg f vm =
     (let (a, vm1) = pop_u64 vm; (b, vm2) = pop_u64 vm1; (n, vm3) = pop_u64 vm2
      in push_charge cfg 8 (if n = 0 then zero256 else from_u128 (f a b mod n)) vm3)"

fun bit_len :: "nat \<Rightarrow> nat" where
  "bit_len n = (if n = 0 then 0 else Suc (bit_len (n div 2)))"

declare bit_len.simps [simp del]

definition exec_exp :: "evm_config \<Rightarrow> vm \<Rightarrow> vm_outcome" where
  "exec_exp cfg vm =
     (let (base, vm1) = pop vm; (e, vm2) = pop_u64 vm1;
          gas_cost = 10 + 50 * (if e = 0 then 0 else bit_len e div 8 + 1);
          (enough, vm3) = use_gas gas_cost vm2
      in VContinue (if enough then push cfg (from_u64 (to_u64 base ^ min e 63 mod 2 ^ 64)) vm3 else vm3))"

definition exec_signextend :: "evm_config \<Rightarrow> vm \<Rightarrow> vm_outcome" where
  "exec_signextend cfg vm =
     (let (b, vm1) = pop_u64 vm; (x, vm2) = pop vm1; bt = b mod 32; sgn = x ! (31 - bt) AND 0x80
      in push_charge cfg 5 (take (32 - bt) x @ replicate bt (if sgn \<noteq> 0 then 0xFF else 0)) vm2)"

definition exec_arith :: "evm_config \<Rightarrow> nat \<Rightarrow> vm \<Rightarrow> vm_outcome" where
  "exec_arith cfg op vm =
     (if op = 0x01 then binop cfg 3 u256_add vm
      else if op = 0x02 then binop cfg 5 u256_mul vm
      else if op = 0x03 then binop cfg 3 u256_sub vm
      else if op = 0x04 then
        binop cfg 5 (\<lambda>a b. if to_u64 b = 0 then zero256 else from_u64 (to_u64 a div to_u64 b)) vm
      else if op = 0x05 then signed_op cfg (sdiv) vm
      else if op = 0x06 then
        binop cfg 5 (\<lambda>a b. if to_u64 b = 0 then zero256 else from_u64 (to_u64 a mod to_u64 b)) vm
      else if op = 0x07 then signed_op cfg (smod) vm
      else if op = 0x08 then modop cfg (+) vm
      else if op = 0x09 then modop cfg (*) vm
      else if op = 0x0a then exec_exp cfg vm
      else exec_signextend cfg vm)"

section \<open>Comparison and bit opcodes\<close>

definition bool256 :: "bool \<Rightarrow> u256" where
  "bool256 b = (if b then from_u64 1 else zero256)"

text \<open>\<open>>>\<close> on \<open>i64\<close> takes the amount modulo 64 in the release profile.\<close>

definition exec_compare :: "evm_config \<Rightarrow> nat \<Rightarrow> vm \<Rightarrow> vm_outcome" where
  "exec_compare cfg op vm =
     (if op = 0x10 then binop cfg 3 (\<lambda>a b. bool256 (to_u64 a < to_u64 b)) vm
      else if op = 0x11 then binop cfg 3 (\<lambda>a b. bool256 (to_u64 a > to_u64 b)) vm
      else if op = 0x12 then binop cfg 3 (\<lambda>a b. bool256 (to_i64 (to_u64 a) < to_i64 (to_u64 b))) vm
      else if op = 0x13 then binop cfg 3 (\<lambda>a b. bool256 (to_i64 (to_u64 a) > to_i64 (to_u64 b))) vm
      else if op = 0x14 then binop cfg 3 (\<lambda>a b. bool256 (a = b)) vm
      else if op = 0x15 then (let (a, vm1) = pop vm in push_charge cfg 3 (bool256 (a = zero256)) vm1)
      else if op = 0x16 then binop cfg 3 (map2 (AND)) vm
      else if op = 0x17 then binop cfg 3 (map2 (OR)) vm
      else if op = 0x18 then binop cfg 3 (map2 (XOR)) vm
      else if op = 0x19 then (let (a, vm1) = pop vm in push_charge cfg 3 (map NOT a) vm1)
      else if op = 0x1a then
        binop cfg 3 (\<lambda>idx val. replicate 31 0 @ [if to_u64 idx < 32 then val ! to_u64 idx else 0]) vm
      else if op = 0x1b then
        binop cfg 3 (\<lambda>shift val. let s = min (to_u64 shift) 255
          in from_u64 (if s \<ge> 64 then 0 else to_u64 val * 2 ^ s mod 2 ^ 64)) vm
      else if op = 0x1c then
        binop cfg 3 (\<lambda>shift val. let s = min (to_u64 shift) 255
          in from_u64 (if s \<ge> 64 then 0 else to_u64 val div 2 ^ s)) vm
      else
        binop cfg 3 (\<lambda>shift val. let s = min (to_u64 shift) 255
          in from_u64 (of_i64 (to_i64 (to_u64 val) div 2 ^ (s mod 64)))) vm)"

section \<open>Environment opcodes\<close>

definition word_cost :: "nat \<Rightarrow> nat" where
  "word_cost len = u64_add len 31 div 32"

definition exec_sha3 :: "evm_config \<Rightarrow> vm \<Rightarrow> vm_outcome" where
  "exec_sha3 cfg vm =
     (let (off, vm1) = pop_u64 vm; (len, vm2) = pop_u64 vm1
      in with_slice off len vm2 (\<lambda>data vm3.
           push_charge cfg (30 + 6 * word_cost len) (keccak256 data) vm3))"

text \<open>The body of the four copy opcodes; \<open>src\<close> is the buffer copied from.\<close>

definition exec_copy :: "nat \<Rightarrow> (vm \<Rightarrow> bytes \<times> vm) \<Rightarrow> vm \<Rightarrow> vm_outcome" where
  "exec_copy base src vm =
     (let (dest_off, vm1) = pop_u64 vm; (src_off, vm2) = pop_u64 vm1; (len, vm3) = pop_u64 vm2
      in continue_with (mem_expand dest_off len vm3) (\<lambda>vm4.
           let (buf, vm5) = src vm4; copy_len = min len (length buf - src_off);
               gas_cost = base + 3 * word_cost len
           in if copy_len > 0 then
                continue_with (mem_write dest_off (take copy_len (drop src_off buf)) vm5)
                  (\<lambda>vm6. VContinue (charge gas_cost vm6))
              else VContinue (charge gas_cost vm5)))"

definition pop_address :: "vm \<Rightarrow> address \<times> vm" where
  "pop_address vm = (let (v, vm1) = pop vm in (drop 12 v, vm1))"

definition exec_environment :: "evm_config \<Rightarrow> nat \<Rightarrow> vm \<Rightarrow> vm_outcome" where
  "exec_environment cfg op vm =
     (if op = 0x30 then push_charge cfg 2 (replicate 12 0 @ vm_address vm) vm
      else if op = 0x31 then
        (let (a, vm1) = pop_address vm; (acc, vm2) = vm_account a vm1
         in push_charge cfg 100 (from_u128 (ac_balance acc)) vm2)
      else if op = 0x32 then push_charge cfg 2 (replicate 12 0 @ vm_origin vm) vm
      else if op = 0x33 then push_charge cfg 2 (replicate 12 0 @ vm_caller vm) vm
      else if op = 0x34 then push_charge cfg 2 (from_u128 (vm_value vm)) vm
      else if op = 0x35 then
        (let (idx, vm1) = pop_u64 vm; data = vm_calldata vm
         in push_charge cfg 3
              (map (\<lambda>i. if u64_add idx i < length data then data ! u64_add idx i else 0) [0..<32]) vm1)
      else if op = 0x36 then push_charge cfg 2 (from_u64 (length (vm_calldata vm))) vm
      else if op = 0x37 then exec_copy 3 (\<lambda>vm. (vm_calldata vm, vm)) vm
      else if op = 0x38 then push_charge cfg 2 (from_u64 (length (vm_code vm))) vm
      else if op = 0x39 then exec_copy 3 (\<lambda>vm. (vm_code vm, vm)) vm
      else if op = 0x3a then push_charge cfg 2 (from_u64 1) vm
      else if op = 0x3b then
        (let (a, vm1) = pop_address vm; (acc, vm2) = vm_account a vm1
         in push_charge cfg 100 (from_u64 (length (ac_code acc))) vm2)
      else if op = 0x3c then
        (let (a, vm1) = pop_address vm
         in exec_copy 100 (\<lambda>vm. let (acc, vm2) = vm_account a vm in (ac_code acc, vm2)) vm1)
      else if op = 0x3d then push_charge cfg 2 (from_u64 (vm_returndata_size vm)) vm
      else if op = 0x3e then exec_copy 3 (\<lambda>vm. (vm_output vm, vm)) vm
      else
        (let (a, vm1) = pop_address vm; (acc, vm2) = vm_account a vm1
         in push_charge cfg 100 (if ac_code acc = [] then zero256 else keccak256 (ac_code acc)) vm2))"

definition exec_block_info :: "evm_config \<Rightarrow> nat \<Rightarrow> vm \<Rightarrow> vm_outcome" where
  "exec_block_info cfg op vm =
     (if op = 0x40 then (let (n, vm1) = pop_u64 vm in push_charge cfg 20 zero256 vm1)
      else if op = 0x41 then push_charge cfg 2 zero256 vm
      else if op = 0x42 then push_charge cfg 2 (from_u64 0) vm
      else if op = 0x43 then push_charge cfg 2 (from_u64 0) vm
      else if op = 0x44 then push_charge cfg 2 zero256 vm
      else if op = 0x45 then push_charge cfg 2 (from_u64 (vm_gas_limit vm)) vm
      else if op = 0x46 then push_charge cfg 2 (from_u64 1) vm
      else if op = 0x47 then
        (let (acc, vm1) = vm_account (vm_address vm) vm in push_charge cfg 5 (from_u128 (ac_balance acc)) vm1)
      else push_charge cfg 2 (from_u64 1) vm)"

section \<open>Memory, storage and control flow\<close>

definition jump_to :: "nat \<Rightarrow> vm \<Rightarrow> (vm \<Rightarrow> vm_outcome) \<Rightarrow> vm_outcome" where
  "jump_to dest vm k =
     (if dest < length (vm_code vm) \<and> vm_code vm ! dest = 0x5B then k (vm\<lparr>vm_pc := dest + 1\<rparr>)
      else VError (InvalidJumpDest dest) vm)"

definition exec_sstore :: "vm \<Rightarrow> vm_outcome" where
  "exec_sstore vm =
     (let (slot, vm1) = pop vm; (val, vm2) = pop vm1
      in if vm_static_call vm2 then VError StaticCallViolation vm2
         else let (current, st1) = get_storage (vm_address vm2) slot (vm_state vm2);
                  (enough, vm3) = use_gas 100 (vm2\<lparr>vm_state := set_storage (vm_address vm2) slot val st1\<rparr>)
           in VContinue (if enough \<and> current = zero256 \<and> val \<noteq> zero256
                then vm3\<lparr>vm_refund := u64_add (vm_refund vm3) 4800\<rparr> else vm3))"

definition exec_memory :: "evm_config \<Rightarrow> nat \<Rightarrow> vm \<Rightarrow> vm_outcome" where
  "exec_memory cfg op vm =
     (if op = 0x50 then VContinue (charge 2 (snd (pop vm)))
      else if op = 0x51 then
        (let (off, vm1) = pop_u64 vm
         in case mload off vm1 of
              None \<Rightarrow> VPanic
            | Some (val, vm2) \<Rightarrow> push_charge cfg (3 + (off div 32 + 1) * 3) val vm2)
      else if op = 0x52 then
        (let (off, vm1) = pop_u64 vm; (val, vm2) = pop vm1
         in continue_with (mstore off val vm2) (\<lambda>vm3. VContinue (charge 3 vm3)))
      else if op = 0x53 then
        (let (off, vm1) = pop_u64 vm; (val, vm2) = pop vm1
         in continue_with (mstore8 off (val ! 31) vm2) (\<lambda>vm3. VContinue (charge 3 vm3)))
      else if op = 0x54 then
        (let (slot, vm1) = pop vm; (val, st) = get_storage (vm_address vm1) slot (vm_state vm1)
         in push_charge cfg 100 val (vm1\<lparr>vm_state := st\<rparr>))
      else exec_sstore vm)"

definition exec_flow :: "evm_config \<Rightarrow> u8 \<Rightarrow> vm \<Rightarrow> vm_outcome" where
  "exec_flow cfg op vm =
     (if op = 0x56 then
        (let (dest, vm1) = pop_u64 vm in jump_to dest vm1 (\<lambda>vm2. VContinue (charge 8 vm2)))
      else if op = 0x57 then
        (let (dest, vm1) = pop_u64 vm; (cond, vm2) = pop vm1
         in if cond \<noteq> zero256 then jump_to dest vm2 (\<lambda>vm3. VContinue (charge 10 vm3))
            else VContinue (charge 10 vm2))
      else if op = 0x58 then push_charge cfg 2 (from_u64 (vm_pc vm - 1)) vm
      else if op = 0x59 then push_charge cfg 2 (from_u64 (length (vm_memory vm))) vm
      else if op = 0x5a then push_charge cfg 2 (from_u64 (vm_gas vm)) vm
      else if op = 0x5b then VContinue (charge 1 vm)
      else if ec_enable_push0 cfg then push_charge cfg 2 zero256 vm
      else VError (InvalidOpcode op) vm)"

section \<open>Stack and log opcodes\<close>

definition exec_push :: "evm_config \<Rightarrow> nat \<Rightarrow> vm \<Rightarrow> vm_outcome" where
  "exec_push cfg op vm =
     (let n = op - 0x5f;
          val = replicate (32 - n) 0 @
            map (\<lambda>i. if vm_pc vm + i < length (vm_code vm) then vm_code vm ! (vm_pc vm + i) else 0) [0..<n]
      in push_charge cfg 3 val (vm\<lparr>vm_pc := vm_pc vm + n\<rparr>))"

definition exec_dup :: "evm_config \<Rightarrow> nat \<Rightarrow> vm \<Rightarrow> vm_outcome" where
  "exec_dup cfg op vm =
     (let n = op - 0x7f
      in VContinue (charge 3 (if length (vm_stack vm) \<ge> n then push cfg (vm_stack vm ! (n - 1)) vm else vm)))"

definition exec_swap :: "nat \<Rightarrow> vm \<Rightarrow> vm_outcome" where
  "exec_swap op vm =
     (let n = op - 0x8f; s = vm_stack vm
      in VContinue (charge 3 (if length s > n then vm\<lparr>vm_stack := s[0 := s ! n, n := s ! 0]\<rparr> else vm)))"

definition exec_log :: "nat \<Rightarrow> vm \<Rightarrow> vm_outcome" where
  "exec_log op vm =
     (if vm_static_call vm then VError StaticCallViolation vm
      else let n_topics = op - 0xa0; (off, vm1) = pop_u64 vm; (len, vm2) = pop_u64 vm1;
               (topics, vm3) = pop_n n_topics vm2
        in with_slice off len vm3 (\<lambda>data vm4.
             VContinue (charge (u64_add (375 + 375 * n_topics) (u64_mul 8 len))
               (vm4\<lparr>vm_logs := vm_logs vm4 @
                 [\<lparr> lg_address = vm_address vm4, lg_topics = topics, lg_data = data \<rparr>]\<rparr>))))"

section \<open>Nested machines\<close>

definition pop_u128 :: "vm \<Rightarrow> nat \<times> vm" where
  "pop_u128 vm = (let (v, vm1) = pop vm in (from_be (drop 16 v), vm1))"

definition start_create :: "address \<Rightarrow> nat \<Rightarrow> bytes \<Rightarrow> vm \<Rightarrow> vm_outcome" where
  "start_create contract_addr val init_code vm =
     with_transfer (vm_caller vm) contract_addr val vm (\<lambda>vm1.
       let sub_gas = u64_mul (vm_gas vm1) 63 div 64
       in VCall (FCreate contract_addr val)
            (vm_new (new_state None) init_code (vm_caller vm1) contract_addr val [] sub_gas (vm_counts vm1) False)
            (vm1\<lparr>vm_gas := vm_gas vm1 - sub_gas\<rparr>))"

definition exec_create :: "vm \<Rightarrow> vm_outcome" where
  "exec_create vm =
     (if vm_static_call vm then VError StaticCallViolation vm
      else let (enough, vm1) = use_gas 32000 vm
        in if \<not> enough then VContinue vm1
           else let (val, vm2) = pop_u128 vm1; (off, vm3) = pop_u64 vm2; (len, vm4) = pop_u64 vm3
             in with_slice off len vm4 (\<lambda>init_code vm5.
                  let (sender_acc, vm6) = vm_account (vm_caller vm5) vm5;
                      contract_addr = compute_create_addr (vm_caller vm6) (ac_nonce sender_acc)
                  in start_create contract_addr val init_code vm6))"

definition create2_addr :: "address \<Rightarrow> u256 \<Rightarrow> bytes \<Rightarrow> address" where
  "create2_addr caller salt init_code = drop 12 (keccak256 (0xff # caller @ salt @ keccak256 init_code))"

definition exec_create2 :: "vm \<Rightarrow> vm_outcome" where
  "exec_create2 vm =
     (if vm_static_call vm then VError StaticCallViolation vm
      else let (enough, vm1) = use_gas 32000 vm
        in if \<not> enough then VContinue vm1
           else let (val, vm2) = pop_u128 vm1; (off, vm3) = pop_u64 vm2; (len, vm4) = pop_u64 vm3;
                    (salt, vm5) = pop vm4
             in with_slice off len vm5 (\<lambda>init_code vm6.
                  start_create (create2_addr (vm_caller vm6) salt init_code) val init_code vm6))"

definition start_call :: "nat \<Rightarrow> address \<Rightarrow> address \<Rightarrow> nat \<Rightarrow> bytes \<Rightarrow> nat \<Rightarrow> nat \<Rightarrow> vm \<Rightarrow> vm_outcome" where
  "start_call gas code_addr addr val calldata ret_off ret_len vm =
     (let (acc, vm1) = vm_account code_addr vm;
          sub_gas = min gas (u64_mul (vm_gas vm1) 63 div 64)
      in VCall (FCall ret_off ret_len)
           (vm_new (new_state None) (ac_code acc) (vm_caller vm1) addr val calldata sub_gas (vm_counts vm1) False)
           (vm1\<lparr>vm_gas := vm_gas vm1 - sub_gas\<rparr>))"

definition exec_call :: "vm \<Rightarrow> vm_outcome" where
  "exec_call vm =
     (let (gas, vm1) = pop_u64 vm; (addr, vm2) = pop_address vm1; (val, vm3) = pop_u128 vm2;
          (args_off, vm4) = pop_u64 vm3; (args_len, vm5) = pop_u64 vm4;
          (ret_off, vm6) = pop_u64 vm5; (ret_len, vm7) = pop_u64 vm6
      in if vm_static_call vm7 \<and> val > 0 then VError StaticCallViolation vm7
         else with_slice args_off args_len vm7 (\<lambda>calldata vm8.
           with_transfer (vm_caller vm8) addr val vm8 (\<lambda>vm9.
             start_call gas addr addr val calldata ret_off ret_len vm9)))"

definition exec_callcode :: "vm \<Rightarrow> vm_outcome" where
  "exec_callcode vm =
     (let (gas, vm1) = pop_u64 vm; (addr, vm2) = pop_address vm1; (val, vm3) = pop_u128 vm2;
          (args_off, vm4) = pop_u64 vm3; (args_len, vm5) = pop_u64 vm4;
          (ret_off, vm6) = pop_u64 vm5; (ret_len, vm7) = pop_u64 vm6
      in if vm_static_call vm7 \<and> val > 0 then VError StaticCallViolation vm7
         else with_slice args_off args_len vm7 (\<lambda>calldata vm8.
           with_transfer (vm_caller vm8) (vm_address vm8) val vm8 (\<lambda>vm9.
             start_call gas addr (vm_address vm9) val calldata ret_off ret_len vm9)))"

definition exec_delegatecall :: "vm \<Rightarrow> vm_outcome" where
  "exec_delegatecall vm =
     (let (gas, vm1) = pop_u64 vm; (addr, vm2) = pop_address vm1;
          (args_off, vm3) = pop_u64 vm2; (args_len, vm4) = pop_u64 vm3;
          (ret_off, vm5) = pop_u64 vm4; (ret_len, vm6) = pop_u64 vm5
      in with_slice args_off args_len vm6 (\<lambda>calldata vm7.
           start_call gas addr (vm_address vm7) (vm_value vm7) calldata ret_off ret_len vm7))"

section \<open>Halting opcodes\<close>

definition exec_return :: "vm \<Rightarrow> vm_outcome" where
  "exec_return vm =
     (let (off, vm1) = pop_u64 vm; (len, vm2) = pop_u64 vm1
      in with_slice off len vm2 (\<lambda>data vm3. VContinue (vm3\<lparr>vm_output := data, vm_stopped := True\<rparr>)))"

definition exec_revert :: "vm \<Rightarrow> vm_outcome" where
  "exec_revert vm =
     (let (off, vm1) = pop_u64 vm; (len, vm2) = pop_u64 vm1
      in with_slice off len vm2 (\<lambda>data vm3.
           VContinue (vm3\<lparr>vm_output := data, vm_reverted := True, vm_stopped := True\<rparr>)))"

definition exec_selfdestruct :: "vm \<Rightarrow> vm_outcome" where
  "exec_selfdestruct vm =
     (if vm_static_call vm then VError StaticCallViolation vm
      else let (beneficiary, vm1) = pop_address vm; (acc, vm2) = vm_account (vm_address vm1) vm1
        in with_transfer (vm_address vm2) beneficiary (ac_balance acc) vm2 (\<lambda>vm3.
             VContinue (charge 5000 (vm3\<lparr>vm_state := set_account (vm_address vm3) default_account (vm_state vm3),
               vm_stopped := True\<rparr>))))"

section \<open>The loop\<close>

definition exec_op :: "evm_config \<Rightarrow> u8 \<Rightarrow> vm \<Rightarrow> vm_outcome" where
  "exec_op cfg op vm =
     (let n = unat op
      in if n = 0 then VContinue (vm\<lparr>vm_stopped := True\<rparr>)
         else if n \<le> 0x0b then exec_arith cfg n vm
         else if 0x10 \<le> n \<and> n \<le> 0x1d then exec_compare cfg n vm
         else if n = 0x20 then exec_sha3 cfg vm
         else if 0x30 \<le> n \<and> n \<le> 0x3f then exec_environment cfg n vm
         else if 0x40 \<le> n \<and> n \<le> 0x48 then exec_block_info cfg n vm
         else if 0x50 \<le> n \<and> n \<le> 0x55 then exec_memory cfg n vm
         else if 0x56 \<le> n \<and> n \<le> 0x5c then exec_flow cfg op vm
         else if 0x60 \<le> n \<and> n \<le> 0x7f then exec_push cfg n vm
         else if 0x80 \<le> n \<and> n \<le> 0x8f then exec_dup cfg n vm
         else if 0x90 \<le> n \<and> n \<le> 0x9f then exec_swap n vm
         else if 0xa0 \<le> n \<and> n \<le> 0xa4 then exec_log n vm
         else if n = 0xf0 then exec_create vm
         else if n = 0xf1 then exec_call vm
         else if n = 0xf2 then exec_callcode vm
         else if n = 0xf3 then exec_return vm
         else if n = 0xf4 then exec_delegatecall vm
         else if n = 0xf5 then exec_create2 vm
         else if n = 0xf7 then exec_selfdestruct vm
         else if n = 0xfd then exec_revert vm
         else VError (InvalidOpcode op) vm)"

definition vm_step :: "evm_config \<Rightarrow> vm \<Rightarrow> vm_outcome" where
  "vm_step cfg vm =
     (let op = vm_code vm ! vm_pc vm
      in exec_op cfg op (vm\<lparr>vm_pc := vm_pc vm + 1, vm_counts := record_opcode op (vm_counts vm)\<rparr>))"

definition halted :: "vm \<Rightarrow> bool" where
  "halted vm \<longleftrightarrow> vm_stopped vm \<or> vm_reverted vm \<or> length (vm_code vm) \<le> vm_pc vm"

datatype run_result = Finished vm | Failed evm_error vm | Panicked

definition finish :: "vm \<Rightarrow> run_result" where
  "finish vm = (if vm_reverted vm then Failed (Revert (vm_output vm)) vm else Finished vm)"

text \<open>The code after \<open>sub_vm.run()\<close>: \<open>ok\<close> is \<open>sub_result.is_ok()\<close>, \<open>sub\<close> the nested machine.\<close>

definition resume_create :: "evm_config \<Rightarrow> address \<Rightarrow> nat \<Rightarrow> bool \<Rightarrow> vm \<Rightarrow> vm \<Rightarrow> vm" where
  "resume_create cfg contract_addr val ok sub vm =
     (let vm1 = vm\<lparr>vm_counts := vm_counts sub\<rparr>;
          vm2 = (if ok \<and> \<not> vm_reverted sub \<and> vm_output sub \<noteq> [] then
              let acc = default_account\<lparr>ac_balance := val, ac_code := vm_output sub\<rparr>
              in push cfg (replicate 12 0 @ contract_addr)
                   (vm1\<lparr>vm_state := commit_state (set_account contract_addr acc (vm_state vm1))\<rparr>)
            else push cfg zero256 vm1)
      in vm2\<lparr>vm_gas := u64_add (vm_gas vm2) (vm_gas sub), vm_logs := vm_logs vm2 @ vm_logs sub\<rparr>)"

definition resume_call :: "evm_config \<Rightarrow> nat \<Rightarrow> nat \<Rightarrow> bool \<Rightarrow> vm \<Rightarrow> vm \<Rightarrow> vm option" where
  "resume_call cfg ret_off ret_len ok sub vm =
     (let vm1 = vm\<lparr>vm_counts := vm_counts sub, vm_gas := u64_add (vm_gas vm) (vm_gas sub)\<rparr>;
          copied = (if ok \<and> \<not> vm_reverted sub then
              let copy_len = min ret_len (length (vm_output sub))
              in map_option (push cfg (from_u64 1))
                   (if copy_len > 0 then
                      Option.bind (mem_expand ret_off copy_len vm1) (mem_write ret_off (take copy_len (vm_output sub)))
                    else Some vm1)
            else Some (push cfg zero256 vm1))
      in map_option (\<lambda>vm2. vm2\<lparr>vm_logs := vm_logs vm2 @ vm_logs sub\<rparr>) copied)"

fun resume :: "evm_config \<Rightarrow> call_frame \<Rightarrow> bool \<Rightarrow> vm \<Rightarrow> vm \<Rightarrow> vm option" where
  "resume cfg (FCreate a v) ok sub vm = Some (resume_create cfg a v ok sub vm)"
| "resume cfg (FCall ret_off ret_len) ok sub vm = resume_call cfg ret_off ret_len ok sub vm"

definition sub_vm :: "run_result \<Rightarrow> (bool \<times> vm) option" where
  "sub_vm r = (case r of Finished vm \<Rightarrow> Some (True, vm) | Failed _ vm \<Rightarrow> Some (False, vm) | Panicked \<Rightarrow> None)"

definition resume_with :: "evm_config \<Rightarrow> call_frame \<Rightarrow> run_result \<Rightarrow> vm \<Rightarrow> vm option" where
  "resume_with cfg fr r par = Option.bind (sub_vm r) (\<lambda>(ok, sub). resume cfg fr ok sub par)"

partial_function (option) evm_run :: "evm_config \<Rightarrow> vm \<Rightarrow> run_result option" where
  "evm_run cfg vm =
     (if halted vm then Some (finish vm)
      else case vm_step cfg vm of
          VContinue vm1 \<Rightarrow> evm_run cfg vm1
        | VError e vm1 \<Rightarrow> Some (Failed e vm1)
        | VPanic \<Rightarrow> Some Panicked
        | VCall fr sub par \<Rightarrow>
            Option.bind (evm_run cfg sub) (\<lambda>r.
              case resume_with cfg fr r par of
                None \<Rightarrow> Some Panicked
              | Some vm1 \<Rightarrow> evm_run cfg vm1))"

section \<open>The executor\<close>

record evm_tx_result =
  tr_success :: bool
  tr_gas_used :: nat
  tr_gas_refunded :: nat
  tr_output :: bytes
  tr_logs :: "evm_log list"
  tr_error :: "evm_error option"

definition new_executor :: "evm_config \<Rightarrow> (evm_error, evm_config \<times> evm_metrics) result" where
  "new_executor cfg = (case validate cfg of Inl e \<Rightarrow> Err e | Inr _ \<Rightarrow> Ok (cfg, default_metrics))"

definition intrinsic_cost :: "evm_config \<Rightarrow> bytes \<Rightarrow> nat" where
  "intrinsic_cost cfg calldata =
     u64_add (ec_intrinsic_gas cfg)
       (fold (\<lambda>b s. u64_add s (if b = 0 then ec_gas_per_zero_byte cfg else ec_gas_per_nonzero_byte cfg)) calldata 0)"

datatype tx_outcome = TxDone "(evm_error, evm_tx_result) result" evm_state evm_metrics | TxPanic

definition result_of :: "nat \<Rightarrow> bool \<Rightarrow> run_result \<Rightarrow> vm \<Rightarrow> bytes \<Rightarrow> evm_tx_result" where
  "result_of gas_for_exec ok r vm out =
     \<lparr> tr_success = (ok \<and> \<not> vm_reverted vm), tr_gas_used = u64_sub gas_for_exec (vm_gas vm),
       tr_gas_refunded = vm_refund vm, tr_output = out, tr_logs = vm_logs vm,
       tr_error = (case r of Failed e _ \<Rightarrow> Some e | _ \<Rightarrow> None) \<rparr>"

definition close_tx :: "evm_tx_result \<Rightarrow> evm_state \<Rightarrow> nat list \<Rightarrow> evm_metrics \<Rightarrow> tx_outcome" where
  "close_tx res st counts m =
     TxDone (Ok res) (if tr_success res then commit_state st else revert st)
       (evm_record_tx (tr_success res) (tr_gas_used res) (tr_gas_refunded res) (m\<lparr>mt_opcode_counts := counts\<rparr>))"

text \<open>
  The source of \<open>transact\<close> takes the result of its match apart as a tuple, although each branch builds a struct, and
  reads \<open>sender_acc.nonce\<close> after the account was moved into \<open>set_account\<close>. Both are read by their evident meaning: the result is the struct, and
  the nonce is the one just stored.
\<close>

definition transact_create ::
  "evm_config \<Rightarrow> evm_metrics \<Rightarrow> evm_state \<Rightarrow> address \<Rightarrow> nat \<Rightarrow> nat \<Rightarrow> bytes \<Rightarrow> nat \<Rightarrow> tx_outcome option" where
  "transact_create cfg m st from_addr nonce val calldata gas_for_exec =
     (let contract_addr = compute_create_addr from_addr (u64_sub nonce 1);
          vm = vm_new (new_state None) calldata from_addr contract_addr val [] gas_for_exec (mt_opcode_counts m) False
      in map_option (\<lambda>r. case sub_vm r of
             None \<Rightarrow> TxPanic
           | Some (ok, vm1) \<Rightarrow>
               let res = result_of gas_for_exec ok r vm1 contract_addr;
                   st1 = (if tr_success res \<and> vm_output vm1 \<noteq> [] then
                       set_account contract_addr (default_account\<lparr>ac_balance := val, ac_code := vm_output vm1\<rparr>) st
                     else st)
               in close_tx res st1 (vm_counts vm1) m)
           (evm_run cfg vm))"

definition transact_call ::
  "evm_config \<Rightarrow> evm_metrics \<Rightarrow> evm_state \<Rightarrow> address \<Rightarrow> address \<Rightarrow> nat \<Rightarrow> bytes \<Rightarrow> nat \<Rightarrow> tx_outcome option" where
  "transact_call cfg m st from_addr dest val calldata gas_for_exec =
     (let (acc, st1) = get_account dest st;
          vm = vm_new st1 (ac_code acc) from_addr dest val calldata gas_for_exec (mt_opcode_counts m) False
      in map_option (\<lambda>r. case sub_vm r of
             None \<Rightarrow> TxPanic
           | Some (ok, vm1) \<Rightarrow>
               close_tx (result_of gas_for_exec ok r vm1 (vm_output vm1)) (vm_state vm1) (vm_counts vm1) m)
           (evm_run cfg vm))"

definition transact ::
  "evm_config \<Rightarrow> evm_metrics \<Rightarrow> evm_state \<Rightarrow> address \<Rightarrow> address option \<Rightarrow> nat \<Rightarrow> bytes \<Rightarrow> nat \<Rightarrow> tx_outcome option" where
  "transact cfg m st from_addr to_addr val calldata gas_limit =
     (let intrinsic = intrinsic_cost cfg calldata
      in if gas_limit < intrinsic then Some (TxDone (Err (OutOfGas gas_limit intrinsic)) st m)
         else let gas_for_exec = gas_limit - intrinsic; (sender_acc, st1) = get_account from_addr st
           in if ac_balance sender_acc < val then
                Some (TxDone (Err (InsufficientBalance val (ac_balance sender_acc))) st1 m)
              else let nonce = u64_add (ac_nonce sender_acc) 1;
                       st2 = snapshot (set_account from_addr (sender_acc\<lparr>ac_nonce := nonce\<rparr>) st1)
                in case to_addr of
                     None \<Rightarrow> transact_create cfg m st2 from_addr nonce val calldata gas_for_exec
                   | Some dest \<Rightarrow> transact_call cfg m st2 from_addr dest val calldata gas_for_exec)"

end
