(* ===== verification/Evm_Safety.thy ===== *)
theory Evm_Safety
  imports Evm
begin

text \<open>
  What the interpreter guarantees. Every opcode keeps the machine well formed (words of 32 bytes, a bounded stack, a memory of whole
  words) and either uses gas, halts, or hands over to a nested machine that is smaller; so every run ends,
  with no more gas than it started with.
\<close>

section \<open>Well-formed machines\<close>

definition storage_ok :: "account \<Rightarrow> bool" where
  "storage_ok acc \<longleftrightarrow> (\<forall>slot v. ac_storage acc slot = Some v \<longrightarrow> length v = 32)"

definition state_ok :: "evm_state \<Rightarrow> bool" where
  "state_ok st \<longleftrightarrow> (\<forall>a. storage_ok (account_at st a))"

definition has_code :: "evm_state \<Rightarrow> bool" where
  "has_code st \<longleftrightarrow> (\<exists>a. ac_code (account_at st a) \<noteq> [])"

definition vm_ok :: "evm_config \<Rightarrow> vm \<Rightarrow> bool" where
  "vm_ok cfg vm \<longleftrightarrow>
     length (vm_stack vm) \<le> ec_max_stack_depth cfg \<and> (\<forall>v \<in> set (vm_stack vm). length v = 32) \<and>
     32 dvd length (vm_memory vm) \<and> vm_gas vm < 2 ^ 64 \<and> state_ok (vm_state vm) \<and>
     length (vm_caller vm) = 20 \<and> length (vm_origin vm) = 20 \<and> length (vm_address vm) = 20"

text \<open>A machine reached inside an opcode before it has paid: \<open>vm0\<close> is the machine at the start of the opcode.\<close>

definition linked :: "evm_config \<Rightarrow> vm \<Rightarrow> vm \<Rightarrow> bool" where
  "linked cfg vm0 vm \<longleftrightarrow>
     vm_ok cfg vm \<and> vm_gas vm = vm_gas vm0 \<and> vm_code vm = vm_code vm0 \<and> vm_pc vm0 \<le> vm_pc vm \<and>
     (has_code (vm_state vm) \<longrightarrow> has_code (vm_state vm0))"

text \<open>What an opcode may do.\<close>

fun good :: "evm_config \<Rightarrow> vm \<Rightarrow> vm_outcome \<Rightarrow> bool" where
  "good cfg vm0 (VContinue vm) \<longleftrightarrow>
     vm_ok cfg vm \<and> vm_gas vm \<le> vm_gas vm0 \<and> (vm_gas vm < vm_gas vm0 \<or> vm_stopped vm \<or> vm_reverted vm)"
| "good cfg vm0 (VError e vm) \<longleftrightarrow> vm_ok cfg vm \<and> vm_gas vm \<le> vm_gas vm0"
| "good cfg vm0 VPanic \<longleftrightarrow> True"
| "good cfg vm0 (VCall (FCreate a v) sub par) \<longleftrightarrow>
     vm_ok cfg sub \<and> vm_ok cfg par \<and> length a = 20 \<and> vm_gas sub + vm_gas par < vm_gas vm0"
| "good cfg vm0 (VCall (FCall ret_off ret_len) sub par) \<longleftrightarrow>
     vm_ok cfg sub \<and> vm_ok cfg par \<and> vm_gas sub + vm_gas par \<le> vm_gas vm0 \<and>
     vm_code par = vm_code vm0 \<and> vm_pc vm0 \<le> vm_pc par \<and>
     (has_code (vm_state par) \<longrightarrow> has_code (vm_state vm0)) \<and> \<not> has_code (vm_state sub) \<and> vm_pc sub = 0 \<and>
     (vm_code sub \<noteq> [] \<longrightarrow> has_code (vm_state vm0))"

named_theorems good_intros \<open>rules that walk through an opcode\<close>

section \<open>Sizes of words\<close>

lemma length_keccak_round [simp]: "length (keccak_chi st) = 25"
  by (simp add: keccak_chi_def)

lemma length_keccak_f1600: "length (keccak_f1600 st) = 25"
proof -
  have "length (fold (\<lambda>rc st. let st1 = keccak_chi (keccak_rho_pi (keccak_theta st)) in st1[0 := st1 ! 0 XOR rc]) rcs s) =
    (if rcs = [] then length s else 25)" for rcs :: "64 word list" and s
    by (induction rcs arbitrary: s) (auto simp: Let_def)
  moreover have "KECCAK_RC \<noteq> []" by (simp add: KECCAK_RC_def)
  ultimately show ?thesis unfolding keccak_f1600_def by (simp only: if_False)
qed

lemma length_concat_words: "length (concat (map (to_le 8 \<circ> f) ws)) = 8 * length ws"
  by (induction ws) simp_all

lemma length_keccak256 [simp]: "length (keccak256 xs) = 32"
  unfolding keccak256_def Let_def length_concat_words [unfolded comp_def] by (simp add: length_keccak_f1600)

lemma length_words [simp]:
  "length (from_u64 n) = 32" "length (from_u128 n) = 32" "length (bool256 b) = 32"
  by (simp_all add: from_u64_def from_u128_def bool256_def)

lemma length_add_carry: "length (add_carry ps c) = length ps"
  by (induction ps c rule: add_carry.induct) (simp_all add: Let_def)

lemma length_sub_borrow: "length (sub_borrow ps c) = length ps"
  by (induction ps c rule: sub_borrow.induct) (simp_all add: Let_def)

lemma length_mul_fold: "length (fold (mul_step al bl) ijs r) = length r"
  by (induction ijs arbitrary: r) (simp_all add: mul_step_def Let_def)

lemma length_u256_mul [simp]: "length (u256_mul a b) = 32"
proof -
  have "length (concat (map (to_be 8) ws)) = 8 * length ws" for ws by (induction ws) simp_all
  then show ?thesis by (simp add: u256_mul_def length_mul_fold)
qed

lemma length_arith [simp]:
  "length a = 32 \<Longrightarrow> length b = 32 \<Longrightarrow> length (u256_add a b) = 32"
  "length a = 32 \<Longrightarrow> length b = 32 \<Longrightarrow> length (u256_sub a b) = 32"
  by (simp_all add: u256_add_def u256_sub_def length_add_carry length_sub_borrow)

lemma length_addresses [simp]:
  "length (compute_create_addr s n) = 20" "length (create2_addr s salt code) = 20"
  by (simp_all add: compute_create_addr_def create2_addr_def)

section \<open>The account store\<close>

lemma state_ok_new [simp]: "state_ok (new_state None)" "\<not> has_code (new_state None)"
  by (simp_all add: state_ok_def storage_ok_def has_code_def account_at_new_state default_account_def)

lemma state_ok_get [simp]:
  "state_ok (snd (get_account a st)) = state_ok st" "has_code (snd (get_account a st)) = has_code st"
  by (simp_all add: state_ok_def has_code_def)

lemma state_ok_commit [simp]: "state_ok (commit_state st) = state_ok st"
  by (simp add: state_ok_def)

lemma state_ok_set: "state_ok st \<Longrightarrow> storage_ok acc \<Longrightarrow> state_ok (set_account a acc st)"
  by (cases "sd_static_call st") (simp add: set_account_def, simp add: account_at_set_account state_ok_def)

lemma state_ok_get_storage:
  "state_ok st \<Longrightarrow> length (fst (get_storage a slot st)) = 32"
  "snd (get_storage a slot st) = snd (get_account a st)"
  by (auto simp: get_storage_def split_beta state_ok_def storage_ok_def account_at_def Let_def split: option.split)

lemma state_ok_set_storage: "state_ok st \<Longrightarrow> length v = 32 \<Longrightarrow> state_ok (set_storage a slot v st)"
proof -
  assume st: "state_ok st" and v: "length v = 32"
  then have "storage_ok (fst (get_account a st))" by (simp add: state_ok_def account_at_def)
  with st v show ?thesis
    by (auto simp: set_storage_def split_beta storage_ok_def Let_def intro!: state_ok_set split: if_splits)
qed

lemma transfer_view:
  "\<exists>b. account_at (snd (transfer f t v st)) a = (account_at st a)\<lparr>ac_balance := b\<rparr>"
proof (cases "sd_static_call st \<or> v = 0 \<or> balance_at st f < v")
  case True
  then have "account_at (snd (transfer f t v st)) a = account_at st a" by (auto simp: transfer_eq Let_def set_account_def)
  then show ?thesis by (intro exI [of _ "ac_balance (account_at st a)"]) simp
next
  case False
  then have "account_at (snd (transfer f t v st)) a = (account_at st a)\<lparr>ac_balance := balance_at (snd (transfer f t v st)) a\<rparr>"
    by (simp add: transfer_eq Let_def evm_store.store_laws balance_at_def)
  then show ?thesis ..
qed

lemma state_ok_transfer:
  assumes "state_ok st"
  shows "state_ok (snd (transfer f t v st))"
  unfolding state_ok_def
proof
  fix a
  obtain b where "account_at (snd (transfer f t v st)) a = (account_at st a)\<lparr>ac_balance := b\<rparr>" using transfer_view by blast
  with assms show "storage_ok (account_at (snd (transfer f t v st)) a)" by (simp add: state_ok_def storage_ok_def)
qed

lemma has_code_transfer: "has_code (snd (transfer f t v st)) \<Longrightarrow> has_code st"
proof -
  assume "has_code (snd (transfer f t v st))"
  then obtain a where a: "ac_code (account_at (snd (transfer f t v st)) a) \<noteq> []" by (auto simp: has_code_def)
  obtain b where "account_at (snd (transfer f t v st)) a = (account_at st a)\<lparr>ac_balance := b\<rparr>" using transfer_view by blast
  with a have "ac_code (account_at st a) \<noteq> []" by simp
  then show ?thesis by (auto simp: has_code_def)
qed

section \<open>Machines inside an opcode\<close>

lemma linked_refl: "vm_ok cfg vm \<Longrightarrow> linked cfg vm vm"
  by (simp add: linked_def)

lemma linked_pop [good_intros]: "linked cfg vm0 vm \<Longrightarrow> linked cfg vm0 (snd (pop vm))"
  by (auto simp: linked_def vm_ok_def pop_def split: list.split)

lemma length_pop [good_intros]: "linked cfg vm0 vm \<Longrightarrow> length (fst (pop vm)) = 32"
  by (auto simp: linked_def vm_ok_def pop_def split: list.split)

lemma linked_pops [good_intros]:
  assumes "linked cfg vm0 vm"
  shows "linked cfg vm0 (snd (pop_u64 vm))" "linked cfg vm0 (snd (pop_u128 vm))" "linked cfg vm0 (snd (pop_address vm))"
    "linked cfg vm0 (snd (pop_n n vm))"
proof -
  show "linked cfg vm0 (snd (pop_u64 vm))" "linked cfg vm0 (snd (pop_u128 vm))" "linked cfg vm0 (snd (pop_address vm))"
    using assms by (simp_all add: pop_u64_def pop_u128_def pop_address_def split_beta Let_def linked_pop)
  show "linked cfg vm0 (snd (pop_n n vm))"
    using assms by (induction n arbitrary: vm) (simp_all add: split_beta Let_def linked_pop)
qed

lemma length_pop_address [good_intros]: "linked cfg vm0 vm \<Longrightarrow> length (fst (pop_address vm)) = 20"
  by (simp add: pop_address_def split_beta Let_def length_pop)

lemma linked_account [good_intros]: "linked cfg vm0 vm \<Longrightarrow> linked cfg vm0 (snd (vm_account a vm))"
  by (simp add: vm_account_def split_beta linked_def vm_ok_def Let_def)

lemma linked_push [good_intros]: "linked cfg vm0 vm \<Longrightarrow> length v = 32 \<Longrightarrow> linked cfg vm0 (push cfg v vm)"
  by (auto simp: linked_def vm_ok_def push_def)

lemma linked_addresses:
  "linked cfg vm0 vm \<Longrightarrow> length (vm_caller vm) = 20" "linked cfg vm0 vm \<Longrightarrow> length (vm_origin vm) = 20"
  "linked cfg vm0 vm \<Longrightarrow> length (vm_address vm) = 20"
  by (simp_all add: linked_def vm_ok_def)

lemma linked_logs: "linked cfg vm0 vm \<Longrightarrow> linked cfg vm0 (vm\<lparr>vm_logs := l\<rparr>)"
  by (simp add: linked_def vm_ok_def)

lemma mem_expand_memory:
  assumes "mem_expand off len vm = Some vm1" "32 dvd length (vm_memory vm)"
  shows "\<exists>m. vm1 = vm\<lparr>vm_memory := m\<rparr> \<and> 32 dvd length m"
proof (cases "len = 0 \<or> u64_add off len \<le> length (vm_memory vm)")
  case True
  with assms(1) have "vm1 = vm" by (auto simp: mem_expand_def Let_def split: if_splits)
  with assms(2) show ?thesis by (intro exI [of _ "vm_memory vm"]) simp
next
  case False
  let ?n = "u64_add (u64_add off len) 31 div 32 * 32"
  have "vm1 = vm\<lparr>vm_memory := take ?n (vm_memory vm) @ replicate (?n - length (vm_memory vm)) 0\<rparr>"
    using assms(1) False by (auto simp: mem_expand_def Let_def split: if_splits)
  moreover have "length (take ?n (vm_memory vm) @ replicate (?n - length (vm_memory vm)) (0 :: u8)) = ?n" by simp
  ultimately show ?thesis by (intro exI conjI) (assumption, simp only: dvd_triv_right)
qed

lemma mem_write_memory:
  "mem_write off data vm = Some vm1 \<Longrightarrow> \<exists>m. vm1 = vm\<lparr>vm_memory := m\<rparr> \<and> length m = length (vm_memory vm)"
  by (auto simp: mem_write_def Let_def split: if_splits intro!: exI)

lemma linked_memory: "linked cfg vm0 vm \<Longrightarrow> 32 dvd length m \<Longrightarrow> linked cfg vm0 (vm\<lparr>vm_memory := m\<rparr>)"
  by (simp add: linked_def vm_ok_def)

lemma linked_dvd: "linked cfg vm0 vm \<Longrightarrow> 32 dvd length (vm_memory vm)"
  by (simp add: linked_def vm_ok_def)

lemma linked_mem_expand: "linked cfg vm0 vm \<Longrightarrow> mem_expand off len vm = Some vm1 \<Longrightarrow> linked cfg vm0 vm1"
  by (metis linked_dvd linked_memory mem_expand_memory)

lemma linked_mem_write: "linked cfg vm0 vm \<Longrightarrow> mem_write off data vm = Some vm1 \<Longrightarrow> linked cfg vm0 vm1"
  by (metis linked_dvd linked_memory mem_write_memory)

lemma linked_mstore: "linked cfg vm0 vm \<Longrightarrow> mstore off v vm = Some vm1 \<Longrightarrow> linked cfg vm0 vm1"
  by (auto simp: mstore_def split: option.splits intro: linked_mem_write linked_mem_expand)

lemma linked_mstore8: "linked cfg vm0 vm \<Longrightarrow> mstore8 off b vm = Some vm1 \<Longrightarrow> linked cfg vm0 vm1"
proof -
  assume vm: "linked cfg vm0 vm" and "mstore8 off b vm = Some vm1"
  then obtain vm2 where vm2: "mem_expand off 1 vm = Some vm2" "vm1 = vm2\<lparr>vm_memory := (vm_memory vm2)[off := b]\<rparr>"
    by (auto simp: mstore8_def split: option.splits if_splits)
  have "linked cfg vm0 vm2" using vm vm2(1) by (rule linked_mem_expand)
  then show "linked cfg vm0 vm1" unfolding vm2(2) by (intro linked_memory) (simp_all add: linked_dvd)
qed

lemma length_slice:
  assumes "slice m off len = Some data" "len < 2 ^ 64" "off < 2 ^ 64"
  shows "length data = len"
proof -
  have e: "off \<le> u64_add off len" "u64_add off len \<le> length m" "data = take (u64_add off len - off) (drop off m)"
    using assms(1) by (simp_all add: slice_def Let_def split: if_splits)
  have "u64_add off len = off + len"
  proof (rule ccontr)
    assume wrap: "u64_add off len \<noteq> off + len"
    then have "2 ^ 64 \<le> off + len" using u64_add_exact not_le by blast
    then have "u64_add off len = off + len - 2 ^ 64" using assms(2,3) by (simp add: u64_add_def le_mod_geq)
    with e(1) assms(2) \<open>2 ^ 64 \<le> off + len\<close> show False by simp
  qed
  with e show ?thesis by simp
qed

lemma linked_mload: "linked cfg vm0 vm \<Longrightarrow> mload off vm = Some (v, vm1) \<Longrightarrow> off < 2 ^ 64 \<Longrightarrow> linked cfg vm0 vm1 \<and> length v = 32"
  by (auto simp: mload_def split: option.splits intro: linked_mem_expand length_slice)

section \<open>Rules for opcodes\<close>

lemma to_u64_less: "to_u64 v < 2 ^ 64"
proof -
  have "from_le (rev (take 8 (drop 24 v))) < 256 ^ length (rev (take 8 (drop 24 v)))" by (rule from_le_bound)
  also have "\<dots> \<le> 256 ^ 8" by (rule power_increasing) simp_all
  finally show ?thesis by (simp add: to_u64_def from_be_def)
qed

lemma pop_u64_less [simp]: "fst (pop_u64 vm) < 2 ^ 64"
  using to_u64_less by (simp add: pop_u64_def split_beta Let_def del: power_numeral)

lemma good_charge [good_intros]: "linked cfg vm0 vm \<Longrightarrow> 0 < n \<Longrightarrow> good cfg vm0 (VContinue (charge n vm))"
  by (auto simp: linked_def vm_ok_def charge_def use_gas_def)

lemma good_push_charge [good_intros]:
  "linked cfg vm0 vm \<Longrightarrow> 0 < n \<Longrightarrow> length v = 32 \<Longrightarrow> good cfg vm0 (push_charge cfg n v vm)"
  unfolding push_charge_def by (intro good_charge linked_push)

lemma good_error [good_intros]: "linked cfg vm0 vm \<Longrightarrow> good cfg vm0 (VError e vm)"
  by (simp add: linked_def)

lemma good_stop:
  "linked cfg vm0 vm \<Longrightarrow> good cfg vm0 (VContinue (vm\<lparr>vm_stopped := True\<rparr>))"
  "linked cfg vm0 vm \<Longrightarrow> good cfg vm0 (VContinue (vm\<lparr>vm_output := d, vm_stopped := True\<rparr>))"
  "linked cfg vm0 vm \<Longrightarrow> good cfg vm0 (VContinue (vm\<lparr>vm_output := d, vm_reverted := True, vm_stopped := True\<rparr>))"
  by (simp_all add: linked_def vm_ok_def)

declare good.simps [simp del]

lemma good_panic [simp]: "good cfg vm0 VPanic"
  by (simp add: good.simps)

lemma good_continue_with:
  assumes "\<And>vm1. r = Some vm1 \<Longrightarrow> good cfg vm0 (k vm1)"
  shows "good cfg vm0 (continue_with r k)"
  using assms by (simp add: continue_with_def split: option.split)

lemma good_mem_expand [good_intros]:
  assumes "linked cfg vm0 vm" "\<And>vm1. linked cfg vm0 vm1 \<Longrightarrow> good cfg vm0 (k vm1)"
  shows "good cfg vm0 (continue_with (mem_expand off len vm) k)"
  using assms by (intro good_continue_with) (blast dest: linked_mem_expand)

lemma good_mem_write [good_intros]:
  assumes "linked cfg vm0 vm" "\<And>vm1. linked cfg vm0 vm1 \<Longrightarrow> good cfg vm0 (k vm1)"
  shows "good cfg vm0 (continue_with (mem_write off data vm) k)"
    "good cfg vm0 (continue_with (mstore off v vm) k)" "good cfg vm0 (continue_with (mstore8 off b vm) k)"
  using assms by (intro good_continue_with; blast dest: linked_mem_write linked_mstore linked_mstore8)+

text \<open>CREATE pays first, so the machine it goes on with (\<open>vm1\<close>) is not the one of the start.\<close>

lemma good_slice_after:
  assumes "linked cfg vm1 vm" "\<And>data vm2. linked cfg vm1 vm2 \<Longrightarrow> good cfg vm0 (k data vm2)"
  shows "good cfg vm0 (with_slice off len vm k)"
  unfolding with_slice_def using assms
  by (auto intro!: good_continue_with split: option.split dest: linked_mem_expand)

lemma good_transfer_after:
  assumes vm: "linked cfg vm1 vm" "vm_gas vm1 \<le> vm_gas vm0" and k: "\<And>vm2. linked cfg vm1 vm2 \<Longrightarrow> good cfg vm0 (k vm2)"
  shows "good cfg vm0 (with_transfer f t v vm k)"
proof -
  have *: "linked cfg vm1 (vm\<lparr>vm_state := snd (transfer f t v (vm_state vm))\<rparr>)"
    using vm has_code_transfer by (auto simp: linked_def vm_ok_def state_ok_transfer)
  have "good cfg vm0 (VError e vm2)" if "linked cfg vm1 vm2" for e vm2
    using that vm(2) by (simp add: good.simps linked_def)
  with * vm(1) k show ?thesis by (auto simp: with_transfer_def split: prod.split sum.split)
qed

lemmas good_with_slice [good_intros] = good_slice_after [where ?vm1.0 = vm0 and ?vm0.0 = vm0 for vm0]
lemmas good_with_transfer [good_intros] = good_transfer_after [where ?vm1.0 = vm0 and ?vm0.0 = vm0 for vm0, OF _ order_refl]

lemma good_binop [good_intros]:
  assumes "linked cfg vm0 vm" "0 < n" "\<And>a b. length a = 32 \<Longrightarrow> length b = 32 \<Longrightarrow> length (f a b) = 32"
  shows "good cfg vm0 (binop cfg n f vm)"
  unfolding binop_def Let_def split_beta using assms
  by (intro good_charge linked_push linked_pop length_pop; blast intro: linked_pop length_pop)

lemma good_if [good_intros]:
  "(c \<Longrightarrow> good cfg vm0 x) \<Longrightarrow> (\<not> c \<Longrightarrow> good cfg vm0 y) \<Longrightarrow> good cfg vm0 (if c then x else y)"
  by simp

section \<open>Every opcode is good\<close>

lemma good_arith: "linked cfg vm0 vm \<Longrightarrow> good cfg vm0 (exec_arith cfg n vm)"
proof -
  assume vm: "linked cfg vm0 vm"
  have "good cfg vm0 (exec_exp cfg vm)"
  proof -
    let ?vm = "snd (pop_u64 (snd (pop vm)))"
    have vm2: "linked cfg vm0 ?vm" using vm by (intro good_intros)
    have "good cfg vm0 (VContinue (let (enough, vm3) = use_gas c ?vm in if enough then push cfg (from_u64 x) vm3 else vm3))"
      if "0 < c" for c x
      using vm2 that by (auto simp: use_gas_def linked_def vm_ok_def push_def good.simps)
    then show ?thesis by (simp add: exec_exp_def Let_def split_beta)
  qed
  moreover have "good cfg vm0 (exec_signextend cfg vm)"
    unfolding exec_signextend_def Let_def split_beta using vm
    by (intro good_intros) (simp_all add: length_pop [OF linked_pops(1)])
  moreover have "good cfg vm0 (signed_op cfg f vm)" for f
    unfolding signed_op_def Let_def split_beta using vm by (auto intro!: good_intros)
  moreover have "good cfg vm0 (modop cfg f vm)" for f
    unfolding modop_def Let_def split_beta using vm by (auto intro!: good_intros)
  ultimately show ?thesis unfolding exec_arith_def using vm by (auto intro!: good_binop)
qed

lemma good_compare: "linked cfg vm0 vm \<Longrightarrow> good cfg vm0 (exec_compare cfg n vm)"
  unfolding exec_compare_def Let_def split_beta
  by (auto intro!: good_binop good_push_charge linked_pop simp: length_pop)

lemma good_sha3: "linked cfg vm0 vm \<Longrightarrow> good cfg vm0 (exec_sha3 cfg vm)"
  unfolding exec_sha3_def Let_def split_beta by (auto intro!: good_intros)

lemma good_copy:
  assumes "linked cfg vm0 vm" "\<And>vm1. linked cfg vm0 vm1 \<Longrightarrow> linked cfg vm0 (snd (src vm1))" "0 < base"
  shows "good cfg vm0 (exec_copy base src vm)"
  unfolding exec_copy_def Let_def split_beta using assms by (auto intro!: good_intros)

lemma good_env: "linked cfg vm0 vm \<Longrightarrow> good cfg vm0 (exec_environment cfg n vm)"
  unfolding exec_environment_def Let_def split_beta
  by (auto intro!: good_copy good_push_charge linked_pops linked_account simp: linked_addresses)

lemma good_block_info: "linked cfg vm0 vm \<Longrightarrow> good cfg vm0 (exec_block_info cfg n vm)"
  unfolding exec_block_info_def Let_def split_beta by (auto intro!: good_push_charge linked_pops linked_account)


lemma good_memory: "linked cfg vm0 vm \<Longrightarrow> good cfg vm0 (exec_memory cfg n vm)"
proof -
  assume vm: "linked cfg vm0 vm"
  have "good cfg vm0 (exec_sstore vm)"
  proof -
    let ?vm = "snd (pop (snd (pop vm)))" and ?v = "fst (pop (snd (pop vm)))"
    have vm2: "linked cfg vm0 ?vm" "length ?v = 32" using vm by (auto intro: good_intros)
    have ok: "vm_ok cfg (?vm\<lparr>vm_state := set_storage (vm_address ?vm) slot ?v (snd (get_account (vm_address ?vm) (vm_state ?vm)))\<rparr>)" for slot
      using vm2 by (simp add: linked_def vm_ok_def state_ok_set_storage)
    show ?thesis using vm2 ok
      by (auto simp: exec_sstore_def Let_def split_beta state_ok_get_storage use_gas_def good.simps linked_def vm_ok_def)
  qed
  moreover have "good cfg vm0 (case mload (fst (pop_u64 vm)) (snd (pop_u64 vm)) of
      None \<Rightarrow> VPanic | Some (val, vm2) \<Rightarrow> push_charge cfg (3 + c * 3) val vm2)" for c
    using linked_mload [OF linked_pops(1) [OF vm] _ pop_u64_less] by (auto split: option.split intro!: good_push_charge)
  moreover have "good cfg vm0 (push_charge cfg 100 (fst (get_storage a slot (vm_state (snd (pop vm)))))
      (snd (pop vm)\<lparr>vm_state := snd (get_storage a slot (vm_state (snd (pop vm))))\<rparr>))" for a slot
    using linked_pop [OF vm] by (intro good_push_charge) (simp_all add: linked_def vm_ok_def state_ok_get_storage)
  moreover have "good cfg vm0 (VContinue (charge 2 (snd (pop vm))))"
    "good cfg vm0 (continue_with (mstore off v (snd (pop (snd (pop_u64 vm))))) (\<lambda>vm3. VContinue (charge 3 vm3)))"
    "good cfg vm0 (continue_with (mstore8 off b (snd (pop (snd (pop_u64 vm))))) (\<lambda>vm3. VContinue (charge 3 vm3)))" for off v b
    using vm by (intro good_intros; simp)+
  ultimately show ?thesis by (simp add: exec_memory_def Let_def split_beta)
qed

lemma good_jump: "linked cfg vm0 vm \<Longrightarrow> 0 < n \<Longrightarrow> good cfg vm0 (jump_to dest vm (\<lambda>vm1. VContinue (charge n vm1)))"
  by (auto simp: jump_to_def charge_def use_gas_def good.simps linked_def vm_ok_def)

lemma good_flow: "linked cfg vm0 vm \<Longrightarrow> good cfg vm0 (exec_flow cfg op vm)"
  unfolding exec_flow_def Let_def split_beta by (auto intro!: good_jump good_intros)

lemma good_push: "linked cfg vm0 vm \<Longrightarrow> n \<le> 0x7f \<Longrightarrow> good cfg vm0 (exec_push cfg n vm)"
  unfolding exec_push_def Let_def by (intro good_push_charge) (auto simp: linked_def vm_ok_def)

lemma good_dup: "linked cfg vm0 vm \<Longrightarrow> 0x80 \<le> n \<Longrightarrow> good cfg vm0 (exec_dup cfg n vm)"
proof -
  assume vm: "linked cfg vm0 vm" and n: "0x80 \<le> n"
  have "length (vm_stack vm ! (n - 0x7f - 1)) = 32" if "n - 0x7f \<le> length (vm_stack vm)"
  proof -
    have "vm_stack vm ! (n - 0x7f - 1) \<in> set (vm_stack vm)" using that n by (intro nth_mem) simp
    with vm show ?thesis by (simp only: linked_def vm_ok_def)
  qed
  with vm show ?thesis unfolding exec_dup_def Let_def by (auto intro!: good_charge linked_push)
qed

lemma good_swap: "linked cfg vm0 vm \<Longrightarrow> good cfg vm0 (exec_swap n vm)"
proof -
  assume vm: "linked cfg vm0 vm"
  let ?s = "vm_stack vm"
  have "linked cfg vm0 (vm\<lparr>vm_stack := ?s[0 := ?s ! k, k := ?s ! 0]\<rparr>)" if "k < length ?s" for k
  proof -
    have "set (?s[0 := ?s ! k, k := ?s ! 0]) = set ?s" using that by (intro set_swap) auto
    with vm show ?thesis by (simp add: linked_def vm_ok_def)
  qed
  with vm show ?thesis unfolding exec_swap_def Let_def by (auto intro!: good_charge)
qed

lemma log_cost_pos: "0 < u64_add (375 + 375 * k) (u64_mul 8 len)"
  if "k \<le> 4"
proof (rule ccontr)
  assume "\<not> 0 < u64_add (375 + 375 * k) (u64_mul 8 len)"
  then have "(375 + 375 * k + 8 * len) mod 2 ^ 64 = 0" by (simp add: u64_add_def u64_mul_def mod_simps)
  then have "2 ^ 64 dvd 375 + 375 * k + 8 * len" by (rule dvd_eq_mod_eq_0 [THEN iffD2])
  moreover have "(8 :: nat) dvd 2 ^ 64" by simp
  ultimately have "8 dvd 375 + 375 * k + 8 * len" by (rule dvd_trans [rotated])
  moreover have "8 dvd 8 * len" by simp
  ultimately have "8 dvd 375 + 375 * k" using dvd_add_left_iff by blast
  moreover have "k = 0 \<or> k = 1 \<or> k = 2 \<or> k = 3 \<or> k = 4" using that by linarith
  ultimately show False by auto
qed

lemma good_log: "linked cfg vm0 vm \<Longrightarrow> n \<le> 0xa4 \<Longrightarrow> good cfg vm0 (exec_log n vm)"
proof -
  assume vm: "linked cfg vm0 vm" and n: "n \<le> 0xa4"
  have "0 < u64_add (375 + 375 * (n - 0xa0)) (u64_mul 8 len)" for len using n by (intro log_cost_pos) simp
  with vm show ?thesis unfolding exec_log_def Let_def split_beta
    by (auto intro!: good_intros linked_logs simp del: add_gr_0)
qed

lemma sub_gas_le: "u64_mul g 63 div 64 \<le> g"
proof -
  have "u64_mul g 63 \<le> g * 63" by (simp add: u64_mul_def)
  then have "u64_mul g 63 div 64 \<le> g * 63 div 64" by (rule div_le_mono)
  also have "\<dots> \<le> g" by simp
  finally show ?thesis .
qed

lemma vm_ok_new:
  "state_ok st \<Longrightarrow> length caller = 20 \<Longrightarrow> length addr = 20 \<Longrightarrow> gas < 2 ^ 64 \<Longrightarrow>
    vm_ok cfg (vm_new st code caller addr val data gas counts s)"
  by (simp add: vm_ok_def vm_new_def)

lemma vm_ok_gas: "vm_ok cfg vm \<Longrightarrow> g \<le> vm_gas vm \<Longrightarrow> vm_ok cfg (vm\<lparr>vm_gas := g\<rparr>)"
  by (auto simp: vm_ok_def)

lemma good_start_create:
  assumes vm: "linked cfg vm1 vm" and a: "length a = 20" and paid: "vm_gas vm1 < vm_gas vm0"
  shows "good cfg vm0 (start_create a val init_code vm)"
proof -
  have *: "good cfg vm0 (VCall (FCreate a val)
      (vm_new (new_state None) init_code (vm_caller vm2) a val [] (u64_mul (vm_gas vm2) 63 div 64) (vm_counts vm2) False)
      (vm2\<lparr>vm_gas := vm_gas vm2 - u64_mul (vm_gas vm2) 63 div 64\<rparr>))" if "linked cfg vm1 vm2" for vm2
  proof -
    have "u64_mul (vm_gas vm2) 63 div 64 < 2 ^ 64"
      using that sub_gas_le [of "vm_gas vm2"] by (simp add: linked_def vm_ok_def)
    then show ?thesis using that a paid sub_gas_le [of "vm_gas vm2"]
      by (simp add: good.simps linked_addresses [OF that] vm_ok_new del: power_numeral)
        (simp add: linked_def vm_ok_gas vm_new_def)
  qed
  show ?thesis unfolding start_create_def Let_def using vm less_imp_le [OF paid] * by (rule good_transfer_after)
qed

lemma good_use_gas:
  assumes vm: "vm_ok cfg vm" and "0 < n" and k: "\<And>vm1. vm_ok cfg vm1 \<Longrightarrow> vm_gas vm1 < vm_gas vm \<Longrightarrow> good cfg vm (k vm1)"
  shows "good cfg vm (let (enough, vm1) = use_gas n vm in if \<not> enough then VContinue vm1 else k vm1)"
proof (cases "vm_gas vm < n")
  case True
  with vm show ?thesis by (simp add: use_gas_def good.simps vm_ok_def)
next
  case False
  then show ?thesis using vm \<open>0 < n\<close> by (simp add: use_gas_def) (rule k, simp_all add: vm_ok_gas)
qed

lemma good_create: "vm_ok cfg vm \<Longrightarrow> good cfg vm (exec_create vm)"
proof -
  assume vm: "vm_ok cfg vm"
  show ?thesis unfolding exec_create_def using vm
    by (intro good_if good_use_gas) (auto simp: Let_def split_beta linked_refl
      intro!: good_error good_slice_after good_start_create linked_pops linked_account)
qed

lemma good_create2: "vm_ok cfg vm \<Longrightarrow> good cfg vm (exec_create2 vm)"
proof -
  assume vm: "vm_ok cfg vm"
  show ?thesis unfolding exec_create2_def using vm
    by (intro good_if good_use_gas) (auto simp: Let_def split_beta linked_refl
      intro!: good_error good_slice_after good_start_create linked_pops linked_pop)
qed

lemma good_start_call:
  assumes vm: "linked cfg vm0 vm" and a: "length a = 20"
  shows "good cfg vm0 (start_call gas c a val data ret_off ret_len vm)"
proof -
  let ?vm = "snd (vm_account c vm)" and ?code = "ac_code (fst (vm_account c vm))"
  let ?g = "min gas (u64_mul (vm_gas ?vm) 63 div 64)"
  have vm1: "linked cfg vm0 ?vm" using vm by (rule linked_account)
  have g: "?g \<le> vm_gas ?vm" "?g < 2 ^ 64"
    using vm1 sub_gas_le [of "vm_gas ?vm"] by (simp_all add: linked_def vm_ok_def min_le_iff_disj min_less_iff_disj)
  have "has_code (vm_state vm0)" if "?code \<noteq> []"
  proof -
    have "ac_code (account_at (vm_state vm) c) \<noteq> []" using that by (simp add: vm_account_def split_beta Let_def account_at_def)
    then have "has_code (vm_state vm)" by (auto simp: has_code_def)
    with vm show ?thesis by (simp add: linked_def)
  qed
  moreover have "vm_ok cfg (?vm\<lparr>vm_gas := vm_gas ?vm - ?g\<rparr>)" using vm1 by (simp add: linked_def vm_ok_gas)
  moreover have "vm_ok cfg (vm_new (new_state None) ?code (vm_caller ?vm) a val data ?g (vm_counts ?vm) False)"
    using a g linked_addresses(1) [OF vm1] by (intro vm_ok_new) simp_all
  ultimately show ?thesis using vm1 g
    by (simp add: start_call_def split_beta Let_def good.simps) (simp add: linked_def vm_new_def)
qed

lemma good_calls:
  assumes "linked cfg vm0 vm"
  shows "good cfg vm0 (exec_call vm)" "good cfg vm0 (exec_callcode vm)" "good cfg vm0 (exec_delegatecall vm)"
  unfolding exec_call_def exec_callcode_def exec_delegatecall_def Let_def split_beta using assms
  by (auto intro!: good_if good_error good_with_slice good_with_transfer good_start_call linked_pops length_pop_address
    simp: linked_addresses)

lemma good_halts:
  assumes "linked cfg vm0 vm"
  shows "good cfg vm0 (exec_return vm)" "good cfg vm0 (exec_revert vm)"
  unfolding exec_return_def exec_revert_def Let_def split_beta using assms
  by (auto intro!: good_with_slice good_stop linked_pops)

lemma good_selfdestruct: "linked cfg vm0 vm \<Longrightarrow> good cfg vm0 (exec_selfdestruct vm)"
proof -
  assume vm: "linked cfg vm0 vm"
  have "storage_ok default_account" by (simp add: storage_ok_def default_account_def)
  then have "good cfg vm0 (VContinue (charge 5000 (vm3\<lparr>vm_state := set_account a default_account (vm_state vm3), vm_stopped := True\<rparr>)))"
    if "linked cfg vm0 vm3" for vm3 a
    using that by (auto simp: charge_def use_gas_def good.simps linked_def vm_ok_def state_ok_set)
  with vm show ?thesis unfolding exec_selfdestruct_def Let_def split_beta
    by (auto intro!: good_error good_with_transfer linked_pops linked_account)
qed

lemma good_exec_op: "vm_ok cfg vm \<Longrightarrow> good cfg vm (exec_op cfg op vm)"
proof -
  assume vm: "vm_ok cfg vm"
  then have "linked cfg vm vm" by (rule linked_refl)
  then show ?thesis unfolding exec_op_def Let_def using vm
    by (intro good_if good_arith good_compare good_sha3 good_env good_block_info good_memory good_flow good_push
      good_dup good_swap good_log good_create good_create2 good_calls good_halts good_selfdestruct good_stop good_error) simp_all
qed

section \<open>Runs end\<close>

lemma push_fields [simp]:
  "vm_gas (push cfg v vm) = vm_gas vm" "vm_code (push cfg v vm) = vm_code vm" "vm_pc (push cfg v vm) = vm_pc vm"
  "vm_state (push cfg v vm) = vm_state vm"
  by (simp_all add: push_def)

text \<open>What \<open>resume\<close> keeps: the code and the place in it, and, after a call, the accounts that have code.\<close>

lemma vm_ok_push: "vm_ok cfg vm \<Longrightarrow> length v = 32 \<Longrightarrow> vm_ok cfg (push cfg v vm)"
  using linked_push [OF linked_refl] by (simp add: linked_def)

lemma resume_create_ok:
  assumes "vm_ok cfg sub" "vm_ok cfg par" "length a = 20" "vm_gas sub + vm_gas par < 2 ^ 64"
  shows "vm_ok cfg (resume_create cfg a v ok sub par) \<and>
    vm_gas (resume_create cfg a v ok sub par) = vm_gas sub + vm_gas par"
proof -
  define acc where "acc = default_account\<lparr>ac_balance := v, ac_code := vm_output sub\<rparr>"
  have "storage_ok acc" by (simp add: acc_def storage_ok_def default_account_def)
  then have "vm_ok cfg (push cfg (replicate 12 0 @ a)
      (par\<lparr>vm_counts := vm_counts sub, vm_state := commit_state (set_account a acc (vm_state par))\<rparr>))"
    "vm_ok cfg (push cfg zero256 (par\<lparr>vm_counts := vm_counts sub\<rparr>))"
    using assms by (intro vm_ok_push; simp add: vm_ok_def state_ok_set)+
  moreover have "vm_ok cfg (vm\<lparr>vm_gas := g, vm_logs := l\<rparr>)" if "vm_ok cfg vm" "g < 2 ^ 64" for vm g l
    using that by (simp add: vm_ok_def)
  moreover have "u64_add (vm_gas par) (vm_gas sub) = vm_gas sub + vm_gas par"
    using assms(4) by (subst u64_add_exact) simp_all
  ultimately show ?thesis using assms(4) by (simp add: resume_create_def Let_def acc_def del: power_numeral)
qed

lemma resume_call_ok:
  assumes "resume_call cfg ret_off ret_len ok sub par = Some vm"
    and "vm_ok cfg sub" "vm_ok cfg par" "vm_gas sub + vm_gas par < 2 ^ 64"
  shows "vm_ok cfg vm \<and> vm_gas vm = vm_gas sub + vm_gas par \<and> vm_code vm = vm_code par \<and> vm_pc par \<le> vm_pc vm \<and>
    (has_code (vm_state vm) \<longrightarrow> has_code (vm_state par))"
proof -
  define par1 where "par1 = par\<lparr>vm_counts := vm_counts sub, vm_gas := u64_add (vm_gas par) (vm_gas sub)\<rparr>"
  have gas: "u64_add (vm_gas par) (vm_gas sub) = vm_gas sub + vm_gas par" using assms(4) by (subst u64_add_exact) simp_all
  have par1: "linked cfg par1 par1" using assms(3,4) by (intro linked_refl) (simp add: par1_def gas vm_ok_def)
  then have "linked cfg par1 vm1"
    if "Option.bind (mem_expand ret_off n par1) (mem_write ret_off d) = Some vm1" for n d vm1
    using that by (auto simp: Option.bind_eq_Some_conv intro: linked_mem_write linked_mem_expand)
  with assms(1) par1 have "linked cfg par1 vm" unfolding resume_call_def par1_def [symmetric] Let_def
    by (auto split: if_splits intro!: linked_push linked_logs)
  then show ?thesis by (simp add: linked_def par1_def gas)
qed

definition run_ok :: "evm_config \<Rightarrow> vm \<Rightarrow> run_result \<Rightarrow> bool" where
  "run_ok cfg vm r \<longleftrightarrow> (\<forall>ok vm1. sub_vm r = Some (ok, vm1) \<longrightarrow> vm_ok cfg vm1 \<and> vm_gas vm1 \<le> vm_gas vm)"

definition vm_size :: "vm \<Rightarrow> nat \<times> nat \<times> nat" where
  "vm_size vm = (vm_gas vm, if has_code (vm_state vm) then 1 else 0, length (vm_code vm) - vm_pc vm)"

definition smaller :: "(vm \<times> vm) set" where
  "smaller = inv_image (less_than <*lex*> less_than <*lex*> less_than) vm_size"

lemma wf_smaller: "wf smaller"
  unfolding smaller_def by (intro wf_inv_image wf_lex_prod wf_less_than)

lemma smaller_gas: "vm_gas vm1 < vm_gas vm \<Longrightarrow> (vm1, vm) \<in> smaller"
  by (simp add: smaller_def vm_size_def)

lemma evm_run_halted: "halted vm \<Longrightarrow> evm_run cfg vm = Some (finish vm)"
  by (subst evm_run.simps) simp

lemma run_ok_finish: "vm_ok cfg vm1 \<Longrightarrow> vm_gas vm1 \<le> vm_gas vm \<Longrightarrow> run_ok cfg vm (finish vm1)"
  by (simp add: run_ok_def finish_def sub_vm_def)

lemma run_ok_less: "run_ok cfg vm1 r \<Longrightarrow> vm_gas vm1 \<le> vm_gas vm \<Longrightarrow> run_ok cfg vm r"
  by (auto simp: run_ok_def intro: le_trans)

text \<open>The nested machine of a call is smaller, and so is the caller that goes on after it.\<close>

lemma smaller_call:
  assumes "vm_gas vm1 \<le> vm_gas vm" "has_code (vm_state vm1) \<longrightarrow> has_code (vm_state vm)"
    and "has_code (vm_state vm) \<and> \<not> has_code (vm_state vm1) \<or> length (vm_code vm1) - vm_pc vm1 < length (vm_code vm) - vm_pc vm"
  shows "(vm1, vm) \<in> smaller"
  using assms by (auto simp: smaller_def vm_size_def)

lemma resume_with_Some:
  assumes "resume_with cfg fr r par = Some vm" "run_ok cfg sub r"
  obtains ok vm1 where "resume cfg fr ok vm1 par = Some vm" "vm_ok cfg vm1" "vm_gas vm1 \<le> vm_gas sub"
  using assms by (auto simp: resume_with_def Option.bind_eq_Some_conv run_ok_def)

lemma nested_create:
  assumes "good cfg vm1 (VCall (FCreate a v) sub par)" "vm_gas vm < 2 ^ 64" "vm_gas vm1 = vm_gas vm"
  shows "vm_ok cfg sub \<and> (sub, vm) \<in> smaller"
    and "run_ok cfg sub r \<Longrightarrow> resume_with cfg (FCreate a v) r par = Some vm2 \<Longrightarrow>
      vm_ok cfg vm2 \<and> vm_gas vm2 \<le> vm_gas vm \<and> (vm2, vm) \<in> smaller"
proof -
  have ok: "vm_ok cfg sub" "vm_ok cfg par" "length a = 20" "vm_gas sub + vm_gas par < vm_gas vm"
    using assms(1,3) by (simp_all add: good.simps)
  then show "vm_ok cfg sub \<and> (sub, vm) \<in> smaller" by (simp add: smaller_gas)
  assume r: "run_ok cfg sub r" "resume_with cfg (FCreate a v) r par = Some vm2"
  obtain b vm' where vm': "resume cfg (FCreate a v) b vm' par = Some vm2" "vm_ok cfg vm'" "vm_gas vm' \<le> vm_gas sub"
    using resume_with_Some [OF r(2,1)] by blast
  have "vm_gas vm' + vm_gas par < 2 ^ 64" using vm'(3) ok(4) assms(2) by linarith
  then have "vm_ok cfg vm2 \<and> vm_gas vm2 = vm_gas vm' + vm_gas par"
    using resume_create_ok [OF vm'(2) ok(2,3)] vm'(1) by auto
  with vm'(3) ok(4) show "vm_ok cfg vm2 \<and> vm_gas vm2 \<le> vm_gas vm \<and> (vm2, vm) \<in> smaller" by (simp add: smaller_gas)
qed

lemma nested_call:
  assumes "good cfg vm1 (VCall (FCall ro rl) sub par)" "vm_gas vm < 2 ^ 64" "\<not> halted vm"
    and "vm_gas vm1 = vm_gas vm" "vm_state vm1 = vm_state vm" "vm_code vm1 = vm_code vm" "vm_pc vm1 = Suc (vm_pc vm)"
  shows "vm_ok cfg sub \<and> (sub, vm) \<in> smaller"
    and "run_ok cfg sub r \<Longrightarrow> resume_with cfg (FCall ro rl) r par = Some vm2 \<Longrightarrow>
      vm_ok cfg vm2 \<and> vm_gas vm2 \<le> vm_gas vm \<and> (vm2, vm) \<in> smaller"
proof -
  have ok: "vm_ok cfg sub" "vm_ok cfg par" "vm_gas sub + vm_gas par \<le> vm_gas vm" "vm_code par = vm_code vm"
      "Suc (vm_pc vm) \<le> vm_pc par" "has_code (vm_state par) \<longrightarrow> has_code (vm_state vm)"
      "\<not> has_code (vm_state sub)" "vm_pc sub = 0" "vm_code sub \<noteq> [] \<longrightarrow> has_code (vm_state vm)"
    using assms(1,4-7) by (simp_all add: good.simps)
  have pc: "vm_pc vm < length (vm_code vm)" using assms(3) by (simp add: halted_def)
  have "has_code (vm_state vm) \<and> \<not> has_code (vm_state sub) \<or> length (vm_code sub) - vm_pc sub < length (vm_code vm) - vm_pc vm"
    using ok(7-9) pc by (cases "vm_code sub") auto
  then show "vm_ok cfg sub \<and> (sub, vm) \<in> smaller" using ok by (intro conjI smaller_call) simp_all
  assume r: "run_ok cfg sub r" "resume_with cfg (FCall ro rl) r par = Some vm2"
  obtain b vm' where vm': "resume_call cfg ro rl b vm' par = Some vm2" "vm_ok cfg vm'" "vm_gas vm' \<le> vm_gas sub"
    using resume_with_Some [OF r(2,1)] by auto
  have "vm_gas vm' + vm_gas par < 2 ^ 64" using vm'(3) ok(3) assms(2) by linarith
  note vm2 = resume_call_ok [OF vm'(1,2) ok(2) this]
  then have "vm_code vm2 = vm_code vm" "vm_pc vm < vm_pc vm2" using ok(4,5) by auto
  then have "length (vm_code vm2) - vm_pc vm2 < length (vm_code vm) - vm_pc vm" using pc by (simp add: diff_less_mono2)
  then have "(vm2, vm) \<in> smaller" using vm2 vm'(3) ok(3,6) by (intro smaller_call) simp_all
  with vm2 vm'(3) ok(3) show "vm_ok cfg vm2 \<and> vm_gas vm2 \<le> vm_gas vm \<and> (vm2, vm) \<in> smaller" by simp
qed

text \<open>A machine whose opcode nests ends if the nested machine and the machine that goes on do.\<close>

lemma nested_run:
  assumes "evm_run cfg sub = Some r" "run_ok cfg sub r"
    and "\<And>vm2. resume_with cfg fr r par = Some vm2 \<Longrightarrow> \<exists>r'. evm_run cfg vm2 = Some r' \<and> run_ok cfg vm r'"
    and "\<not> halted vm" "vm_step cfg vm = VCall fr sub par"
  shows "\<exists>r. evm_run cfg vm = Some r \<and> run_ok cfg vm r"
proof (cases "resume_with cfg fr r par")
  case None
  with assms evm_run.simps [of cfg vm] show ?thesis by (simp add: run_ok_def sub_vm_def)
next
  case (Some vm2)
  with assms evm_run.simps [of cfg vm] show ?thesis by simp
qed

lemma evm_run_ok: "vm_ok cfg vm \<Longrightarrow> \<exists>r. evm_run cfg vm = Some r \<and> run_ok cfg vm r"
proof (induction vm rule: wf_induct_rule [OF wf_smaller])
  case (1 vm)
  note IH = 1(1) and vm = 1(2)
  define vm1 where "vm1 = vm\<lparr>vm_pc := vm_pc vm + 1, vm_counts := record_opcode (vm_code vm ! vm_pc vm) (vm_counts vm)\<rparr>"
  have "vm_ok cfg vm1" using vm by (simp add: vm1_def vm_ok_def)
  then have good: "good cfg vm1 (vm_step cfg vm)" using good_exec_op [of cfg vm1] by (simp only: vm_step_def Let_def vm1_def)
  have vm1: "vm_gas vm1 = vm_gas vm" "vm_state vm1 = vm_state vm" "vm_code vm1 = vm_code vm" "vm_pc vm1 = Suc (vm_pc vm)"
    by (simp_all add: vm1_def)
  have lt: "vm_gas vm < 2 ^ 64" using vm by (simp add: vm_ok_def)
  have go: "\<exists>r. evm_run cfg vm2 = Some r \<and> run_ok cfg vm r"
    if "vm_ok cfg vm2" "vm_gas vm2 \<le> vm_gas vm" "(vm2, vm) \<in> smaller \<or> halted vm2" for vm2
    using IH [of vm2] that by (auto simp: evm_run_halted run_ok_finish intro: run_ok_less)
  show ?case
  proof (cases "halted vm")
    case False
    note run = evm_run.simps [of cfg vm]
    show ?thesis
    proof (cases "vm_step cfg vm")
      case (VContinue vm2)
      with good vm1 have "vm_ok cfg vm2" "vm_gas vm2 \<le> vm_gas vm" "(vm2, vm) \<in> smaller \<or> halted vm2"
        by (auto simp: good.simps halted_def intro: smaller_gas)
      with go False VContinue run show ?thesis by simp
    next
      case (VCall fr sub par)
      have "vm_ok cfg sub \<and> (sub, vm) \<in> smaller \<and> (\<forall>r vm2. run_ok cfg sub r \<longrightarrow> resume_with cfg fr r par = Some vm2 \<longrightarrow>
          vm_ok cfg vm2 \<and> vm_gas vm2 \<le> vm_gas vm \<and> (vm2, vm) \<in> smaller)"
        using good unfolding VCall by (cases fr) (simp_all add: nested_call [OF _ lt False vm1] nested_create [OF _ lt vm1(1)])
      with IH [of sub] go False VCall show ?thesis by (blast intro: nested_run)
    qed (use good vm1 False run in \<open>auto simp: good.simps run_ok_def sub_vm_def\<close>)
  qed (use vm in \<open>simp add: evm_run_halted run_ok_finish\<close>)
qed

end
