(* ===== verification/Evm_Properties.thy ===== *)
theory Evm_Properties
  imports Evm_Safety
begin

text \<open>
  Properties of the interpreter and of the executor as a whole: every transaction ends within its gas, what a failed
  transaction leaves behind, and the runs that go wrong.
\<close>

section \<open>Evaluating short programs\<close>

lemmas evm_eval = halted_def vm_step_def exec_op_def exec_push_def exec_arith_def exec_memory_def exec_return_def
  exec_revert_def exec_create_def exec_sstore_def push_charge_def charge_def use_gas_def push_def pop_def pop_u64_def
  pop_u128_def with_slice_def continue_with_def mem_expand_def slice_def mem_write_def mstore_def with_transfer_def
  start_create_def vm_account_def finish_def to_u64_def from_be_def u64_add_def u64_mul_def vm_new_def Let_def from_le_replicate

text \<open>Programs that start by returning no bytes from past the end of the memory: \<open>PUSH1 0; PUSH1 off; RETURN\<close>.\<close>

lemma empty_return_panics:
  assumes "6 \<le> gas" "2 \<le> ec_max_stack_depth cfg" "off \<noteq> 0"
  shows "evm_run cfg (vm_new st ([0x60, 0x00, 0x60, off, 0xf3] @ rest) caller a v [] gas counts False) = Some Panicked"
proof -
  have "\<not> gas < 3" "\<not> gas - 3 < 3" "0 < unat off" using assms(1,3) by (simp_all add: unat_gt_0)
  then show ?thesis using assms(2) by (simp add: evm_run.simps evm_eval)
qed

text \<open>
  C34. Anyone can stop the node with one transaction. A contract creation whose init code begins with \<open>PUSH1 0\<close>, \<open>PUSH1 off\<close>,
  \<open>RETURN\<close> for an offset other than 0 panics, whatever the state, the sender, the rest of the code and any value that the sender has, when the gas
  pays for the data and the two pushes and the stack may hold two words. Memory is not extended for an empty range,
  and the slice \<open>memory[off..off]\<close> of the empty memory is out of range.
\<close>

theorem empty_return_stops_node:
  assumes "off \<noteq> 0" "v \<le> balance_at st sender" "2 \<le> ec_max_stack_depth cfg"
    "intrinsic_cost cfg ([0x60, 0x00, 0x60, off, 0xf3] @ rest) + 6 \<le> gas_limit"
  shows "transact cfg m st sender None v ([0x60, 0x00, 0x60, off, 0xf3] @ rest) gas_limit = Some TxPanic"
proof -
  let ?code = "[0x60, 0x00, 0x60, off, 0xf3] @ rest"
  have "evm_run cfg (vm_new (new_state None) ?code sender a v [] (gas_limit - intrinsic_cost cfg ?code) counts False) = Some Panicked" for a counts
    using assms by (intro empty_return_panics) simp_all
  moreover have "\<not> ac_balance (fst (get_account sender st)) < v" "\<not> gas_limit < intrinsic_cost cfg ?code"
    using assms(2,4) by (simp_all add: balance_at_def account_at_def)
  ultimately show ?thesis by (simp add: transact_def transact_create_def Let_def split_beta sub_vm_def del: append_Cons)
qed

theorem empty_return_stops_node_witness:
  "transact default_config default_metrics (new_state None) (replicate 20 1) None 0 [0x60, 0x00, 0x60, 0x01, 0xf3] 22000 = Some TxPanic"
proof -
  have "intrinsic_cost default_config [0x60, 0x00, 0x60, 0x01, 0xf3] = 21068"
    by (simp add: intrinsic_cost_def default_config_def u64_add_def)
  then show ?thesis
    using empty_return_stops_node [of 1 0 "new_state None" "replicate 20 1" default_config "[]" 22000 default_metrics]
    by (simp add: default_config_def)
qed

section \<open>Runs\<close>

text \<open>
  C7. Every run of the interpreter ends, whatever the code: from a well-formed machine the loop returns or panics, nested
  calls and creations included. A machine it returns has no more gas than at the start, a stack within
  the configured depth and only 32-byte words on it.
\<close>

theorem evm_run_terminates:
  assumes "vm_ok cfg vm"
  shows "\<exists>r. evm_run cfg vm = Some r \<and>
    (\<forall>ok vm1. sub_vm r = Some (ok, vm1) \<longrightarrow> vm_gas vm1 \<le> vm_gas vm \<and>
      length (vm_stack vm1) \<le> ec_max_stack_depth cfg \<and> (\<forall>v \<in> set (vm_stack vm1). length v = 32))"
  using evm_run_ok [OF assms] by (auto simp: run_ok_def vm_ok_def)

text \<open>A loop that jumps back to its start until the gas is used up.\<close>

theorem evm_run_terminates_witness:
  "\<exists>r. evm_run default_config (vm_new (new_state None) [0x5b, 0x60, 0x00, 0x56] (replicate 20 1) (replicate 20 2) 0 [] 1000000
     (replicate 256 0) False) = Some r"
proof -
  let ?vm = "vm_new (new_state None) [0x5b, 0x60, 0x00, 0x56] (replicate 20 1) (replicate 20 2) 0 [] 1000000 (replicate 256 0) False"
  have "vm_ok default_config ?vm" by (rule vm_ok_new) simp_all
  then show ?thesis using evm_run_terminates [of default_config ?vm] by blast
qed

section \<open>Transactions\<close>

text \<open>The state in which the code of a transaction starts: the sender's nonce counted up, and a snapshot.\<close>

definition tx_start :: "evm_state \<Rightarrow> address \<Rightarrow> evm_state" where
  "tx_start st sender =
     snapshot (set_account sender ((account_at st sender)\<lparr>ac_nonce := u64_add (ac_nonce (account_at st sender)) 1\<rparr>)
       (snd (get_account sender st)))"

lemma account_at_snapshot [simp]: "account_at (snapshot st) = account_at st"
  by (rule account_at_cong) (simp_all add: snapshot_def)

lemma account_at_revert_snapshot: "account_at (revert (snapshot st)) = account_at st"
  by (rule account_at_revert [OF reverts_to_snapshot])

lemma state_ok_tx_start: "state_ok st \<Longrightarrow> state_ok (tx_start st sender)"
proof -
  assume "state_ok st"
  then have "state_ok (set_account sender ((account_at st sender)\<lparr>ac_nonce := n\<rparr>) (snd (get_account sender st)))" for n
    by (intro state_ok_set) (simp_all add: state_ok_def storage_ok_def)
  then show ?thesis by (simp add: tx_start_def state_ok_def)
qed

lemma account_at_tx_start:
  "\<not> sd_static_call st \<Longrightarrow> account_at (tx_start st sender) =
    (account_at st)(sender := (account_at st sender)\<lparr>ac_nonce := u64_add (ac_nonce (account_at st sender)) 1\<rparr>)"
  by (simp add: tx_start_def evm_store.store_laws)

text \<open>A transaction that is not rejected runs one machine.\<close>

definition tx_vm :: "evm_metrics \<Rightarrow> evm_state \<Rightarrow> address \<Rightarrow> address option \<Rightarrow> nat \<Rightarrow> bytes \<Rightarrow> nat \<Rightarrow> vm" where
  "tx_vm m st sender to_addr v data gas =
     (case to_addr of
        None \<Rightarrow> vm_new (new_state None) data sender
            (compute_create_addr sender (u64_sub (u64_add (ac_nonce (account_at st sender)) 1) 1)) v [] gas (mt_opcode_counts m) False
      | Some dest \<Rightarrow> vm_new (snd (get_account dest (tx_start st sender))) (ac_code (account_at (tx_start st sender) dest))
            sender dest v data gas (mt_opcode_counts m) False)"

lemma transact_cases:
  assumes "intrinsic_cost cfg data \<le> gas_limit" "v \<le> balance_at st sender"
  shows "transact cfg m st sender None v data gas_limit =
      transact_create cfg m (tx_start st sender) sender (u64_add (ac_nonce (account_at st sender)) 1) v data
        (gas_limit - intrinsic_cost cfg data)"
    "transact cfg m st sender (Some dest) v data gas_limit =
      transact_call cfg m (tx_start st sender) sender dest v data (gas_limit - intrinsic_cost cfg data)"
  using assms by (simp_all add: transact_def Let_def split_beta tx_start_def balance_at_def account_at_def)

lemma transact_rejects:
  "gas_limit < intrinsic_cost cfg data \<Longrightarrow>
    transact cfg m st sender to_addr v data gas_limit = Some (TxDone (Err (OutOfGas gas_limit (intrinsic_cost cfg data))) st m)"
  "intrinsic_cost cfg data \<le> gas_limit \<Longrightarrow> balance_at st sender < v \<Longrightarrow>
    transact cfg m st sender to_addr v data gas_limit =
      Some (TxDone (Err (InsufficientBalance v (balance_at st sender))) (snd (get_account sender st)) m)"
  by (simp_all add: transact_def Let_def split_beta balance_at_def account_at_def)

lemma gas_used_bound: "vm_gas vm1 \<le> g \<Longrightarrow> g < 2 ^ 64 \<Longrightarrow> tr_gas_used (result_of g ok r vm1 out) \<le> g"
  by (simp add: result_of_def u64_sub_exact)

lemma tx_vm_ok:
  assumes "state_ok st" "length sender = 20" "\<forall>dest. to_addr = Some dest \<longrightarrow> length dest = 20" "gas < 2 ^ 64"
  shows "vm_ok cfg (tx_vm m st sender to_addr v data gas)"
  using assms by (auto simp: tx_vm_def state_ok_tx_start split: option.split intro!: vm_ok_new)

text \<open>
  C12. Every transaction ends: it is rejected, panics or is carried out, whatever code it runs. One that is carried out
  uses, with its intrinsic cost, no more gas than its limit.
\<close>

theorem transact_terminates:
  assumes "state_ok st" "length sender = 20" "\<forall>dest. to_addr = Some dest \<longrightarrow> length dest = 20" "gas_limit < 2 ^ 64"
  shows "\<exists>out. transact cfg m st sender to_addr v data gas_limit = Some out \<and>
    (\<forall>res st1 m1. out = TxDone (Ok res) st1 m1 \<longrightarrow> intrinsic_cost cfg data + tr_gas_used res \<le> gas_limit)"
proof (cases "intrinsic_cost cfg data \<le> gas_limit \<and> v \<le> balance_at st sender")
  case False
  then show ?thesis
    by (cases "intrinsic_cost cfg data \<le> gas_limit") (simp_all add: transact_rejects not_le)
next
  case True
  let ?g = "gas_limit - intrinsic_cost cfg data"
  have g: "?g < 2 ^ 64" using assms(4) by linarith
  obtain r where r: "evm_run cfg (tx_vm m st sender to_addr v data ?g) = Some r" "run_ok cfg (tx_vm m st sender to_addr v data ?g) r"
    using evm_run_ok [OF tx_vm_ok [OF assms(1-3) g]] by blast
  have gas: "vm_gas vm1 \<le> ?g" if "sub_vm r = Some (ok, vm1)" for ok vm1
    using r(2) that by (auto simp: run_ok_def tx_vm_def vm_new_def split: option.splits)
  have "intrinsic_cost cfg data + tr_gas_used (result_of ?g ok r vm1 out) \<le> gas_limit" if "sub_vm r = Some (ok, vm1)" for ok vm1 out
    using gas_used_bound [OF gas [OF that] g] True by (simp add: le_diff_conv2 add.commute)
  then show ?thesis using True r(1)
    by (cases to_addr) (auto simp: transact_cases transact_create_def transact_call_def tx_vm_def close_tx_def Let_def split_beta
        account_at_def [of "tx_start st sender"] split: option.splits)
qed

theorem transact_terminates_witness:
  "\<exists>out. transact default_config default_metrics (new_state None) (replicate 20 1) None 0 [0x5b, 0x60, 0x00, 0x56] 1000000 = Some out"
  using transact_terminates [of "new_state None" "replicate 20 1" None 1000000 default_config default_metrics 0 "[0x5b, 0x60, 0x00, 0x56]"]
  by auto

lemma transact_create_done:
  assumes "transact_create cfg m st sender n v data g = Some (TxDone out st1 m1)"
  shows "\<exists>res. out = Ok res \<and> (\<not> tr_success res \<longrightarrow> st1 = revert st)"
proof -
  let ?c = "compute_create_addr sender (u64_sub n 1)"
  obtain r where r: "evm_run cfg (vm_new (new_state None) data sender ?c v [] g (mt_opcode_counts m) False) = Some r"
    using assms by (auto simp: transact_create_def Let_def)
  show ?thesis
  proof (cases "sub_vm r")
    case (Some p)
    with assms r show ?thesis by (cases p) (auto simp: transact_create_def Let_def close_tx_def)
  qed (use assms r in \<open>simp add: transact_create_def Let_def\<close>)
qed

text \<open>
  C20. A contract creation that does not succeed changes no account: one that is rejected (too little gas for its data,
  too little balance for its value) leaves every account as it was, and one whose init code fails leaves only the sender's nonce
  counted up.
\<close>

theorem failed_creation_keeps_accounts:
  assumes "transact cfg m st sender None v data gas_limit = Some (TxDone out st1 m1)" "\<not> sd_static_call st"
    and "\<forall>res. out = Ok res \<longrightarrow> \<not> tr_success res"
  shows "account_at st1 = (if is_ok out
    then (account_at st)(sender := (account_at st sender)\<lparr>ac_nonce := u64_add (ac_nonce (account_at st sender)) 1\<rparr>)
    else account_at st)"
proof (cases "intrinsic_cost cfg data \<le> gas_limit \<and> v \<le> balance_at st sender")
  case False
  then show ?thesis using assms(1)
    by (cases "intrinsic_cost cfg data \<le> gas_limit") (auto simp: transact_rejects not_le)
next
  case True
  have "\<exists>res. out = Ok res \<and> (\<not> tr_success res \<longrightarrow> st1 = revert (tx_start st sender))"
    using assms(1) True by (intro transact_create_done) (simp add: transact_cases)
  with assms(3) have "is_ok out \<and> st1 = revert (tx_start st sender)" by auto
  then show ?thesis using account_at_tx_start [OF assms(2)] by (simp add: tx_start_def account_at_revert_snapshot)
qed

theorem failed_creation_keeps_accounts_witness:
  "\<exists>res st1 m1. transact default_config default_metrics (new_state None) (replicate 20 1) None 0 [0xfe] 30000 =
     Some (TxDone (Ok res) st1 m1) \<and> account_at st1 (replicate 20 1) = default_account\<lparr>ac_nonce := 1\<rparr>"
proof -
  let ?a = "replicate 20 1 :: address"
  have cost: "intrinsic_cost default_config [0xfe] = 21016" by (simp add: intrinsic_cost_def default_config_def u64_add_def)
  have "\<exists>vm. evm_run default_config (tx_vm default_metrics (new_state None) ?a None 0 [0xfe] 8984) = Some (Failed (InvalidOpcode 0xfe) vm)"
    by (simp add: tx_vm_def evm_run.simps evm_eval)
  then obtain vm where vm: "evm_run default_config (tx_vm default_metrics (new_state None) ?a None 0 [0xfe] 8984) = Some (Failed (InvalidOpcode 0xfe) vm)" ..
  let ?res = "result_of 8984 False (Failed (InvalidOpcode 0xfe) vm) vm (compute_create_addr ?a (u64_sub (u64_add 0 1) 1))"
  have writable: "\<not> sd_static_call (new_state None)" by (simp add: new_state_def)
  have nonce: "ac_nonce (account_at (new_state None) ?a) = 0" by (simp add: account_at_new_state default_account_def)
  obtain st1 m1 where run: "transact default_config default_metrics (new_state None) ?a None 0 [0xfe] 30000 = Some (TxDone (Ok ?res) st1 m1)"
    using vm cost nonce by (auto simp: transact_cases transact_create_def tx_vm_def sub_vm_def close_tx_def Let_def)
  have "account_at st1 ?a = default_account\<lparr>ac_nonce := 1\<rparr>"
    using failed_creation_keeps_accounts [OF run]
    by (simp add: result_of_def account_at_new_state writable default_account_def u64_add_def)
  with run show ?thesis by blast
qed

section \<open>Value\<close>

text \<open>Init code that returns one byte of its memory: the code of the new contract is a single STOP.\<close>

definition stop_contract :: bytes where
  "stop_contract = [0x60, 0x01, 0x60, 0x00, 0xf3]"

lemma stop_contract_run:
  assumes "6 \<le> gas" "2 \<le> ec_max_stack_depth cfg"
  shows "\<exists>vm1. evm_run cfg (vm_new st stop_contract caller a v [] gas counts False) = Some (Finished vm1) \<and>
    vm_output vm1 = [0] \<and> \<not> vm_reverted vm1"
proof -
  have "\<not> gas < 3" "\<not> gas - 3 < 3" using assms(1) by simp_all
  then show ?thesis using assms(2) by (simp add: stop_contract_def evm_run.simps evm_eval ISIZE_MAX_def)
qed

text \<open>
  C35. Creating a contract with a value makes money: the new contract gets the value and nobody pays it. For any configuration, any sender
  that has the value and any init code whose run ends without a revert and returns bytes, the transaction succeeds, the contract's
  balance is the value, and every other balance, the sender's too, is unchanged.
\<close>

theorem creation_mints_value:
  assumes "\<not> sd_static_call st" "v \<le> balance_at st sender" "ac_nonce (account_at st sender) < 2 ^ 64 - 1" "intrinsic_cost cfg code \<le> gas_limit"
    "c = compute_create_addr sender (ac_nonce (account_at st sender))"
    "evm_run cfg (vm_new (new_state None) code sender c v [] (gas_limit - intrinsic_cost cfg code) (mt_opcode_counts m) False) = Some (Finished vm1)"
    "\<not> vm_reverted vm1" "vm_output vm1 \<noteq> []"
  shows "\<exists>res st1 m1. transact cfg m st sender None v code gas_limit = Some (TxDone (Ok res) st1 m1) \<and>
    tr_success res \<and> tr_output res = c \<and> (\<forall>a. balance_at st1 a = (if a = c then v else balance_at st a))"
proof -
  let ?n = "ac_nonce (account_at st sender)" and ?gas = "gas_limit - intrinsic_cost cfg code"
  have n: "u64_sub (u64_add ?n 1) 1 = ?n" using assms(3) by (simp add: u64_add_exact u64_sub_exact)
  let ?st = "set_account c (default_account\<lparr>ac_balance := v, ac_code := vm_output vm1\<rparr>) (tx_start st sender)"
  have "\<exists>m1. transact cfg m st sender None v code gas_limit =
      Some (TxDone (Ok (result_of ?gas True (Finished vm1) vm1 c)) (commit_state ?st) m1)"
    using assms(2,4,6,7,8) n by (simp add: transact_cases transact_create_def sub_vm_def close_tx_def result_of_def Let_def flip: assms(5))
  moreover have "\<not> sd_static_call (tx_start st sender)" using assms(1) by (simp add: tx_start_def snapshot_def)
  then have "balance_at (commit_state ?st) a = (if a = c then v else balance_at st a)" for a
    using account_at_tx_start [OF assms(1)] by (simp add: balance_at_def account_at_set_account)
  ultimately show ?thesis using assms(7) by (auto simp: result_of_def)
qed

text \<open>Init code that returns one byte of its memory: the code of the new contract is a single STOP.\<close>

theorem creation_mints_value_witness:
  "\<exists>res st1 m1. transact default_config default_metrics (set_account [1] (default_account\<lparr>ac_balance := 9\<rparr>) (new_state None)) [1] None 9
     stop_contract 30000 = Some (TxDone (Ok res) st1 m1) \<and> tr_success res \<and> balance_at st1 (tr_output res) = 9"
proof -
  let ?st = "set_account [1] (default_account\<lparr>ac_balance := 9\<rparr>) (new_state None)"
  let ?c = "compute_create_addr [1] (ac_nonce (account_at ?st [1]))"
  have "\<not> sd_static_call (new_state None)" by (simp add: new_state_def)
  then have st: "account_at ?st [1] = default_account\<lparr>ac_balance := 9\<rparr>" "\<not> sd_static_call ?st"
    by (simp_all add: account_at_set_account)
  have cost: "intrinsic_cost default_config stop_contract = 21068"
    by (simp add: intrinsic_cost_def default_config_def stop_contract_def u64_add_def)
  obtain vm1 where vm1: "evm_run default_config (vm_new (new_state None) stop_contract [1] ?c 9 []
      (30000 - intrinsic_cost default_config stop_contract) (mt_opcode_counts default_metrics) False) = Some (Finished vm1)"
      "vm_output vm1 = [0]" "\<not> vm_reverted vm1"
    using stop_contract_run [of 8932 default_config "new_state None" "[1]" ?c 9 "mt_opcode_counts default_metrics"]
    unfolding cost by (auto simp: default_config_def)
  have "9 \<le> balance_at ?st [1]" "ac_nonce (account_at ?st [1]) < 2 ^ 64 - 1" "intrinsic_cost default_config stop_contract \<le> 30000"
    "vm_output vm1 \<noteq> []" unfolding balance_at_def st(1) cost vm1(2) by (simp_all add: default_account_def)
  then obtain res st1 m1 where "transact default_config default_metrics ?st [1] None 9 stop_contract 30000 = Some (TxDone (Ok res) st1 m1)"
      "tr_success res" "tr_output res = ?c" "balance_at st1 ?c = 9"
    using creation_mints_value [OF st(2) _ _ _ refl vm1(1,3)] by auto
  then show ?thesis by auto
qed

text \<open>
  A plain payment pays nothing: a transaction to an account without code is checked against the sender's balance
  and reported as a success, and every balance is unchanged.
\<close>

theorem payment_moves_nothing:
  assumes "\<not> sd_static_call st" "v \<le> balance_at st sender" "ac_code (account_at st dest) = []" "intrinsic_cost cfg data \<le> gas_limit"
  shows "\<exists>res st1 m1. transact cfg m st sender (Some dest) v data gas_limit = Some (TxDone (Ok res) st1 m1) \<and>
    tr_success res \<and> (\<forall>a. balance_at st1 a = balance_at st a)"
proof -
  let ?st = "snd (get_account dest (tx_start st sender))" and ?g = "gas_limit - intrinsic_cost cfg data"
  let ?vm = "vm_new ?st [] sender dest v data ?g (mt_opcode_counts m) False"
  have code: "ac_code (account_at (tx_start st sender) dest) = []" using assms(3) account_at_tx_start [OF assms(1)] by auto
  have "evm_run cfg ?vm = Some (Finished ?vm)" by (subst evm_run_halted) (simp_all add: halted_def vm_new_def finish_def)
  then have "\<exists>res m1. transact cfg m st sender (Some dest) v data gas_limit = Some (TxDone (Ok res) (commit_state ?st) m1) \<and> tr_success res"
    using assms(2,4) code
    by (simp add: transact_cases transact_call_def Let_def split_beta sub_vm_def close_tx_def result_of_def account_at_def)
      (simp add: vm_new_def)
  moreover have "balance_at (commit_state ?st) a = balance_at st a" for a
    using account_at_tx_start [OF assms(1)] by (simp add: balance_at_def)
  ultimately show ?thesis by blast
qed

theorem payment_moves_nothing_witness:
  "\<exists>res st1 m1. transact default_config default_metrics (set_account [1] (default_account\<lparr>ac_balance := 9\<rparr>) (new_state None)) [1] (Some [2]) 9
     [] 21000 = Some (TxDone (Ok res) st1 m1) \<and> tr_success res \<and> balance_at st1 [2] = 0"
proof -
  let ?st = "set_account [1] (default_account\<lparr>ac_balance := 9\<rparr>) (new_state None)"
  have "\<not> sd_static_call (new_state None)" by (simp add: new_state_def)
  then have "account_at ?st [1] = default_account\<lparr>ac_balance := 9\<rparr>" "account_at ?st [2] = default_account" "\<not> sd_static_call ?st"
    by (simp_all add: account_at_set_account account_at_new_state)
  moreover have "intrinsic_cost default_config [] = 21000" by (simp add: intrinsic_cost_def default_config_def u64_add_def)
  ultimately show ?thesis using payment_moves_nothing [of ?st 9 "[1]" "[2]" default_config "[]" 21000 default_metrics]
    by (auto simp: balance_at_def default_account_def)
qed

section \<open>Creations in calls that fail\<close>

text \<open>A contract that stores 1 in slot 0, creates a contract from \<open>stop_contract\<close> and then reverts.\<close>

definition store_create_revert :: bytes where
  "store_create_revert = [0x60, 0x01, 0x60, 0x00, 0x55, 0x64] @ stop_contract @ [0x60, 0x00, 0x52,
     0x60, 0x05, 0x60, 0x1b, 0x60, 0x00, 0xf0, 0x60, 0x00, 0x60, 0x00, 0xfd]"

text \<open>The state after the store.\<close>

definition stored :: "evm_state \<Rightarrow> address \<Rightarrow> evm_state" where
  "stored st a = set_storage a zero256 (replicate 31 0 @ [1]) (snd (get_account a st))"

lemma zero_word [simp]: "replicate 31 0 @ [0] = zero256"
  by (simp add: replicate_append_same flip: replicate_Suc)

lemma upt_small: "[0..<5] = [0, 1, 2, 3, 4 :: nat]"
  by (simp add: upt_rec)

lemma store_create_revert_run:
  fixes st a caller counts
  defines "c \<equiv> compute_create_addr caller (ac_nonce (account_at (stored st a) caller))"
  shows "\<exists>vm1. evm_run default_config (vm_new st store_create_revert caller a 0 [] 100000 counts False) =
      Some (Failed (Revert []) vm1) \<and> vm_reverted vm1 \<and>
      vm_state vm1 = commit_state (set_account c (default_account\<lparr>ac_balance := 0, ac_code := [0]\<rparr>) (snd (get_account caller (stored st a))))"
proof -
  have cfg: "ec_max_stack_depth default_config = 1024" by (simp add: default_config_def)
  show ?thesis
    by (simp add: store_create_revert_def stop_contract_def evm_run.simps evm_eval get_storage_def split_beta ISIZE_MAX_def
        resume_with_def sub_vm_def resume_create_def upt_small cfg c_def stored_def account_at_def)
qed

lemma stored_slot:
  assumes "\<not> sd_static_call st"
  shows "ac_storage (account_at (stored st a) a) zero256 = Some (replicate 31 0 @ [1])" "sd_static_call (stored st a) = False"
proof -
  have "replicate 31 0 @ [1] \<noteq> (zero256 :: u256)" by (simp flip: zero_word)
  then show "ac_storage (account_at (stored st a) a) zero256 = Some (replicate 31 0 @ [1])" "sd_static_call (stored st a) = False"
    using assms by (simp_all add: stored_def set_storage_def split_beta Let_def account_at_set_account)
qed

text \<open>
  A call that fails does not undo its effects when it has created a contract: the creation commits the state of the
  whole transaction and drops the snapshot, so the later revert finds nothing to go back to. A contract stores a
  value, creates another contract and reverts; the transaction is reported as failed and the value stays stored.
\<close>

theorem failed_call_keeps_effects:
  "\<exists>dest res st1 m1. length dest = 20 \<and> transact default_config m (set_account dest (default_account\<lparr>ac_code := store_create_revert\<rparr>) (new_state None))
      (replicate 20 1) (Some dest) 0 [] 121000 = Some (TxDone (Ok res) st1 m1) \<and>
    \<not> tr_success res \<and> fst (get_storage dest zero256 st1) = replicate 31 0 @ [1]"
proof -
  let ?s = "replicate 20 1 :: address" and ?code = "default_account\<lparr>ac_code := store_create_revert\<rparr>"
  define dest :: address where "dest = (if compute_create_addr ?s 1 = replicate 20 2 then replicate 20 3 else replicate 20 2)"
  have dest: "dest \<noteq> ?s" "dest \<noteq> compute_create_addr ?s 1" "length dest = 20"
    unfolding dest_def by (simp_all add: replicate_eq_replicate)
  define st where "st = set_account dest ?code (new_state None)"
  define st2 where "st2 = snd (get_account dest (tx_start st ?s))"
  have new: "\<not> sd_static_call (new_state None)" by (simp add: new_state_def)
  then have st: "\<not> sd_static_call st" "account_at st ?s = default_account" "account_at st dest = ?code"
    using dest(1) by (simp_all add: st_def account_at_set_account account_at_new_state)
  then have st2: "\<not> sd_static_call st2" "ac_code (account_at (tx_start st ?s) dest) = store_create_revert"
    using dest(1) by (simp_all add: st2_def account_at_tx_start) (simp add: tx_start_def snapshot_def)
  have nonce: "ac_nonce (account_at (stored st2 dest) ?s) = 1"
    using st dest(1) st2(1) by (simp add: stored_def set_storage_def split_beta Let_def account_at_set_account)
      (simp add: st2_def account_at_tx_start default_account_def u64_add_def)
  let ?st = "commit_state (set_account (compute_create_addr ?s 1) (default_account\<lparr>ac_balance := 0, ac_code := [0]\<rparr>)
    (snd (get_account ?s (stored st2 dest))))"
  obtain vm1 where vm1: "evm_run default_config (vm_new st2 store_create_revert ?s dest 0 [] 100000 (mt_opcode_counts m) False) =
      Some (Failed (Revert []) vm1)" "vm_state vm1 = ?st"
    using store_create_revert_run [of st2 ?s dest "mt_opcode_counts m"] unfolding nonce by blast
  have cost: "intrinsic_cost default_config [] = 21000" by (simp add: intrinsic_cost_def default_config_def u64_add_def)
  have "revert ?st = ?st" by (simp add: revert_def commit_state_def)
  then have "\<exists>m1. transact default_config m st ?s (Some dest) 0 [] 121000 =
      Some (TxDone (Ok (result_of 100000 False (Failed (Revert []) vm1) vm1 (vm_output vm1))) ?st m1)"
    using vm1 cost st2(2) by (simp add: transact_cases transact_call_def Let_def split_beta sub_vm_def close_tx_def result_of_def account_at_def
        flip: st2_def)
  moreover have "fst (get_storage dest zero256 ?st) = replicate 31 0 @ [1]"
    using stored_slot [OF st2(1)] dest(2) by (simp add: get_storage_def split_beta account_at_set_account flip: account_at_def)
  ultimately show ?thesis using dest(3) unfolding st_def by (auto simp: result_of_def)
qed

end
