(* ===== verification/Ionafs.thy ===== *)
theory Ionafs
  imports Ordered_Map
begin

text \<open>
  The journaled file system (\<open>src/src/fs/ionafs/mod.rs\<close>).

  The disk is a function from sector numbers to sectors of 512 bytes. An operation returns, with its
  result and the state in memory, the sector writes it issues, in order; the disk is what these writes make of it
  (\<open>apply_writes\<close>), and a crash in the middle is a prefix of them. The device writes one
  sector at a time and as a whole. Sector reads succeed, apart from the superblock's, whose result the code checks.
  Paths and names are their UTF-8 bytes. The clock is an argument. A panic at mount is \<open>None\<close>.
\<close>

unbundle bit_operations_syntax

type_synonym disk = "nat \<Rightarrow> bytes"
type_synonym sector_writes = "(nat \<times> bytes) list"

definition apply_writes :: "sector_writes \<Rightarrow> disk \<Rightarrow> disk" where
  "apply_writes ws d = fold (\<lambda>(l, s) d. d(l := s)) ws d"

section \<open>Names\<close>

text \<open>\<open>String::from_utf8_lossy\<close>: whether the bytes start with a character, and how many bytes the character or the
  broken beginning of one has.\<close>

definition is_cont :: "u8 \<Rightarrow> bool" where
  "is_cont b \<longleftrightarrow> 0x80 \<le> b \<and> b \<le> 0xBF"

definition second_ok :: "u8 \<Rightarrow> u8 \<Rightarrow> bool" where
  "second_ok a b \<longleftrightarrow>
     (if a = 0xE0 then 0xA0 \<le> b \<and> b \<le> 0xBF
      else if a = 0xED then 0x80 \<le> b \<and> b \<le> 0x9F
      else if a = 0xF0 then 0x90 \<le> b \<and> b \<le> 0xBF
      else if a = 0xF4 then 0x80 \<le> b \<and> b \<le> 0x8F
      else is_cont b)"

definition utf8_width :: "u8 \<Rightarrow> nat" where
  "utf8_width b =
     (if b < 0x80 then 1 else if 0xC2 \<le> b \<and> b \<le> 0xDF then 2
      else if 0xE0 \<le> b \<and> b \<le> 0xEF then 3 else if 0xF0 \<le> b \<and> b \<le> 0xF4 then 4 else 0)"

fun utf8_next :: "bytes \<Rightarrow> bool \<times> nat" where
  "utf8_next [] = (False, 0)"
| "utf8_next (a # bs) =
     (let w = utf8_width a
      in if w = 0 then (False, 1)
         else if w = 1 then (True, 1)
         else if bs = [] \<or> \<not> second_ok a (bs ! 0) then (False, 1)
         else if w = 2 then (True, 2)
         else if length bs < 2 \<or> \<not> is_cont (bs ! 1) then (False, 2)
         else if w = 3 then (True, 3)
         else if length bs < 3 \<or> \<not> is_cont (bs ! 2) then (False, 3)
         else (True, 4))"

function utf8_lossy :: "bytes \<Rightarrow> bytes" where
  "utf8_lossy bs =
     (if bs = [] then []
      else let (ok, n) = utf8_next bs
        in (if ok then take n bs else [0xEF, 0xBF, 0xBD]) @ utf8_lossy (drop (max 1 n) bs))"
  by pat_completeness auto
termination
  by (relation "measure length") auto

declare utf8_lossy.simps [simp del]

definition path_hash :: "bytes \<Rightarrow> nat" where
  "path_hash path =
     unat (fold (\<lambda>b h. (h XOR ucast b) * 1099511628211) path (14695981039346656037 :: 64 word))"

section \<open>Data\<close>

definition MAGIC :: nat where
  "MAGIC = 0x494F4E41"

definition DATA_LBA :: nat where
  "DATA_LBA = 64"

record file_stat =
  st_size :: nat
  st_mode :: nat
  st_uid :: nat
  st_gid :: nat
  st_atime :: nat
  st_mtime :: nat
  st_ctime :: nat

record file_entry =
  fe_name :: bytes
  fe_lba :: nat
  fe_size :: nat
  fe_mode :: nat
  fe_uid :: nat
  fe_gid :: nat
  fe_atime :: nat
  fe_mtime :: nat
  fe_ctime :: nat

definition new_entry :: "nat \<Rightarrow> bytes \<Rightarrow> nat \<Rightarrow> nat \<Rightarrow> file_entry" where
  "new_entry now name lba sz = \<lparr> fe_name = name, fe_lba = lba, fe_size = sz, fe_mode = 0x1A4, fe_uid = 1000,
     fe_gid = 1000, fe_atime = now, fe_mtime = now, fe_ctime = now \<rparr>"

record journal_entry =
  je_op :: nat
  je_state :: nat
  je_hash :: nat
  je_lba :: nat
  je_size :: nat
  je_path :: bytes

definition OP_WRITE :: nat where
  "OP_WRITE = 1"

definition new_journal_entry :: "nat \<Rightarrow> bytes \<Rightarrow> nat \<Rightarrow> nat \<Rightarrow> journal_entry" where
  "new_journal_entry op path lba sz = \<lparr> je_op = op, je_state = 0, je_hash = path_hash path, je_lba = lba, je_size = sz,
     je_path = take 31 path @ replicate (32 - min 31 (length path)) 0 \<rparr>"

definition to_sector :: "journal_entry \<Rightarrow> bytes" where
  "to_sector e = to_le 4 (je_op e) @ to_le 4 (je_state e) @ to_le 8 (je_hash e) @ to_le 8 (je_lba e) @
     to_le 8 (je_size e) @ je_path e @ replicate 448 0"

definition from_sector :: "bytes \<Rightarrow> journal_entry" where
  "from_sector s = \<lparr> je_op = from_le (take 4 s), je_state = from_le (take 4 (drop 4 s)),
     je_hash = from_le (take 8 (drop 8 s)), je_lba = from_le (take 8 (drop 16 s)),
     je_size = from_le (take 8 (drop 24 s)), je_path = take 32 (drop 32 s) \<rparr>"

text \<open>\<open>s[4..8].copy_from_slice(&state.to_le_bytes())\<close>; the states are pending 0, committed 1, clean 2.\<close>

definition set_state :: "nat \<Rightarrow> bytes \<Rightarrow> bytes" where
  "set_state state s = take 4 s @ to_le 4 state @ drop 8 s"

record ionfs =
  fs_cache :: "(bytes, bytes) btree_map"
  fs_index :: "file_entry list"
  fs_next_lba :: nat
  fs_on_disk :: bool
  fs_journal_head :: nat

definition new_fs :: ionfs where
  "new_fs = \<lparr> fs_cache = [], fs_index = [], fs_next_lba = DATA_LBA, fs_on_disk = False, fs_journal_head = 0 \<rparr>"

section \<open>The index on disk\<close>

definition entry_bytes :: "file_entry \<Rightarrow> bytes" where
  "entry_bytes e = take 47 (fe_name e) @ replicate (48 - min 47 (length (fe_name e))) 0 @
     to_le 8 (fe_lba e) @ to_le 8 (fe_size e)"

definition index_image :: "file_entry list \<Rightarrow> bytes" where
  "index_image es = concat (map entry_bytes (take 120 es)) @ replicate (7680 - 64 * min 120 (length es)) 0"

definition superblock :: "ionfs \<Rightarrow> bytes" where
  "superblock fs = to_le 4 MAGIC @ to_le 4 (length (fs_index fs)) @ to_le 8 (fs_journal_head fs) @ replicate 496 0"

definition write_index_and_superblock :: "ionfs \<Rightarrow> sector_writes" where
  "write_index_and_superblock fs =
     map (\<lambda>i. (1 + i, take 512 (drop (512 * i) (index_image (fs_index fs))))) [0..<15] @ [(0, superblock fs)]"

section \<open>Writing files\<close>

definition nsectors :: "bytes \<Rightarrow> nat" where
  "nsectors data = (length data + 511) div 512"

definition data_writes :: "nat \<Rightarrow> bytes \<Rightarrow> sector_writes" where
  "data_writes lba data =
     (let padded = data @ replicate (nsectors data * 512 - length data) 0
      in map (\<lambda>i. (u64_add lba i, take 512 (drop (512 * i) padded))) [0..<nsectors data])"

text \<open>\<open>index.iter_mut().find(|e| e.name == path)\<close> with a change of what is found.\<close>

fun update_entry :: "bytes \<Rightarrow> (file_entry \<Rightarrow> file_entry) \<Rightarrow> file_entry list \<Rightarrow> file_entry list" where
  "update_entry path f [] = []"
| "update_entry path f (e # es) = (if fe_name e = path then f e # es else e # update_entry path f es)"

definition find_entry :: "bytes \<Rightarrow> file_entry list \<Rightarrow> file_entry option" where
  "find_entry path es = find (\<lambda>e. fe_name e = path) es"

definition place_entry :: "nat \<Rightarrow> bytes \<Rightarrow> nat \<Rightarrow> nat \<Rightarrow> file_entry list \<Rightarrow> file_entry list" where
  "place_entry now path lba sz es =
     (if find_entry path es \<noteq> None then update_entry path (\<lambda>e. e\<lparr>fe_lba := lba, fe_size := sz\<rparr>) es
      else es @ [new_entry now path lba sz])"

definition journal_write :: "nat \<Rightarrow> bytes \<Rightarrow> bytes \<Rightarrow> ionfs \<Rightarrow> bool \<times> ionfs \<times> sector_writes" where
  "journal_write now path data fs =
     (if \<not> fs_on_disk fs then (False, fs, [])
      else
        let lba = fs_next_lba fs;
            slot = 16 + fs_journal_head fs mod 48;
            pending = to_sector (new_journal_entry OP_WRITE path lba (length data));
            committed = set_state 1 pending;
            clean = set_state 2 committed;
            fs1 = fs\<lparr>fs_next_lba := u64_add lba (nsectors data),
                     fs_index := place_entry now path lba (length data) (fs_index fs)\<rparr>;
            fs2 = fs1\<lparr>fs_journal_head := u64_add (fs_journal_head fs1) 1\<rparr>
        in (True, fs2,
             [(slot, pending)] @ data_writes lba data @ [(slot, committed)] @
             write_index_and_superblock fs1 @ [(slot, clean), (0, superblock fs2)]))"

definition write_file :: "nat \<Rightarrow> bytes \<Rightarrow> bytes \<Rightarrow> ionfs \<Rightarrow> ionfs \<times> sector_writes" where
  "write_file now path data fs =
     snd (journal_write now path data
       (fs\<lparr>fs_cache := bt_insert path data (fs_cache fs),
           fs_index := update_entry path (\<lambda>e. e\<lparr>fe_mtime := now, fe_atime := now\<rparr>) (fs_index fs)\<rparr>))"

definition delete_file :: "bytes \<Rightarrow> ionfs \<Rightarrow> bool \<times> ionfs \<times> sector_writes" where
  "delete_file path fs =
     (let existed = bt_get (fs_cache fs) path \<noteq> None;
          fs1 = fs\<lparr>fs_cache := bt_remove path (fs_cache fs), fs_index := filter (\<lambda>e. fe_name e \<noteq> path) (fs_index fs)\<rparr>
      in (existed, fs1, if existed then write_index_and_superblock fs1 else []))"

definition rename_file :: "bytes \<Rightarrow> bytes \<Rightarrow> ionfs \<Rightarrow> bool \<times> ionfs \<times> sector_writes" where
  "rename_file from_path to_path fs =
     (case bt_get (fs_cache fs) from_path of
        None \<Rightarrow> (False, fs, [])
      | Some data \<Rightarrow>
          let fs1 = fs\<lparr>fs_index := update_entry from_path (\<lambda>e. e\<lparr>fe_name := to_path\<rparr>) (fs_index fs),
                       fs_cache := bt_insert to_path data (bt_remove from_path (fs_cache fs))\<rparr>
          in (True, fs1, write_index_and_superblock fs1))"

section \<open>Reading files\<close>

definition read_file :: "bytes \<Rightarrow> ionfs \<Rightarrow> bytes option" where
  "read_file path fs = bt_get (fs_cache fs) path"

text \<open>\<open>read\<close> hands paths of the process file system to \<open>proc_read\<close>.\<close>

definition fs_read :: "(bytes \<Rightarrow> bytes option) \<Rightarrow> bytes \<Rightarrow> ionfs \<Rightarrow> bytes option" where
  "fs_read proc_read path fs =
     (if take 6 path = [0x2F, 0x70, 0x72, 0x6F, 0x63, 0x2F] \<or> path = [0x2F, 0x70, 0x72, 0x6F, 0x63] then proc_read path
      else read_file path fs)"

definition list_files :: "ionfs \<Rightarrow> bytes list" where
  "list_files fs = map fst (fs_cache fs)"

definition matching :: "bytes \<Rightarrow> ionfs \<Rightarrow> bytes list" where
  "matching pre fs =
     takeWhile (\<lambda>k. take (length pre) k = pre) (dropWhile (\<lambda>k. k < pre) (map fst (fs_cache fs)))"

definition list_prefix_limited :: "bytes \<Rightarrow> nat \<Rightarrow> ionfs \<Rightarrow> bytes list" where
  "list_prefix_limited pre limit fs = take limit (matching pre fs)"

definition count_prefix :: "bytes \<Rightarrow> ionfs \<Rightarrow> nat" where
  "count_prefix pre fs = length (matching pre fs)"

definition stat_file :: "bytes \<Rightarrow> ionfs \<Rightarrow> file_stat option" where
  "stat_file path fs = map_option (\<lambda>e. \<lparr> st_size = fe_size e, st_mode = fe_mode e, st_uid = fe_uid e,
     st_gid = fe_gid e, st_atime = fe_atime e, st_mtime = fe_mtime e, st_ctime = fe_ctime e \<rparr>)
     (find_entry path (fs_index fs))"

definition chmod_file :: "nat \<Rightarrow> bytes \<Rightarrow> nat \<Rightarrow> ionfs \<Rightarrow> bool \<times> ionfs" where
  "chmod_file now path mode fs =
     (if find_entry path (fs_index fs) \<noteq> None
      then (True, fs\<lparr>fs_index := update_entry path (\<lambda>e. e\<lparr>fe_mode := mode, fe_ctime := now\<rparr>) (fs_index fs)\<rparr>)
      else (False, fs))"

section \<open>Mounting\<close>

text \<open>The journal slots are read and rewritten one after the other; the writes are to the slot just read.\<close>

definition recover_journal :: "disk \<Rightarrow> sector_writes" where
  "recover_journal d =
     concat (map (\<lambda>slot. let s = d (16 + slot); e = from_sector s
       in if je_op e = 0 \<or> je_state e = 2 then []
          else if je_state e = 0 then [(16 + slot, set_state 1 s)] else []) [0..<48])"

definition index_area :: "disk \<Rightarrow> bytes" where
  "index_area d = concat (map (\<lambda>i. d (1 + i)) [0..<15])"

definition index_name :: "bytes \<Rightarrow> nat \<Rightarrow> bytes" where
  "index_name idx i =
     (let raw = take 48 (drop (i * 64) idx)
      in utf8_lossy (take (case position (\<lambda>b. b = 0) raw of None \<Rightarrow> 48 | Some n \<Rightarrow> n) raw))"

definition index_lba :: "bytes \<Rightarrow> nat \<Rightarrow> nat" where
  "index_lba idx i = from_le (take 8 (drop (i * 64 + 48) idx))"

definition index_size :: "bytes \<Rightarrow> nat \<Rightarrow> nat" where
  "index_size idx i = from_le (take 8 (drop (i * 64 + 56) idx))"

definition read_data :: "disk \<Rightarrow> nat \<Rightarrow> nat \<Rightarrow> bytes option" where
  "read_data d lba sz =
     (let ns = u64_add sz 511 div 512
      in if sz \<le> ns * 512 then Some (take sz (concat (map (\<lambda>j. d (u64_add lba j)) [0..<ns]))) else None)"

fun load_index :: "disk \<Rightarrow> bytes \<Rightarrow> nat list \<Rightarrow> ionfs \<Rightarrow> ionfs option" where
  "load_index d idx [] fs = Some fs"
| "load_index d idx (i # is) fs =
     (let name = index_name idx i; lba = index_lba idx i; sz = index_size idx i
      in if name = [] then load_index d idx is fs
         else case read_data d lba sz of
             None \<Rightarrow> None
           | Some data \<Rightarrow> load_index d idx is
               (fs\<lparr>fs_index := fs_index fs @ [\<lparr> fe_name = name, fe_lba = lba, fe_size = sz, fe_mode = 0x1A4, fe_uid = 0,
                       fe_gid = 0, fe_atime = 0, fe_mtime = 0, fe_ctime = 0 \<rparr>],
                   fs_next_lba := max (fs_next_lba fs) (u64_add lba (u64_add (sz div 512) 1)),
                   fs_cache := bt_insert name data (fs_cache fs)\<rparr>))"

definition init_disk :: "bool \<Rightarrow> bool \<Rightarrow> disk \<Rightarrow> ionfs \<Rightarrow> (ionfs \<times> sector_writes) option" where
  "init_disk is_present readable d fs =
     (if \<not> is_present then Some (fs, [])
      else if \<not> readable then Some (fs\<lparr>fs_on_disk := True\<rparr>, [])
      else
        let sb = d 0; fs1 = fs\<lparr>fs_on_disk := True\<rparr>
        in if from_le (take 4 sb) \<noteq> MAGIC
           then Some (fs1, [(0, to_le 4 MAGIC @ to_le 4 0 @ to_le 8 0 @ drop 16 sb)])
           else
             let num_files = from_le (take 4 (drop 4 sb));
                 fs2 = fs1\<lparr>fs_journal_head := from_le (take 8 (drop 8 sb))\<rparr>;
                 ws = recover_journal d; d1 = apply_writes ws d
             in map_option (\<lambda>fs3. (fs3, ws)) (load_index d1 (index_area d1) [0..<min num_files 120] fs2))"

definition verify_journal_invariants :: "disk \<Rightarrow> ionfs \<Rightarrow> bool" where
  "verify_journal_invariants d fs \<longleftrightarrow>
     \<not> fs_on_disk fs \<or>
     list_all (\<lambda>slot. let e = from_sector (d (16 + slot)) in je_op e = 0 \<or> je_state e \<noteq> 0) [0..<48]"

definition fsck :: "ionfs \<Rightarrow> bool" where
  "fsck fs \<longleftrightarrow>
     list_all (\<lambda>e. DATA_LBA \<le> fe_lba e) (fs_index fs) \<and>
     (let names = sort (map fe_name (fs_index fs)) in list_all (\<lambda>(a, b). a \<noteq> b) (zip names (tl names)))"

definition used_sectors :: "ionfs \<Rightarrow> nat" where
  "used_sectors fs = u64_sat_sub (fs_next_lba fs) 64"

section \<open>File locks\<close>

datatype lock_type = Shared | Exclusive

record file_lock =
  lk_type :: lock_type
  lk_holders :: "nat list"

definition flock :: "bytes \<Rightarrow> lock_type \<Rightarrow> nat \<Rightarrow> (nat, file_lock) btree_map \<Rightarrow> bool \<times> (nat, file_lock) btree_map" where
  "flock path t tid locks =
     (case bt_get locks (path_hash path) of
        Some l \<Rightarrow>
          if lk_type l = Shared \<and> t = Shared
          then (True, bt_insert (path_hash path) (l\<lparr>lk_holders := lk_holders l @ [tid]\<rparr>) locks)
          else (False, locks)
      | None \<Rightarrow> (True, bt_insert (path_hash path) \<lparr> lk_type = t, lk_holders = [tid] \<rparr> locks))"

definition funlock :: "bytes \<Rightarrow> nat \<Rightarrow> (nat, file_lock) btree_map \<Rightarrow> (nat, file_lock) btree_map" where
  "funlock path tid locks =
     (case bt_get locks (path_hash path) of
        None \<Rightarrow> locks
      | Some l \<Rightarrow>
          let hs = filter (\<lambda>h. h \<noteq> tid) (lk_holders l)
          in if hs = [] then bt_remove (path_hash path) locks
             else bt_insert (path_hash path) (l\<lparr>lk_holders := hs\<rparr>) locks)"

section \<open>Crash injection\<close>

text \<open>\<open>check_crash\<close> disarms the crash point and panics (\<open>None\<close>) when the point it is given is the armed one; no operation of
  the file calls it.\<close>

datatype crash_point = NoCrash | AfterJournalPending | AfterJournalCommitted | AfterDataWrite | DuringIndexUpdate

definition inject_crash :: "crash_point \<Rightarrow> crash_point \<Rightarrow> crash_point" where
  "inject_crash point armed = point"

definition check_crash :: "crash_point \<Rightarrow> crash_point \<Rightarrow> unit option \<times> crash_point" where
  "check_crash point armed = (if armed = point then (None, NoCrash) else (Some (), armed))"

section \<open>The second disk format\<close>

text \<open>
  \<open>sync_to_disk\<close> and \<open>mount_from_disk\<close> use the first NVMe disk with a layout of their own: the magic bytes are the
  letters IONA, and an index entry starts with a mark and has 32 bytes of path.
\<close>

definition IONA_BYTES :: bytes where
  "IONA_BYTES = [0x49, 0x4F, 0x4E, 0x41]"

definition format_disk :: sector_writes where
  "format_disk = [(0, IONA_BYTES @ replicate 508 0)]"

fun sync_files :: "(bytes \<times> bytes) list \<Rightarrow> nat \<Rightarrow> sector_writes \<times> bytes list" where
  "sync_files [] lba = ([], [])"
| "sync_files ((path, data) # files) lba =
     (let (ws, es) = sync_files files (u64_add lba (nsectors data));
          e = [1] @ take 32 path @ replicate (32 - min 32 (length path)) 0 @ to_le 8 lba @ to_le 4 (length data) @ replicate 19 0
      in (data_writes lba data @ ws, e # es))"

definition sync_to_disk :: "ionfs \<Rightarrow> sector_writes" where
  "sync_to_disk fs =
     (let (ws, es) = sync_files (take 120 (fs_cache fs)) 64;
          entries = concat es @ replicate (7680 - 64 * length es) 0
      in ws @ map (\<lambda>i. (1 + i, take 512 (drop (512 * i) entries))) [0..<15] @
         [(0, IONA_BYTES @ to_le 4 (length es) @ replicate 504 0)])"

definition mount_entry :: "disk \<Rightarrow> bytes \<Rightarrow> (bytes, bytes) btree_map \<Rightarrow> (bytes, bytes) btree_map" where
  "mount_entry d e cache =
     (if e ! 0 = 0 then cache
      else
        let raw = take 32 (drop 1 e);
            path = utf8_lossy (take (case position (\<lambda>b. b = 0) raw of None \<Rightarrow> 32 | Some n \<Rightarrow> n) raw);
            data_lba = from_le (take 8 (drop 33 e));
            data_size = from_le (take 4 (drop 41 e));
            data = concat (map (\<lambda>s. d (u64_add data_lba s)) [0..<(data_size + 511) div 512])
        in bt_insert path (take data_size data) cache)"

definition mount_from_disk :: "bool \<Rightarrow> disk \<Rightarrow> ionfs \<Rightarrow> ionfs \<times> sector_writes" where
  "mount_from_disk readable d fs =
     (if \<not> readable then (fs, [])
      else if take 4 (d 0) \<noteq> IONA_BYTES then (fs, format_disk)
      else
        let idx = index_area d
        in (fs\<lparr>fs_cache := fold (\<lambda>i. mount_entry d (take 64 (drop (i * 64) idx))) [0..<120] (fs_cache fs)\<rparr>, []))"

end
