(* ===== verification/Ionafs_Crash.thy ===== *)
theory Ionafs_Crash
  imports Ionafs
begin

text \<open>
  Crashes of the journaled file system. A disk is read back by mounting it (\<open>init_disk\<close>). From a state in which memory and disk
  agree (\<open>synced\<close>), a crash after any of the sector writes of a write or a delete leaves a
  disk that mounts to the files before or to the files after the operation.
\<close>

section \<open>Blocks of byte strings\<close>

lemma concat_blocks:
  assumes "\<And>x. x \<in> set xs \<Longrightarrow> length (f x) = n" "k < length xs" "m + l \<le> n"
  shows "take l (drop (k * n + m) (concat (map f xs) @ r)) = take l (drop m (f (xs ! k)))"
  using assms
proof (induction xs arbitrary: k)
  case (Cons x xs)
  have lx: "length (f x) = n" using Cons.prems by simp
  show ?case
  proof (cases k)
    case 0
    with lx Cons.prems(3) show ?thesis by simp
  next
    case (Suc j)
    then have "drop (k * n + m) (concat (map f (x # xs)) @ r) = drop (j * n + m) (concat (map f xs) @ r)"
      using lx by (simp add: drop_append)
    with Suc Cons show ?thesis by simp
  qed
qed simp

lemma concat_chunks: "concat (map (\<lambda>i. take n (drop (n * i) xs)) [0..<k]) = take (n * k) xs"
proof (induction k)
  case (Suc k)
  have "take (n * k) xs @ take n (drop (n * k) xs) = take (n * k + n) xs" by (simp add: take_add)
  with Suc show ?case by (simp add: add.commute)
qed simp

definition entry_at :: "bytes \<Rightarrow> nat \<Rightarrow> bytes" where
  "entry_at idx i = take 64 (drop (i * 64) idx)"

lemma index_of_block:
  "index_name idx i = index_name (entry_at idx i) 0" "index_lba idx i = index_lba (entry_at idx i) 0"
  "index_size idx i = index_size (entry_at idx i) 0"
  by (simp_all add: index_name_def index_lba_def index_size_def entry_at_def drop_take min_def add.commute)

lemma length_entry_bytes [simp]: "length (entry_bytes e) = 64"
  by (simp add: entry_bytes_def)

lemma entry_at_image: "i < length es \<Longrightarrow> length es \<le> 120 \<Longrightarrow> entry_at (index_image es) i = entry_bytes (es ! i)"
  unfolding entry_at_def index_image_def using concat_blocks [of es entry_bytes 64 i 0 64]
  by (simp del: take_append drop_append)

lemma length_index_image: "length es \<le> 120 \<Longrightarrow> length (index_image es) = 7680"
proof -
  assume es: "length es \<le> 120"
  have "length (concat (map entry_bytes es)) = 64 * length es" by (induction es) simp_all
  with es show ?thesis by (simp add: index_image_def)
qed

lemma entry_at_area: "(\<And>l. length (d l) = 512) \<Longrightarrow> k < 120 \<Longrightarrow>
    entry_at (index_area d) k = take 64 (drop (k mod 8 * 64) (d (1 + k div 8)))"
proof -
  assume d: "\<And>l. length (d l) = 512" and k: "k < 120"
  have off: "k div 8 * 512 + k mod 8 * 64 = k * 64" using div_mult_mod_eq [of k 8] by linarith
  have "k mod 8 \<le> 7" by simp
  then have "k mod 8 * 64 + 64 \<le> 512" by simp
  with k d show ?thesis unfolding entry_at_def index_area_def
    using concat_blocks [of "[0..<15]" "\<lambda>i. d (1 + i)" 512 "k div 8" "k mod 8 * 64" 64 "[]", unfolded off] by simp
qed

lemma entry_at_sector: "take 64 (drop (k mod 8 * 64) (take 512 (drop (512 * (k div 8)) idx))) = entry_at idx k"
proof -
  have off: "k mod 8 * 64 + 512 * (k div 8) = k * 64" using div_mult_mod_eq [of k 8] by linarith
  have "k mod 8 \<le> 7" by simp
  then have "min 64 (512 - k mod 8 * 64) = 64" by simp
  with off show ?thesis by (simp add: entry_at_def drop_take)
qed

section \<open>Reading an index entry back\<close>

definition valid_name :: "bytes \<Rightarrow> bool" where
  "valid_name n \<longleftrightarrow> n \<noteq> [] \<and> length n \<le> 47 \<and> 0 \<notin> set n \<and> utf8_lossy n = n"

lemma position_padded: "0 \<notin> set n \<Longrightarrow> 0 < k \<Longrightarrow> position (\<lambda>b. b = 0) (n @ replicate k 0) = Some (length n)"
  by (induction n) (cases k, auto)

lemma index_name_entry: "valid_name (fe_name e) \<Longrightarrow> index_name (entry_bytes e) 0 = fe_name e"
proof -
  assume v: "valid_name (fe_name e)"
  let ?n = "fe_name e"
  have "take 48 (entry_bytes e) = ?n @ replicate (48 - length ?n) 0"
    using v by (simp add: entry_bytes_def valid_name_def)
  then show ?thesis using v by (simp add: index_name_def Let_def valid_name_def position_padded)
qed

lemma index_numbers_entry:
  "fe_lba e < 2 ^ 64 \<Longrightarrow> index_lba (entry_bytes e) 0 = fe_lba e" "fe_size e < 2 ^ 64 \<Longrightarrow> index_size (entry_bytes e) 0 = fe_size e"
proof -
  have "entry_bytes e = (take 47 (fe_name e) @ replicate (48 - min 47 (length (fe_name e))) 0) @ to_le 8 (fe_lba e) @ to_le 8 (fe_size e)"
    by (simp add: entry_bytes_def)
  moreover have "length (take 47 (fe_name e) @ replicate (48 - min 47 (length (fe_name e))) (0 :: u8)) = 48" by simp
  ultimately have "drop 48 (entry_bytes e) = to_le 8 (fe_lba e) @ to_le 8 (fe_size e)" by (simp del: to_le.simps)
  moreover from this have "drop 56 (entry_bytes e) = to_le 8 (fe_size e)"
    using drop_drop [of 8 48 "entry_bytes e"] by (simp del: to_le.simps)
  ultimately show "fe_lba e < 2 ^ 64 \<Longrightarrow> index_lba (entry_bytes e) 0 = fe_lba e" "fe_size e < 2 ^ 64 \<Longrightarrow> index_size (entry_bytes e) 0 = fe_size e"
    by (simp_all add: index_lba_def index_size_def from_to_le del: to_le.simps)
qed

section \<open>File data\<close>

definition whole_sectors :: "bytes \<Rightarrow> bytes" where
  "whole_sectors c = c @ replicate (nsectors c * 512 - length c) 0"

definition data_at :: "disk \<Rightarrow> nat \<Rightarrow> bytes \<Rightarrow> bool" where
  "data_at d lba c \<longleftrightarrow> (\<forall>i < nsectors c. d (lba + i) = take 512 (drop (512 * i) (whole_sectors c)))"

lemma nsectors_bound: "length c \<le> nsectors c * 512"
proof -
  have "(length c + 511) mod 512 < 512" by simp
  then show ?thesis using div_mult_mod_eq [of "length c + 511" 512] unfolding nsectors_def by linarith
qed

lemma length_whole_sectors: "length (whole_sectors c) = nsectors c * 512"
  using nsectors_bound [of c] by (simp add: whole_sectors_def)

lemma data_writes_eq:
  "lba + nsectors c < 2 ^ 64 \<Longrightarrow> data_writes lba c = map (\<lambda>i. (lba + i, take 512 (drop (512 * i) (whole_sectors c)))) [0..<nsectors c]"
  by (auto simp: data_writes_def whole_sectors_def u64_add_exact simp del: power_numeral)

lemma read_data_at:
  assumes "data_at d lba c" "lba + nsectors c < 2 ^ 64" "length c < 2 ^ 63"
  shows "read_data d lba (length c) = Some c"
proof -
  have ns: "u64_add (length c) 511 div 512 = nsectors c"
    using assms(3) by (simp add: u64_add_exact nsectors_def)
  have "map (\<lambda>j. d (u64_add lba j)) [0..<nsectors c] = map (\<lambda>i. take 512 (drop (512 * i) (whole_sectors c))) [0..<nsectors c]"
    using assms(1,2) by (auto simp: data_at_def u64_add_exact simp del: power_numeral)
  then have "concat (map (\<lambda>j. d (u64_add lba j)) [0..<nsectors c]) = take (512 * nsectors c) (whole_sectors c)"
    by (simp only: concat_chunks)
  moreover have "take (512 * nsectors c) (whole_sectors c) = whole_sectors c" by (simp add: length_whole_sectors)
  ultimately show ?thesis using nsectors_bound [of c] unfolding read_data_def Let_def ns by (simp add: whole_sectors_def)
qed

section \<open>Sector writes\<close>

lemma apply_writes_Nil [simp]: "apply_writes [] d = d"
  by (simp add: apply_writes_def)

lemma apply_writes_append: "apply_writes (xs @ ys) d = apply_writes ys (apply_writes xs d)"
  by (simp add: apply_writes_def)

lemma apply_writes_other: "l \<notin> fst ` set ws \<Longrightarrow> apply_writes ws d l = d l"
  by (induction ws arbitrary: d) (auto simp: apply_writes_def)

lemma apply_writes_map:
  assumes "distinct (map f is)" "i \<in> set is"
  shows "apply_writes (map (\<lambda>i. (f i, g i)) is) d (f i) = g i"
  using assms
proof (induction "is" arbitrary: d)
  case (Cons k ks)
  show ?case
  proof (cases "i = k")
    case True
    then have "f i \<notin> fst ` set (map (\<lambda>i. (f i, g i)) ks)" using Cons.prems by force
    then have "apply_writes (map (\<lambda>i. (f i, g i)) ks) (d(f k := g k)) (f i) = (d(f k := g k)) (f i)"
      by (rule apply_writes_other)
    with True show ?thesis by (simp add: apply_writes_def)
  next
    case False
    with Cons show ?thesis by (simp add: apply_writes_def)
  qed
qed simp

lemma apply_writes_sectors:
  "(\<And>l. length (d l) = 512) \<Longrightarrow> (\<And>w. w \<in> set ws \<Longrightarrow> length (snd w) = 512) \<Longrightarrow> length (apply_writes ws d l) = 512"
proof (induction ws arbitrary: d)
  case (Cons w ws)
  obtain k s where w: "w = (k, s)" by (cases w)
  have "length (apply_writes ws (d(k := s)) l) = 512" using Cons.prems(1) Cons.prems(2) [of w] by (intro Cons.IH) (auto simp: w Cons.prems(2))
  then show ?case by (simp add: apply_writes_def w)
qed (simp add: apply_writes_def)

section \<open>Mounting\<close>

text \<open>The files a mounted disk shows.\<close>

definition mounts :: "disk \<Rightarrow> (bytes \<rightharpoonup> bytes) \<Rightarrow> bool" where
  "mounts d m \<longleftrightarrow> (\<exists>fs ws. init_disk True True d new_fs = Some (fs, ws) \<and> (\<forall>p. read_file p fs = m p))"

text \<open>Index blocks that lead to a file: where its data is on the disk.\<close>

definition leads_to :: "disk \<Rightarrow> bytes \<Rightarrow> bytes \<Rightarrow> bool" where
  "leads_to d b c \<longleftrightarrow> index_size b 0 = length c \<and> length c < 2 ^ 63 \<and> 64 \<le> index_lba b 0 \<and>
     index_lba b 0 + nsectors c < 2 ^ 64 \<and> data_at d (index_lba b 0) c"

lemma load_index_view:
  assumes "\<And>i. i \<in> set is \<Longrightarrow> index_name idx i \<noteq> [] \<Longrightarrow> leads_to d (entry_at idx i) (content i)" "bt_sorted (fs_cache fs)"
  shows "\<exists>fs1. load_index d idx is fs = Some fs1 \<and> bt_sorted (fs_cache fs1) \<and>
    map_of (fs_cache fs1) = fold (\<lambda>i m. if index_name idx i = [] then m else m(index_name idx i \<mapsto> content i)) is (map_of (fs_cache fs))"
  using assms
proof (induction "is" arbitrary: fs)
  case (Cons i "is")
  show ?case
  proof (cases "index_name idx i = []")
    case False
    then have l: "leads_to d (entry_at idx i) (content i)" using Cons.prems(1) by simp
    then have "read_data d (index_lba idx i) (index_size idx i) = Some (content i)"
      unfolding index_of_block(2,3) [of idx i] by (simp add: leads_to_def read_data_at)
    moreover define fs' where "fs' = fs\<lparr>fs_index := fs_index fs @ [\<lparr> fe_name = index_name idx i, fe_lba = index_lba idx i,
        fe_size = index_size idx i, fe_mode = 0x1A4, fe_uid = 0, fe_gid = 0, fe_atime = 0, fe_mtime = 0, fe_ctime = 0 \<rparr>],
      fs_next_lba := max (fs_next_lba fs) (u64_add (index_lba idx i) (u64_add (index_size idx i div 512) 1)),
      fs_cache := bt_insert (index_name idx i) (content i) (fs_cache fs)\<rparr>"
    ultimately have load: "load_index d idx (i # is) fs = load_index d idx is fs'" using False by (simp add: Let_def)
    have cache: "map_of (fs_cache fs') = (map_of (fs_cache fs))(index_name idx i \<mapsto> content i)" "bt_sorted (fs_cache fs')"
      using Cons.prems(2) by (auto simp: fs'_def bt.get_ins fun_eq_iff bt_sorted_insert)
    have "\<exists>fs1. load_index d idx is fs' = Some fs1 \<and> bt_sorted (fs_cache fs1) \<and> map_of (fs_cache fs1) =
        fold (\<lambda>i m. if index_name idx i = [] then m else m(index_name idx i \<mapsto> content i)) is (map_of (fs_cache fs'))"
      using Cons.prems(1) cache(2) by (intro Cons.IH) simp_all
    then show ?thesis unfolding load fold_Cons comp_def cache(1) using False by (simp del: fun_upd_apply)
  qed (use Cons in simp)
qed simp

lemma recover_journal_slots: "l \<in> fst ` set (recover_journal d) \<Longrightarrow> 16 \<le> l \<and> l < 64"
  by (auto simp: recover_journal_def Let_def split: if_splits)

definition sb_ok :: "disk \<Rightarrow> nat \<Rightarrow> bool" where
  "sb_ok d n \<longleftrightarrow> from_le (take 4 (d 0)) = MAGIC \<and> from_le (take 4 (drop 4 (d 0))) = n"

lemma mounts_fold:
  assumes "sb_ok d n" "n \<le> 120"
    and lead: "\<And>i. i < n \<Longrightarrow> index_name (index_area d) i \<noteq> [] \<Longrightarrow> leads_to d (entry_at (index_area d) i) (content i)"
  shows "mounts d (fold (\<lambda>i m. if index_name (index_area d) i = [] then m else m(index_name (index_area d) i \<mapsto> content i))
    [0..<n] Map.empty)"
proof -
  let ?d = "apply_writes (recover_journal d) d"
  have same: "?d l = d l" if "l < 16 \<or> 64 \<le> l" for l
  proof (rule apply_writes_other, rule notI)
    assume "l \<in> fst ` set (recover_journal d)"
    then have "16 \<le> l \<and> l < 64" by (rule recover_journal_slots)
    with that show False by linarith
  qed
  then have area: "index_area ?d = index_area d" unfolding index_area_def by (intro arg_cong [of _ _ concat] map_cong) auto
  define fs0 where "fs0 = new_fs\<lparr>fs_on_disk := True, fs_journal_head := from_le (take 8 (drop 8 (d 0)))\<rparr>"
  have "leads_to ?d b c" if "leads_to d b c" for b c using that same by (simp add: leads_to_def data_at_def)
  then have "\<exists>fs1. load_index ?d (index_area d) [0..<n] fs0 = Some fs1 \<and> bt_sorted (fs_cache fs1) \<and> map_of (fs_cache fs1) =
      fold (\<lambda>i m. if index_name (index_area d) i = [] then m else m(index_name (index_area d) i \<mapsto> content i)) [0..<n] (map_of (fs_cache fs0))"
    using lead by (intro load_index_view) (simp_all add: fs0_def new_fs_def)
  then show ?thesis using assms(1,2) by (auto simp: mounts_def init_disk_def Let_def sb_ok_def area read_file_def fs0_def new_fs_def min_def)
qed

section \<open>Memory and disk in agreement\<close>

definition stored_at :: "disk \<Rightarrow> nat \<Rightarrow> file_entry \<Rightarrow> bytes \<Rightarrow> bool" where
  "stored_at d limit e c \<longleftrightarrow> fe_size e = length c \<and> length c < 2 ^ 63 \<and> 64 \<le> fe_lba e \<and>
     fe_lba e + nsectors c \<le> limit \<and> data_at d (fe_lba e) c"

definition synced :: "ionfs \<Rightarrow> disk \<Rightarrow> bool" where
  "synced fs d \<longleftrightarrow>
     fs_on_disk fs \<and> bt_sorted (fs_cache fs) \<and> length (fs_index fs) \<le> 120 \<and> distinct (map fe_name (fs_index fs)) \<and>
     fe_name ` set (fs_index fs) = dom (map_of (fs_cache fs)) \<and>
     (\<forall>e \<in> set (fs_index fs). valid_name (fe_name e) \<and>
       (\<exists>c. map_of (fs_cache fs) (fe_name e) = Some c \<and> stored_at d (fs_next_lba fs) e c)) \<and>
     64 \<le> fs_next_lba fs \<and> fs_next_lba fs < 2 ^ 64 \<and> sb_ok d (length (fs_index fs)) \<and>
     (\<forall>i < length (fs_index fs). entry_at (index_area d) i = entry_bytes (fs_index fs ! i)) \<and> (\<forall>l. length (d l) = 512)"

lemma leads_to_entry: "stored_at d limit e c \<Longrightarrow> limit < 2 ^ 64 \<Longrightarrow> leads_to d (entry_bytes e) c"
proof -
  assume e: "stored_at d limit e c" and l: "limit < 2 ^ 64"
  then have "fe_lba e < 2 ^ 64" "fe_size e < 2 ^ 64" "fe_lba e + nsectors c < 2 ^ 64" by (simp_all add: stored_at_def)
  with e show ?thesis by (simp add: leads_to_def stored_at_def index_numbers_entry)
qed

lemma fold_names:
  assumes "\<And>i. i \<in> set is \<Longrightarrow> name i \<noteq> [] \<Longrightarrow> V (name i) = Some (content i)"
  shows "fold (\<lambda>i m. if name i = [] then m else m(name i \<mapsto> content i)) is m =
    (\<lambda>p. if \<exists>i \<in> set is. name i = p \<and> p \<noteq> [] then V p else m p)"
  using assms by (induction "is" arbitrary: m) (auto simp: fun_eq_iff)

text \<open>A disk mounts to the files that its index blocks lead to.\<close>

lemma mounts_blocks:
  assumes "sb_ok d n" "n \<le> 120" "limit < 2 ^ 64"
    and block: "\<And>i. i < n \<Longrightarrow> index_name (entry_at (index_area d) i) 0 = [] \<or>
      (\<exists>e c. entry_at (index_area d) i = entry_bytes e \<and> valid_name (fe_name e) \<and> V (fe_name e) = Some c \<and> stored_at d limit e c)"
    and all: "\<And>p. p \<in> dom V \<Longrightarrow> p \<noteq> [] \<and> (\<exists>i < n. index_name (entry_at (index_area d) i) 0 = p)"
  shows "mounts d V"
proof -
  let ?name = "index_name (index_area d)"
  define content where "content i = the (V (?name i))" for i
  have good: "V (?name i) = Some (content i) \<and> leads_to d (entry_at (index_area d) i) (content i)" if i: "i < n" and named: "?name i \<noteq> []" for i
  proof -
    obtain e c where e: "entry_at (index_area d) i = entry_bytes e" "valid_name (fe_name e)" "V (fe_name e) = Some c" "stored_at d limit e c"
      using block [OF i] named index_of_block(1) [of "index_area d" i] by auto
    then have "?name i = fe_name e" using index_of_block(1) [of "index_area d" i] by (simp add: index_name_entry)
    with e leads_to_entry [OF e(4) assms(3)] show ?thesis by (simp add: content_def)
  qed
  have "fold (\<lambda>i m. if ?name i = [] then m else m(?name i \<mapsto> content i)) [0..<n] Map.empty =
      (\<lambda>p. if \<exists>i \<in> set [0..<n]. ?name i = p \<and> p \<noteq> [] then V p else None)"
    using good by (intro fold_names) simp
  also have "\<dots> = V"
  proof
    fix p
    have "\<exists>i \<in> set [0..<n]. ?name i = p \<and> p \<noteq> []" if "p \<in> dom V"
      using all [OF that] index_of_block(1) [of "index_area d"] by auto
    then show "(if \<exists>i \<in> set [0..<n]. ?name i = p \<and> p \<noteq> [] then V p else None) = V p" by (cases "V p") auto
  qed
  finally show ?thesis using mounts_fold [OF assms(1,2), of content] good by simp
qed

lemma synced_mounts: "synced fs d \<Longrightarrow> mounts d (map_of (fs_cache fs))"
proof -
  assume s: "synced fs d"
  let ?es = "fs_index fs"
  have blk: "entry_at (index_area d) i = entry_bytes (?es ! i)" "?es ! i \<in> set ?es" if "i < length ?es" for i
    using s that by (simp_all add: synced_def)
  have name: "index_name (entry_at (index_area d) i) 0 = fe_name (?es ! i)" if "i < length ?es" for i
    using s blk [OF that] by (simp add: index_name_entry synced_def)
  show ?thesis
  proof (rule mounts_blocks [of d "length ?es" "fs_next_lba fs"])
    fix i assume "i < length ?es"
    with s blk [OF this] show "index_name (entry_at (index_area d) i) 0 = [] \<or> (\<exists>e c. entry_at (index_area d) i = entry_bytes e \<and>
        valid_name (fe_name e) \<and> map_of (fs_cache fs) (fe_name e) = Some c \<and> stored_at d (fs_next_lba fs) e c)"
      unfolding synced_def by blast
  next
    fix p assume "p \<in> dom (map_of (fs_cache fs))"
    then have "p \<in> fe_name ` set ?es" using s by (simp add: synced_def)
    then obtain i where i: "i < length ?es" "fe_name (?es ! i) = p" by (auto simp: in_set_conv_nth)
    moreover from this have "valid_name p" using s blk(2) by (auto simp: synced_def)
    ultimately show "p \<noteq> [] \<and> (\<exists>i < length ?es. index_name (entry_at (index_area d) i) 0 = p)"
      using name by (auto simp: valid_name_def)
  qed (use s in \<open>simp_all add: synced_def\<close>)
qed

section \<open>Writing the index\<close>

definition idx_writes :: "file_entry list \<Rightarrow> sector_writes" where
  "idx_writes es = map (\<lambda>i. (1 + i, take 512 (drop (512 * i) (index_image es)))) [0..<15]"

lemma idx_writes_prefix:
  "apply_writes (take j (idx_writes es)) d l =
     (if 1 \<le> l \<and> l \<le> min j 15 then take 512 (drop (512 * (l - 1)) (index_image es)) else d l)"
proof -
  let ?sec = "\<lambda>i. take 512 (drop (512 * i) (index_image es))"
  have take: "take j (idx_writes es) = map (\<lambda>i. (1 + i, ?sec i)) [0..<min j 15]"
    by (simp add: idx_writes_def take_map min_def)
  show ?thesis
  proof (cases "1 \<le> l \<and> l \<le> min j 15")
    case True
    then have "l - 1 \<in> set [0..<min j 15]" "l = 1 + (l - 1)" by auto
    then show ?thesis using True apply_writes_map [of "\<lambda>i. 1 + i" "[0..<min j 15]" "l - 1" ?sec d]
      unfolding take by (simp add: distinct_map)
  next
    case False
    then have "l \<notin> fst ` set (map (\<lambda>i. (1 + i, ?sec i)) [0..<min j 15])" by auto
    then show ?thesis unfolding take if_not_P [OF False] by (rule apply_writes_other)
  qed
qed

lemma idx_writes_sectors:
  "length es \<le> 120 \<Longrightarrow> w \<in> set (idx_writes es) \<Longrightarrow> length (snd w) = 512"
  by (auto simp: idx_writes_def length_index_image)

lemma idx_prefix_block:
  assumes "\<And>l. length (d l) = 512" "length es \<le> 120" "i < 120"
  shows "entry_at (index_area (apply_writes (take j (idx_writes es)) d)) i =
    (if i div 8 < j then entry_at (index_image es) i else entry_at (index_area d) i)"
proof -
  let ?d = "apply_writes (take j (idx_writes es)) d"
  have "length (?d l) = 512" for l
    using assms(1) by (rule apply_writes_sectors) (meson assms(2) idx_writes_sectors in_set_takeD)
  then have "entry_at (index_area ?d) i = take 64 (drop (i mod 8 * 64) (?d (1 + i div 8)))"
    using assms(3) by (intro entry_at_area)
  moreover have "i div 8 < 15" using assms(3) by (simp add: less_mult_imp_div_less)
  ultimately show ?thesis using assms(3) by (simp add: idx_writes_prefix entry_at_sector entry_at_area [OF assms(1,3)])
qed

lemma length_superblock [simp]: "length (superblock fs) = 512"
  by (simp add: superblock_def del: to_le.simps)

lemma sb_ok_superblock: "length (fs_index fs) \<le> 120 \<Longrightarrow> d 0 = superblock fs \<Longrightarrow> sb_ok d (length (fs_index fs))"
proof -
  assume n: "length (fs_index fs) \<le> 120" and d: "d 0 = superblock fs"
  have "take 4 (superblock fs) = to_le 4 MAGIC" "take 4 (drop 4 (superblock fs)) = to_le 4 (length (fs_index fs))"
    by (simp_all add: superblock_def del: to_le.simps)
  moreover have "from_le (to_le 4 (length (fs_index fs))) = length (fs_index fs)" "from_le (to_le 4 MAGIC) = MAGIC"
    using n by (intro from_to_le; simp add: MAGIC_def)+
  ultimately show ?thesis by (simp add: sb_ok_def d del: to_le.simps)
qed

section \<open>The entry of a written file\<close>

lemma entry_bytes_cong: "fe_name e = fe_name e' \<Longrightarrow> fe_lba e = fe_lba e' \<Longrightarrow> fe_size e = fe_size e' \<Longrightarrow> entry_bytes e = entry_bytes e'"
  by (simp add: entry_bytes_def)

lemma update_entry_map:
  "distinct (map fe_name es) \<Longrightarrow> update_entry p f es = map (\<lambda>e. if fe_name e = p then f e else e) es"
proof (induction es)
  case (Cons e es)
  have "map (\<lambda>e. if fe_name e = p then f e else e) es = es" if "fe_name e = p"
  proof (rule map_idI)
    fix x assume "x \<in> set es"
    then have "fe_name x \<noteq> p" using Cons.prems that by (auto simp: rev_image_eqI)
    then show "(if fe_name x = p then f x else x) = x" by simp
  qed
  with Cons show ?case by simp
qed simp

lemma find_entry_None: "find_entry p es = None \<longleftrightarrow> p \<notin> fe_name ` set es"
  by (auto simp: find_entry_def find_None_iff)

text \<open>The index after a write of \<open>p\<close>, whose data goes to \<open>lba\<close>.\<close>

definition written_index :: "nat \<Rightarrow> bytes \<Rightarrow> nat \<Rightarrow> nat \<Rightarrow> file_entry list \<Rightarrow> file_entry list" where
  "written_index now p lba sz es = place_entry now p lba sz (update_entry p (\<lambda>e. e\<lparr>fe_mtime := now, fe_atime := now\<rparr>) es)"

lemma written_index_cases:
  assumes "distinct (map fe_name es)"
  shows "p \<in> fe_name ` set es \<Longrightarrow> written_index now p lba sz es =
      map (\<lambda>e. if fe_name e = p then e\<lparr>fe_mtime := now, fe_atime := now, fe_lba := lba, fe_size := sz\<rparr> else e) es"
    "p \<notin> fe_name ` set es \<Longrightarrow> written_index now p lba sz es = es @ [new_entry now p lba sz]"
proof -
  let ?es = "map (\<lambda>e. if fe_name e = p then e\<lparr>fe_mtime := now, fe_atime := now\<rparr> else e) es"
  have names: "map fe_name ?es = map fe_name es" by auto
  have "fe_name ` set ?es = fe_name ` set es" using arg_cong [OF names, of set] by (simp only: set_map)
  then have "find_entry p ?es = None \<longleftrightarrow> p \<notin> fe_name ` set es" by (simp only: find_entry_None)
  moreover have "update_entry p f ?es = map (\<lambda>e. if fe_name e = p then f e else e) ?es" for f
    by (intro update_entry_map) (simp only: names assms)
  moreover have "?es = es" if "p \<notin> fe_name ` set es" using that by (auto intro!: map_idI)
  ultimately show "p \<in> fe_name ` set es \<Longrightarrow> written_index now p lba sz es =
      map (\<lambda>e. if fe_name e = p then e\<lparr>fe_mtime := now, fe_atime := now, fe_lba := lba, fe_size := sz\<rparr> else e) es"
    "p \<notin> fe_name ` set es \<Longrightarrow> written_index now p lba sz es = es @ [new_entry now p lba sz]"
    unfolding written_index_def place_entry_def update_entry_map [OF assms] by auto
qed

lemma written_index_names:
  assumes "distinct (map fe_name es)"
  shows "fe_name ` set (written_index now p lba sz es) = insert p (fe_name ` set es)"
    "distinct (map fe_name (written_index now p lba sz es))"
    "length (written_index now p lba sz es) = (if p \<in> fe_name ` set es then length es else Suc (length es))"
    "e \<in> set (written_index now p lba sz es) \<Longrightarrow> fe_name e \<noteq> p \<Longrightarrow> e \<in> set es"
    "e \<in> set (written_index now p lba sz es) \<Longrightarrow> fe_name e = p \<Longrightarrow> fe_lba e = lba \<and> fe_size e = sz"
proof -
  let ?es = "written_index now p lba sz es"
  note wi = written_index_cases [OF assms, of p now lba sz]
  have names: "map fe_name ?es = (if p \<in> fe_name ` set es then map fe_name es else map fe_name es @ [p])"
  proof (cases "p \<in> fe_name ` set es")
    case True
    show ?thesis unfolding wi(1) [OF True] if_P [OF True] by auto
  next
    case False
    show ?thesis unfolding wi(2) [OF False] if_not_P [OF False] by (simp add: new_entry_def)
  qed
  have "set (map fe_name ?es) = insert p (set (map fe_name es))" unfolding names by auto
  then show "fe_name ` set ?es = insert p (fe_name ` set es)" by (simp only: set_map)
  show "distinct (map fe_name ?es)" unfolding names using assms by auto
  show "length ?es = (if p \<in> fe_name ` set es then length es else Suc (length es))"
    using arg_cong [OF names, of length] by (simp split: if_splits)
  have "(fe_name e \<noteq> p \<longrightarrow> e \<in> set es) \<and> (fe_name e = p \<longrightarrow> fe_lba e = lba \<and> fe_size e = sz)" if "e \<in> set ?es"
  proof (cases "p \<in> fe_name ` set es")
    case True
    show ?thesis using that unfolding wi(1) [OF True] by (auto split: if_splits)
  next
    case False
    show ?thesis using that False unfolding wi(2) [OF False] by (auto simp: new_entry_def rev_image_eqI)
  qed
  then show "e \<in> set ?es \<Longrightarrow> fe_name e \<noteq> p \<Longrightarrow> e \<in> set es"
    "e \<in> set ?es \<Longrightarrow> fe_name e = p \<Longrightarrow> fe_lba e = lba \<and> fe_size e = sz" by simp_all
qed

lemma written_index_nth:
  assumes "distinct (map fe_name es)" "i < length es"
  shows "fe_name (written_index now p lba sz es ! i) = fe_name (es ! i) \<and>
    (fe_name (es ! i) \<noteq> p \<longrightarrow> written_index now p lba sz es ! i = es ! i)"
proof (cases "p \<in> fe_name ` set es")
  case True
  show ?thesis unfolding written_index_cases(1) [OF assms(1) True] using assms(2) by simp
next
  case False
  show ?thesis unfolding written_index_cases(2) [OF assms(1) False] using assms(2) by (simp add: nth_append)
qed

section \<open>Writes\<close>

lemma sector_lengths [simp]:
  "length (to_sector (new_journal_entry op p lba sz)) = 512" "length s = 512 \<Longrightarrow> length (set_state n s) = 512"
  by (simp_all add: to_sector_def new_journal_entry_def set_state_def del: to_le.simps)

text \<open>The sector writes of a file write: the journal and the data, the index, and the superblock.\<close>

definition early_writes :: "nat \<Rightarrow> nat \<Rightarrow> bytes \<Rightarrow> bytes \<Rightarrow> bytes \<Rightarrow> sector_writes" where
  "early_writes slot lba data s1 s2 = [(slot, s1)] @ data_writes lba data @ [(slot, s2)]"

definition late_writes :: "nat \<Rightarrow> bytes \<Rightarrow> ionfs \<Rightarrow> ionfs \<Rightarrow> sector_writes" where
  "late_writes slot s3 fs1 fs2 = [(0, superblock fs1), (slot, s3), (0, superblock fs2)]"

lemma write_file_parts:
  assumes "fs_on_disk fs" "write_file now p data fs = (fs2, ws)"
  shows "\<exists>slot s1 s2 s3 fs1. 16 \<le> slot \<and> slot < 64 \<and> length s1 = 512 \<and> length s2 = 512 \<and> length s3 = 512 \<and>
      fs_index fs1 = fs_index fs2 \<and>
      ws = early_writes slot (fs_next_lba fs) data s1 s2 @ idx_writes (fs_index fs2) @ late_writes slot s3 fs1 fs2"
    and "fs_index fs2 = written_index now p (fs_next_lba fs) (length data) (fs_index fs)"
      "fs_cache fs2 = bt_insert p data (fs_cache fs)" "fs_next_lba fs2 = u64_add (fs_next_lba fs) (nsectors data)" "fs_on_disk fs2"
proof -
  define s1 where "s1 = to_sector (new_journal_entry OP_WRITE p (fs_next_lba fs) (length data))"
  define es where "es = written_index now p (fs_next_lba fs) (length data) (fs_index fs)"
  define fs1 where "fs1 = fs\<lparr>fs_cache := bt_insert p data (fs_cache fs),
    fs_next_lba := u64_add (fs_next_lba fs) (nsectors data), fs_index := es\<rparr>"
  have fs2: "fs2 = fs1\<lparr>fs_journal_head := u64_add (fs_journal_head fs) 1\<rparr>"
    using assms by (auto simp: write_file_def journal_write_def Let_def fs1_def es_def written_index_def)
  then show "fs_index fs2 = written_index now p (fs_next_lba fs) (length data) (fs_index fs)"
      "fs_cache fs2 = bt_insert p data (fs_cache fs)" "fs_next_lba fs2 = u64_add (fs_next_lba fs) (nsectors data)" "fs_on_disk fs2"
    using assms(1) by (simp_all add: fs1_def es_def)
  have "fs_index fs1 = fs_index fs2" by (simp add: fs2)
  moreover have "16 \<le> 16 + fs_journal_head fs mod 48" "16 + fs_journal_head fs mod 48 < 64" by simp_all
  moreover have "ws = early_writes (16 + fs_journal_head fs mod 48) (fs_next_lba fs) data s1 (set_state 1 s1) @ idx_writes (fs_index fs2) @
      late_writes (16 + fs_journal_head fs mod 48) (set_state 2 (set_state 1 s1)) fs1 fs2"
    using assms by (simp add: write_file_def journal_write_def Let_def early_writes_def late_writes_def idx_writes_def s1_def
        write_index_and_superblock_def fs2 fs1_def es_def written_index_def superblock_def del: upt_Suc to_le.simps)
  moreover have "length s1 = 512" by (simp add: s1_def)
  ultimately show "\<exists>slot s1 s2 s3 fs1. 16 \<le> slot \<and> slot < 64 \<and> length s1 = 512 \<and> length s2 = 512 \<and> length s3 = 512 \<and>
      fs_index fs1 = fs_index fs2 \<and>
      ws = early_writes slot (fs_next_lba fs) data s1 s2 @ idx_writes (fs_index fs2) @ late_writes slot s3 fs1 fs2"
    by (metis sector_lengths(2))
qed

lemma early_writes_elsewhere:
  assumes "16 \<le> slot" "slot < 64" "lba + nsectors data < 2 ^ 64" "l < 16 \<or> 64 \<le> l \<and> l < lba" "64 \<le> lba" "set ws \<subseteq> set (early_writes slot lba data s1 s2)"
  shows "apply_writes ws d l = d l"
proof (rule apply_writes_other)
  have "l \<notin> fst ` set (early_writes slot lba data s1 s2)"
    using assms(1,2,4,5) by (auto simp: early_writes_def data_writes_eq [OF assms(3)])
  with assms(6) show "l \<notin> fst ` set ws" by auto
qed

lemma early_writes_sectors:
  assumes "lba + nsectors data < 2 ^ 64" "length s1 = 512" "length s2 = 512" "w \<in> set (early_writes slot lba data s1 s2)"
  shows "length (snd w) = 512"
  using assms(2-) by (auto simp: early_writes_def data_writes_eq [OF assms(1)] length_whole_sectors)

lemma early_writes_data:
  assumes "slot < 64" "64 \<le> lba" "lba + nsectors data < 2 ^ 64"
  shows "data_at (apply_writes (early_writes slot lba data s1 s2) d) lba data"
  unfolding data_at_def
proof (intro allI impI)
  fix i assume i: "i < nsectors data"
  let ?ws = "map (\<lambda>i. (lba + i, take 512 (drop (512 * i) (whole_sectors data)))) [0..<nsectors data]"
  have "apply_writes (early_writes slot lba data s1 s2) d = (apply_writes ?ws (d(slot := s1)))(slot := s2)"
    unfolding early_writes_def data_writes_eq [OF assms(3)] by (simp add: apply_writes_def)
  moreover have "apply_writes ?ws (d(slot := s1)) (lba + i) = take 512 (drop (512 * i) (whole_sectors data))"
    using i by (intro apply_writes_map) (auto simp: distinct_map)
  ultimately show "apply_writes (early_writes slot lba data s1 s2) d (lba + i) = take 512 (drop (512 * i) (whole_sectors data))"
    using assms(1,2) by simp
qed

lemma stored_at_same:
  "stored_at d limit e c \<Longrightarrow> (\<And>l. 64 \<le> l \<Longrightarrow> l < limit \<Longrightarrow> d1 l = d l) \<Longrightarrow> limit \<le> limit1 \<Longrightarrow> stored_at d1 limit1 e c"
  by (auto simp: stored_at_def data_at_def)

lemma index_area_same: "(\<And>l. l < 16 \<Longrightarrow> d1 l = d l) \<Longrightarrow> index_area d1 = index_area d"
  unfolding index_area_def by (intro arg_cong [of _ _ concat] map_cong) auto

lemma synced_elsewhere:
  assumes "synced fs d" "\<And>l. l < 16 \<or> 64 \<le> l \<and> l < fs_next_lba fs \<Longrightarrow> d1 l = d l" "\<And>l. length (d1 l) = 512"
  shows "synced fs d1"
proof -
  have "index_area d1 = index_area d" "d1 0 = d 0" using assms(2) by (auto intro: index_area_same)
  moreover have "stored_at d1 (fs_next_lba fs) e c" if "stored_at d (fs_next_lba fs) e c" for e c
    using that assms(2) by (auto intro: stored_at_same)
  ultimately show ?thesis using assms(1,3) unfolding synced_def sb_ok_def by fastforce
qed

text \<open>A file that can be written: a name the index can hold, and room in the index and on the disk.\<close>

definition can_write :: "ionfs \<Rightarrow> bytes \<Rightarrow> bytes \<Rightarrow> bool" where
  "can_write fs p data \<longleftrightarrow> valid_name p \<and> length data < 2 ^ 63 \<and> fs_next_lba fs + nsectors data < 2 ^ 64 \<and>
     (p \<in> fe_name ` set (fs_index fs) \<or> length (fs_index fs) < 120)"

lemma synced_entry:
  assumes "synced fs d" "i < length (fs_index fs)"
  obtains c where "valid_name (fe_name (fs_index fs ! i))" "map_of (fs_cache fs) (fe_name (fs_index fs ! i)) = Some c"
    "stored_at d (fs_next_lba fs) (fs_index fs ! i) c"
  using assms nth_mem [OF assms(2)] unfolding synced_def by blast

lemma synced_names: "synced fs d \<Longrightarrow> p \<in> dom (map_of (fs_cache fs)) \<Longrightarrow> \<exists>i < length (fs_index fs). fe_name (fs_index fs ! i) = p"
  unfolding synced_def by (metis (no_types, lifting) image_iff in_set_conv_nth)

text \<open>In the middle of the index: the written file is at its old or at its new place, whichever its sector says.\<close>

lemma crash_in_index:
  fixes fs d p data now j and es :: "file_entry list" and d1 :: disk and moved :: bool
  assumes s: "synced fs d" and data: "data_at d (fs_next_lba fs) data" and w: "can_write fs p data"
  defines "es \<equiv> written_index now p (fs_next_lba fs) (length data) (fs_index fs)"
  defines "d1 \<equiv> apply_writes (take j (idx_writes es)) d"
  defines "moved \<equiv> \<exists>i < length (fs_index fs). fe_name (fs_index fs ! i) = p \<and> i div 8 < j"
  shows "mounts d1 (if moved then (map_of (fs_cache fs))(p \<mapsto> data) else map_of (fs_cache fs))"
proof (rule mounts_blocks [of _ "length (fs_index fs)" "fs_next_lba fs + nsectors data"])
  let ?n = "length (fs_index fs)" and ?V = "if moved then (map_of (fs_cache fs))(p \<mapsto> data) else map_of (fs_cache fs)"
  let ?limit = "fs_next_lba fs + nsectors data"
  have dist: "distinct (map fe_name (fs_index fs))" and n: "?n \<le> 120" and len: "\<And>l. length (d l) = 512" using s by (simp_all add: synced_def)
  have es: "length es \<le> 120" "?n \<le> length es" using written_index_names(3) [OF dist] n w by (auto simp: es_def can_write_def)
  have same: "d1 l = d l" if "l = 0 \<or> 16 \<le> l" for l using that by (auto simp: d1_def idx_writes_prefix)
  show "sb_ok d1 ?n" using s same [of 0] by (simp add: synced_def sb_ok_def)
  show "?n \<le> 120" "?limit < 2 ^ 64" using n w by (simp_all add: can_write_def)
  have blk: "entry_at (index_area d1) i = (if i div 8 < j then entry_bytes (es ! i) else entry_bytes (fs_index fs ! i))" if "i < ?n" for i
    unfolding d1_def using idx_prefix_block [OF len es(1), of i j] that n es s by (simp add: entry_at_image synced_def)
  have name: "fe_name (es ! i) = fe_name (fs_index fs ! i)" "fe_name (fs_index fs ! i) \<noteq> p \<longrightarrow> es ! i = fs_index fs ! i" if "i < ?n" for i
    using written_index_nth [OF dist that] by (simp_all add: es_def)
  have ok: "valid_name (fe_name (fs_index fs ! i))" if "i < ?n" for i using s that by (rule synced_entry)
  show "index_name (entry_at (index_area d1) i) 0 = [] \<or> (\<exists>e c. entry_at (index_area d1) i = entry_bytes e \<and> valid_name (fe_name e) \<and>
      ?V (fe_name e) = Some c \<and> stored_at d1 ?limit e c)" if i: "i < ?n" for i
  proof -
    obtain c where c: "map_of (fs_cache fs) (fe_name (fs_index fs ! i)) = Some c" "stored_at d (fs_next_lba fs) (fs_index fs ! i) c"
      using s i by (rule synced_entry)
    have old: "stored_at d1 ?limit (fs_index fs ! i) c" using c(2) same by (rule stored_at_same) simp_all
    show ?thesis
    proof (cases "fe_name (fs_index fs ! i) = p \<and> i div 8 < j")
      case True
      then have moved: "moved" using i by (auto simp: moved_def)
      have "es ! i \<in> set es" "fe_name (es ! i) = p" using i es(2) name True by auto
      then have "fe_lba (es ! i) = fs_next_lba fs \<and> fe_size (es ! i) = length data"
        unfolding es_def by (intro written_index_names(5) [OF dist])
      then have "stored_at d1 ?limit (es ! i) data"
        using data same w s by (simp add: stored_at_def data_at_def can_write_def synced_def)
      then show ?thesis using blk [OF i] True moved name [OF i] ok [OF i] by auto
    next
      case False
      have "\<not> moved" if "fe_name (fs_index fs ! i) = p"
        using False that i dist by (auto simp: moved_def distinct_conv_nth)
      then have "?V (fe_name (fs_index fs ! i)) = Some c" using c(1) by auto
      moreover have "entry_at (index_area d1) i = entry_bytes (fs_index fs ! i)" using blk [OF i] False name [OF i] by auto
      ultimately show ?thesis using old ok [OF i] by blast
    qed
  qed
  show "q \<noteq> [] \<and> (\<exists>i < ?n. index_name (entry_at (index_area d1) i) 0 = q)" if "q \<in> dom ?V" for q
  proof -
    have "\<exists>i < ?n. fe_name (fs_index fs ! i) = q" using synced_names [OF s, of q] that by (auto simp: moved_def split: if_splits)
    then obtain i where i: "i < ?n" "fe_name (fs_index fs ! i) = q" by blast
    then have "index_name (entry_at (index_area d1) i) 0 = q" using blk [OF i(1)] name [OF i(1)] ok [OF i(1)] by (simp add: index_name_entry)
    moreover have "q \<noteq> []" using ok [OF i(1)] i(2) by (simp add: valid_name_def)
    ultimately show ?thesis using i(1) by blast
  qed
qed

text \<open>After the superblock, memory and disk agree on the new files.\<close>

lemma synced_after_write:
  assumes s: "synced fs d" and data: "data_at d (fs_next_lba fs) data" and w: "can_write fs p data"
    and fs2: "fs_index fs2 = written_index now p (fs_next_lba fs) (length data) (fs_index fs)"
      "fs_cache fs2 = bt_insert p data (fs_cache fs)" "fs_next_lba fs2 = u64_add (fs_next_lba fs) (nsectors data)" "fs_on_disk fs2"
    and d2: "\<And>l. 1 \<le> l \<Longrightarrow> l < 16 \<or> 64 \<le> l \<Longrightarrow> d2 l = apply_writes (idx_writes (fs_index fs2)) d l"
      "d2 0 = superblock fs1" "fs_index fs1 = fs_index fs2" "\<And>l. length (d2 l) = 512"
  shows "synced fs2 d2"
proof -
  have dist: "distinct (map fe_name (fs_index fs))" and n: "length (fs_index fs) \<le> 120" and len: "\<And>l. length (d l) = 512"
    using s by (simp_all add: synced_def)
  have lba: "fs_next_lba fs2 = fs_next_lba fs + nsectors data" "fs_next_lba fs2 < 2 ^ 64"
    using w by (simp_all add: fs2(3) u64_add_exact can_write_def)
  have es: "length (fs_index fs2) \<le> 120" using written_index_names(3) [OF dist] n w by (auto simp: fs2(1) can_write_def)
  have idx: "apply_writes (idx_writes (fs_index fs2)) d l = d l" if "64 \<le> l" for l
    using that idx_writes_prefix [of 15 "fs_index fs2" d l] by (simp add: idx_writes_def)
  then have disk: "d2 l = d l" if "64 \<le> l" for l using that d2(1) [of l] by simp
  have area: "index_area d2 = index_area (apply_writes (take 15 (idx_writes (fs_index fs2))) d)"
    unfolding index_area_def using d2(1) by (intro arg_cong [of _ _ concat] map_cong) (auto simp: idx_writes_def)
  have blocks: "entry_at (index_area d2) i = entry_bytes (fs_index fs2 ! i)" if "i < length (fs_index fs2)" for i
  proof -
    have "i < 120" using that es by simp
    then have "i div 8 < 15" by (simp add: less_mult_imp_div_less)
    with \<open>i < 120\<close> show ?thesis unfolding area using idx_prefix_block [OF len es, of i 15] entry_at_image [OF that es] by simp
  qed
  have entry: "valid_name (fe_name e) \<and> (\<exists>c. map_of (fs_cache fs2) (fe_name e) = Some c \<and> stored_at d2 (fs_next_lba fs2) e c)"
    if e: "e \<in> set (fs_index fs2)" for e
  proof (cases "fe_name e = p")
    case True
    have "fe_lba e = fs_next_lba fs \<and> fe_size e = length data" using written_index_names(5) [OF dist e [unfolded fs2(1)] True] .
    then have "stored_at d2 (fs_next_lba fs2) e data" using data disk w s lba(1) by (simp add: stored_at_def data_at_def can_write_def synced_def)
    with True w s show ?thesis by (auto simp: fs2(2) bt.get_ins can_write_def synced_def)
  next
    case False
    have "e \<in> set (fs_index fs)" using written_index_names(4) [OF dist e [unfolded fs2(1)] False] .
    then obtain c where "valid_name (fe_name e)" "map_of (fs_cache fs) (fe_name e) = Some c" "stored_at d (fs_next_lba fs) e c"
      using s by (auto simp: synced_def)
    moreover from this(3) have "stored_at d2 (fs_next_lba fs2) e c" using disk by (rule stored_at_same) (simp_all add: lba(1))
    ultimately show ?thesis using False s by (auto simp: fs2(2) bt.get_ins synced_def)
  qed
  have "fe_name ` set (fs_index fs2) = dom (map_of (fs_cache fs2))"
    using written_index_names(1) [OF dist] s by (auto simp: fs2(1,2) bt.get_ins synced_def dom_def split: if_splits)
  moreover have "sb_ok d2 (length (fs_index fs2))" using sb_ok_superblock [of fs1 d2] d2(2,3) es by simp
  moreover have "bt_sorted (fs_cache fs2)" "64 \<le> fs_next_lba fs2" using s lba(1) by (simp_all add: fs2(2) bt_sorted_insert synced_def)
  ultimately show ?thesis using fs2(4) es written_index_names(2) [OF dist] entry lba(2) blocks d2(4) by (simp add: synced_def fs2(1))
qed

lemma late_writes_prefix:
  assumes "0 < m" "16 \<le> slot" "slot < 64"
  shows "apply_writes (take m (late_writes slot s3 fs1 fs2)) d 0 = superblock (if m < 3 then fs1 else fs2)"
    "1 \<le> l \<Longrightarrow> l < 16 \<or> 64 \<le> l \<Longrightarrow> apply_writes (take m (late_writes slot s3 fs1 fs2)) d l = d l"
proof -
  have "m = 1 \<or> m = 2 \<or> 3 \<le> m" using assms(1) by linarith
  then show "apply_writes (take m (late_writes slot s3 fs1 fs2)) d 0 = superblock (if m < 3 then fs1 else fs2)"
    using assms(2) by (elim disjE) (simp_all add: late_writes_def apply_writes_def numeral_eq_Suc)
  show "apply_writes (take m (late_writes slot s3 fs1 fs2)) d l = d l" if "1 \<le> l" "l < 16 \<or> 64 \<le> l"
  proof (rule apply_writes_other)
    have "l \<notin> fst ` set (late_writes slot s3 fs1 fs2)" using that assms(2,3) by (auto simp: late_writes_def)
    then show "l \<notin> fst ` set (take m (late_writes slot s3 fs1 fs2))" by (auto dest: in_set_takeD)
  qed
qed

text \<open>The disk after a prefix of the writes: what is on it depends on how far the writes came.\<close>

lemma write_prefix:
  assumes s: "synced fs d" and w: "can_write fs p data" and wf: "write_file now p data fs = (fs2, ws)"
  shows "synced fs2 (apply_writes (take k ws) d) \<or>
    (k < length ws \<and> (\<exists>j dA. apply_writes (take k ws) d = apply_writes (take j (idx_writes (fs_index fs2))) dA \<and> synced fs dA \<and>
      (0 < j \<longrightarrow> data_at dA (fs_next_lba fs) data)))"
proof -
  have on: "fs_on_disk fs" and lba: "64 \<le> fs_next_lba fs" and len: "\<And>l. length (d l) = 512" and sorted: "bt_sorted (fs_cache fs)"
    using s by (simp_all add: synced_def)
  have fits: "fs_next_lba fs + nsectors data < 2 ^ 64" using w by (simp add: can_write_def)
  obtain slot s1 s2 s3 fs1 where slot: "16 \<le> slot" "slot < 64" "length s1 = 512" "length s2 = 512" "length s3 = 512"
      "fs_index fs1 = fs_index fs2"
    and ws: "ws = early_writes slot (fs_next_lba fs) data s1 s2 @ idx_writes (fs_index fs2) @ late_writes slot s3 fs1 fs2"
    using write_file_parts(1) [OF on wf] by blast
  note fs2 = write_file_parts(2-5) [OF on wf]
  define A where "A = early_writes slot (fs_next_lba fs) data s1 s2"
  define B where "B = idx_writes (fs_index fs2)"
  define C where "C = late_writes slot s3 fs1 fs2"
  define j where "j = k - length A"
  define m where "m = j - 15"
  define dA where "dA = apply_writes (take k A) d"
  have lens: "length B = 15" "length C = 3" by (simp_all add: B_def C_def idx_writes_def late_writes_def)
  have d: "apply_writes (take k ws) d = apply_writes (take m C) (apply_writes (take j B) dA)"
    using lens by (simp add: ws dA_def j_def m_def apply_writes_append flip: A_def B_def C_def)
  have lenA: "length (dA l) = 512" for l
    unfolding dA_def using len by (rule apply_writes_sectors) (metis A_def early_writes_sectors fits in_set_takeD slot(3,4))
  have "dA l = d l" if "l < 16 \<or> 64 \<le> l \<and> l < fs_next_lba fs" for l
    unfolding dA_def using set_take_subset [of k A] unfolding A_def by (rule early_writes_elsewhere [OF slot(1,2) fits that lba])
  then have sA: "synced fs dA" using synced_elsewhere [OF s] lenA by blast
  have dataA: "data_at dA (fs_next_lba fs) data" if "0 < j"
  proof -
    have "take k A = A" using that by (simp add: j_def)
    then show ?thesis using early_writes_data [OF slot(2) lba fits] by (simp add: dA_def A_def)
  qed
  have new: "synced fs2 (apply_writes (take k ws) d)" if "0 < m"
  proof (rule synced_after_write [OF sA dataA w fs2])
    have B: "take j B = B" using that lens by (simp add: m_def)
    show "0 < j" using that by (simp add: m_def)
    show "apply_writes (take k ws) d l = apply_writes (idx_writes (fs_index fs2)) dA l" if "1 \<le> l" "l < 16 \<or> 64 \<le> l" for l
      unfolding d B unfolding C_def B_def using late_writes_prefix(2) [OF \<open>0 < m\<close> slot(1,2) that] .
    show "apply_writes (take k ws) d 0 = superblock (if m < 3 then fs1 else fs2)"
      unfolding d C_def using late_writes_prefix(1) [OF \<open>0 < m\<close> slot(1,2)] .
    show "fs_index (if m < 3 then fs1 else fs2) = fs_index fs2" using slot(6) by simp
    have "length (fs_index fs2) \<le> 120"
      using written_index_names(3) [of "fs_index fs"] s w by (auto simp: fs2(1) synced_def can_write_def)
    then show "length (apply_writes (take k ws) d l) = 512" for l
      unfolding d using lenA slot(5)
      by (intro apply_writes_sectors) (auto dest!: in_set_takeD simp: B_def C_def late_writes_def intro: idx_writes_sectors)
  qed
  show ?thesis
  proof (cases "0 < m")
    case False
    have "length ws = length A + 15 + 3" using lens by (simp add: ws flip: A_def B_def C_def)
    with False have "k < length ws" by (simp add: m_def j_def)
    moreover have "apply_writes (take k ws) d = apply_writes (take j B) dA" using False by (simp add: d)
    ultimately show ?thesis using sA dataA unfolding B_def by blast
  qed (use new in blast)
qed

lemma crash_of_write:
  assumes s: "synced fs d" and w: "can_write fs p data" and wf: "write_file now p data fs = (fs2, ws)"
  shows "mounts (apply_writes (take k ws) d) (map_of (fs_cache fs)) \<or>
      mounts (apply_writes (take k ws) d) ((map_of (fs_cache fs))(p \<mapsto> data))" (is "?old \<or> ?new")
    and "length ws \<le> k \<Longrightarrow> synced fs2 (apply_writes (take k ws) d)"
proof -
  note fs2 = write_file_parts(2,3) [OF _ wf]
  have on: "fs_on_disk fs" "bt_sorted (fs_cache fs)" using s by (simp_all add: synced_def)
  then have cache2: "map_of (fs_cache fs2) = (map_of (fs_cache fs))(p \<mapsto> data)" by (auto simp: fs2(2) bt.get_ins)
  show "?old \<or> ?new"
  proof (cases "synced fs2 (apply_writes (take k ws) d)")
    case True
    then show ?thesis using synced_mounts cache2 by fastforce
  next
    case False
    then obtain j dA where d: "apply_writes (take k ws) d = apply_writes (take j (idx_writes (fs_index fs2))) dA" "synced fs dA"
        "0 < j \<longrightarrow> data_at dA (fs_next_lba fs) data"
      using write_prefix [OF s w wf, of k] by blast
    show ?thesis
    proof (cases "0 < j")
      case True
      then show ?thesis using crash_in_index [OF d(2) _ w, of j now] d(1,3) by (simp add: fs2(1) [OF on(1)] split: if_splits)
    next
      case False
      then show ?thesis using synced_mounts [OF d(2)] d(1) by simp
    qed
  qed
  show "length ws \<le> k \<Longrightarrow> synced fs2 (apply_writes (take k ws) d)" using write_prefix [OF s w wf, of k] by auto
qed

text \<open>
  C6. Writing a file survives a crash at any point. From a state in which memory and disk agree, a crash after any number
  of the sector writes of a file write leaves a disk that mounts to the old files or to the old files with the
  new one; without a crash, memory and disk agree again.
\<close>

theorem write_survives_crash:
  assumes "synced fs d" "can_write fs p data" "write_file now p data fs = (fs2, ws)"
  shows "(\<forall>k. mounts (apply_writes (take k ws) d) (map_of (fs_cache fs)) \<or>
      mounts (apply_writes (take k ws) d) ((map_of (fs_cache fs))(p \<mapsto> data))) \<and> synced fs2 (apply_writes ws d)"
  using crash_of_write [OF assms] crash_of_write(2) [OF assms, of "length ws"] by simp

section \<open>A formatted disk\<close>

lemma formatted_synced:
  assumes "\<And>l. length (d l) = 512" "from_le (take 4 (d 0)) \<noteq> MAGIC"
  shows "\<exists>fs ws. init_disk True True d new_fs = Some (fs, ws) \<and> fs = new_fs\<lparr>fs_on_disk := True\<rparr> \<and> synced fs (apply_writes ws d)"
proof -
  let ?fs = "new_fs\<lparr>fs_on_disk := True\<rparr>" and ?sb = "to_le 4 MAGIC @ to_le 4 0 @ to_le 8 0 @ drop 16 (d 0)"
  have "from_le (to_le 4 MAGIC) = MAGIC" "from_le (to_le 4 0) = 0" by (intro from_to_le; simp add: MAGIC_def)+
  then have "sb_ok (apply_writes [(0, ?sb)] d) 0" by (simp add: sb_ok_def apply_writes_def del: to_le.simps)
  moreover have "length (apply_writes [(0, ?sb)] d l) = 512" for l
    using assms(1) by (auto simp: apply_writes_def simp del: to_le.simps)
  ultimately have "synced ?fs (apply_writes [(0, ?sb)] d)" by (simp add: synced_def new_fs_def DATA_LBA_def del: to_le.simps)
  then show ?thesis using assms(2) by (simp add: init_disk_def Let_def del: to_le.simps)
qed

lemma sample_synced: "\<exists>fs d. synced fs d \<and> fs_cache fs = [] \<and> fs_next_lba fs = 64 \<and> can_write fs [0x61] [1, 2, 3]"
proof -
  have "from_le (take 4 (replicate 512 0)) \<noteq> MAGIC" by (simp add: MAGIC_def from_le_replicate)
  then obtain fs ws where fs: "fs = new_fs\<lparr>fs_on_disk := True\<rparr>" "synced fs (apply_writes ws (\<lambda>_. replicate 512 0))"
    using formatted_synced [of "\<lambda>_. replicate 512 0"] by auto
  have "valid_name [0x61]" by (simp add: valid_name_def utf8_lossy.simps utf8_width_def)
  then have "can_write fs [0x61] [1, 2, 3]" by (simp add: can_write_def fs(1) new_fs_def DATA_LBA_def nsectors_def)
  then show ?thesis using fs by (auto simp: new_fs_def DATA_LBA_def)
qed

lemma sample_written: "\<exists>fs d. synced fs d \<and> fs_cache fs = [([0x61], [1, 2, 3])] \<and> fs_next_lba fs = 65"
proof -
  obtain fs0 d0 where fs0: "synced fs0 d0" "fs_cache fs0 = []" "can_write fs0 [0x61] [1, 2, 3]" "fs_next_lba fs0 = 64"
    using sample_synced by blast
  obtain fs ws where wf: "write_file 7 [0x61] [1, 2, 3] fs0 = (fs, ws)" by (cases "write_file 7 [0x61] [1, 2, 3] fs0")
  have "synced fs (apply_writes ws d0)" using crash_of_write(2) [OF fs0(1,3) wf, of "length ws"] by simp
  moreover have "fs_cache fs = [([0x61], [1, 2, 3])]" using write_file_parts(3) [OF _ wf] fs0(1,2) by (simp add: synced_def)
  moreover have "fs_next_lba fs = 65" using write_file_parts(4) [OF _ wf] fs0(1,4) by (simp add: synced_def u64_add_def nsectors_def)
  ultimately show ?thesis by blast
qed

theorem write_survives_crash_witness:
  "\<exists>fs d. synced fs d \<and> map_of (fs_cache fs) = Map.empty \<and>
     (\<forall>k. mounts (apply_writes (take k (snd (write_file 7 [0x61] [1, 2, 3] fs))) d) Map.empty \<or>
        mounts (apply_writes (take k (snd (write_file 7 [0x61] [1, 2, 3] fs))) d) [[0x61] \<mapsto> [1, 2, 3]])"
proof -
  obtain fs d where fs: "synced fs d" "fs_cache fs = []" "can_write fs [0x61] [1, 2, 3]" using sample_synced by blast
  show ?thesis using write_survives_crash [OF fs(1,3) prod.collapse [symmetric], of 7] fs(1,2)
    by (intro exI [of _ fs] exI [of _ d]) simp
qed

section \<open>Deletes\<close>

lemma filter_remove_at:
  assumes "distinct (map fe_name es)" "m < length es" "fe_name (es ! m) = p"
  shows "filter (\<lambda>e. fe_name e \<noteq> p) es = remove_at m es"
proof -
  have split: "es = take m es @ es ! m # drop (Suc m) es" using assms(2) by (rule remove_at_split)
  have "distinct (map fe_name (take m es @ es ! m # drop (Suc m) es))" using assms(1) split by simp
  then have "filter (\<lambda>e. fe_name e \<noteq> p) (take m es) = take m es" "filter (\<lambda>e. fe_name e \<noteq> p) (drop (Suc m) es) = drop (Suc m) es"
    using assms(3) by (auto simp: filter_id_conv rev_image_eqI)
  then show ?thesis by (subst split) (simp add: remove_at_def assms(3))
qed

lemma remove_at_nth: "m < length es \<Longrightarrow> i < length es - 1 \<Longrightarrow> remove_at m es ! i = (if i < m then es ! i else es ! Suc i)"
  by (auto simp: remove_at_def nth_append min_def)

lemma image_padding: "length es \<le> i \<Longrightarrow> i < 120 \<Longrightarrow> index_name (entry_at (index_image es) i) 0 = []"
proof -
  assume i: "length es \<le> i" "i < 120"
  have len: "length (concat (map entry_bytes es)) = 64 * length es" by (induction es) simp_all
  have "entry_at (index_image es) i = replicate (min 64 (7680 - 64 * length es - (i * 64 - 64 * length es))) 0"
    using i len by (simp add: entry_at_def index_image_def)
  moreover have "index_name (replicate k 0) 0 = []" for k
    by (cases "min 48 k") (simp_all add: index_name_def Let_def utf8_lossy.simps [of "[]"])
  ultimately show ?thesis by (simp only:)
qed

lemma shifted_covers:
  assumes "m < n" "i < n" "i = m \<longrightarrow> \<not> m div 8 < j"
  shows "\<exists>k < n. if k div 8 < j then k < n - 1 \<and> (if k < m then k else Suc k) = i else k = (i :: nat)"
proof (cases "i div 8 < j \<and> m < i")
  case True
  then have "(i - 1) div 8 < j" by (meson diff_le_self div_le_mono le_less_trans)
  with True assms(2) show ?thesis by (intro exI [of _ "i - 1"]) auto
next
  case False
  then have "i div 8 < j \<longrightarrow> i < m" using assms(3) by auto
  with assms show ?thesis by (intro exI [of _ i]) auto
qed

text \<open>In the middle of the index: files behind the deleted one are at their old place, their new place, or both.\<close>

lemma crash_in_delete:
  fixes fs d p m j and es :: "file_entry list" and d1 :: disk
  assumes s: "synced fs d" and m: "m < length (fs_index fs)" "fe_name (fs_index fs ! m) = p"
  defines "es \<equiv> remove_at m (fs_index fs)"
  defines "d1 \<equiv> apply_writes (take j (idx_writes es)) d"
  shows "mounts d1 (if m div 8 < j then (map_of (fs_cache fs))(p := None) else map_of (fs_cache fs))"
proof (rule mounts_blocks [of _ "length (fs_index fs)" "fs_next_lba fs"])
  let ?n = "length (fs_index fs)" and ?V = "if m div 8 < j then (map_of (fs_cache fs))(p := None) else map_of (fs_cache fs)"
  let ?old = "\<lambda>i. fs_index fs ! i"
  have dist: "distinct (map fe_name (fs_index fs))" and n: "?n \<le> 120" and len: "\<And>l. length (d l) = 512" using s by (simp_all add: synced_def)
  have es: "length es = ?n - 1" "length es \<le> 120" using m(1) n by (simp_all add: es_def length_remove_at)
  have same: "d1 l = d l" if "l = 0 \<or> 16 \<le> l" for l using that by (auto simp: d1_def idx_writes_prefix)
  show "sb_ok d1 ?n" "?n \<le> 120" "fs_next_lba fs < 2 ^ 64" using s same [of 0] by (simp_all add: synced_def sb_ok_def)
  have blk: "entry_at (index_area d1) i = (if i div 8 < j then entry_at (index_image es) i else entry_bytes (?old i))" if "i < ?n" for i
    unfolding d1_def using idx_prefix_block [OF len es(2), of i j] that n s by (simp add: synced_def)
  have new: "entry_at (index_image es) i = entry_bytes (if i < m then ?old i else ?old (Suc i))" if "i < ?n - 1" for i
    using that es m(1) by (simp add: entry_at_image remove_at_nth es_def)
  have other: "fe_name (?old i) \<noteq> p" if "i < ?n" "i \<noteq> m" for i using that dist m by (auto simp: distinct_conv_nth)
  have good: "\<exists>c. valid_name (fe_name (?old i)) \<and> ?V (fe_name (?old i)) = Some c \<and> stored_at d1 (fs_next_lba fs) (?old i) c"
    if i: "i < ?n" and keep: "i = m \<longrightarrow> \<not> m div 8 < j" for i
  proof -
    obtain c where c: "valid_name (fe_name (?old i))" "map_of (fs_cache fs) (fe_name (?old i)) = Some c" "stored_at d (fs_next_lba fs) (?old i) c"
      using s i by (rule synced_entry)
    from c(3) have "stored_at d1 (fs_next_lba fs) (?old i) c" using same by (rule stored_at_same) simp_all
    with c other [OF i] keep show ?thesis by (cases "i = m") auto
  qed
  show "index_name (entry_at (index_area d1) i) 0 = [] \<or> (\<exists>e c. entry_at (index_area d1) i = entry_bytes e \<and> valid_name (fe_name e) \<and>
      ?V (fe_name e) = Some c \<and> stored_at d1 (fs_next_lba fs) e c)" if i: "i < ?n" for i
  proof (cases "i div 8 < j \<and> i = ?n - 1")
    case True
    have "entry_at (index_area d1) i = entry_at (index_image es) i" using blk [OF i] conjunct1 [OF True] by (simp only: if_True)
    moreover have "index_name (entry_at (index_image es) i) 0 = []" using True es(1) i n by (intro image_padding) simp_all
    ultimately show ?thesis by simp
  next
    case False
    let ?k = "if i div 8 < j \<and> m \<le> i then Suc i else i"
    have "entry_at (index_area d1) i = entry_bytes (?old ?k)" using blk [OF i] new [of i] False i by auto
    moreover have "?k < ?n" "?k = m \<longrightarrow> \<not> m div 8 < j" using False i by auto
    ultimately show ?thesis using good [of ?k] by blast
  qed
  show "q \<noteq> [] \<and> (\<exists>i < ?n. index_name (entry_at (index_area d1) i) 0 = q)" if q: "q \<in> dom ?V" for q
  proof -
    have "\<exists>i < ?n. fe_name (?old i) = q" using synced_names [OF s, of q] q by (auto split: if_splits)
    then obtain i where i: "i < ?n" "fe_name (?old i) = q" by blast
    have v: "valid_name q" using s i by (metis synced_entry)
    have "i = m \<longrightarrow> \<not> m div 8 < j" using q i m by auto
    then obtain k where "k < ?n" "if k div 8 < j then k < ?n - 1 \<and> (if k < m then k else Suc k) = i else k = i"
      using shifted_covers [OF m(1) i(1)] by blast
    then have "\<exists>k < ?n. entry_at (index_area d1) k = entry_bytes (?old i)" using blk [of k] new [of k] by (auto split: if_splits)
    then show ?thesis using v i(2) index_name_entry by (auto simp: valid_name_def)
  qed
qed

lemma synced_after_delete:
  assumes s: "synced fs d" and m: "m < length (fs_index fs)" "fe_name (fs_index fs ! m) = p"
    and fs2: "fs2 = fs\<lparr>fs_cache := bt_remove p (fs_cache fs), fs_index := remove_at m (fs_index fs)\<rparr>"
  shows "synced fs2 ((apply_writes (idx_writes (fs_index fs2)) d)(0 := superblock fs2))" (is "synced fs2 ?d")
proof -
  let ?es = "remove_at m (fs_index fs)"
  have dist: "distinct (map fe_name (fs_index fs))" and n: "length (fs_index fs) \<le> 120" and len: "\<And>l. length (d l) = 512"
    and sorted: "bt_sorted (fs_cache fs)" using s by (simp_all add: synced_def)
  have es: "?es = filter (\<lambda>e. fe_name e \<noteq> p) (fs_index fs)" "length ?es \<le> 120"
    using filter_remove_at [OF dist m] m(1) n by (simp_all add: length_remove_at)
  have idx: "?d l = d l" if "16 \<le> l" for l
    using that idx_writes_prefix [of 15 ?es d l] by (simp add: fs2 idx_writes_def)
  have area: "index_area ?d = index_area (apply_writes (take 15 (idx_writes ?es)) d)"
    unfolding index_area_def by (intro arg_cong [of _ _ concat] map_cong) (auto simp: fs2 idx_writes_def)
  have blocks: "entry_at (index_area ?d) i = entry_bytes (?es ! i)" if "i < length ?es" for i
  proof -
    have "i < 120" using that es(2) by simp
    then have "i div 8 < 15" by (simp add: less_mult_imp_div_less)
    with \<open>i < 120\<close> show ?thesis unfolding area using idx_prefix_block [OF len es(2), of i 15] entry_at_image [OF that es(2)] by simp
  qed
  have get: "map_of (bt_remove p (fs_cache fs)) q = (if q = p then None else map_of (fs_cache fs) q)" for q
    using sorted by (simp add: bt.get_del)
  have entry: "valid_name (fe_name e) \<and> (\<exists>c. map_of (bt_remove p (fs_cache fs)) (fe_name e) = Some c \<and> stored_at ?d (fs_next_lba fs) e c)"
    if "e \<in> set ?es" for e
  proof -
    have "e \<in> set (fs_index fs)" "fe_name e \<noteq> p" using that by (simp_all add: es(1))
    moreover from this(1) obtain c where c: "valid_name (fe_name e)" "map_of (fs_cache fs) (fe_name e) = Some c" "stored_at d (fs_next_lba fs) e c"
      using s by (auto simp: synced_def)
    moreover from c(3) have "stored_at ?d (fs_next_lba fs) e c" using idx by (rule stored_at_same) simp_all
    ultimately show ?thesis by (auto simp: get)
  qed
  have "length (?d l) = 512" for l
    using apply_writes_sectors [OF len idx_writes_sectors [OF es(2)]] by (simp add: fs2)
  moreover have "fe_name ` set ?es = dom (map_of (bt_remove p (fs_cache fs)))"
    using s by (auto simp: es(1) get synced_def dom_def split: if_splits)
  moreover have "sb_ok ?d (length ?es)" using sb_ok_superblock [of fs2 ?d] es(2) by (simp add: fs2)
  moreover have "distinct (map fe_name ?es)" using dist by (simp add: es(1) distinct_map_filter)
  ultimately show ?thesis using s es(2) entry blocks by (simp add: synced_def fs2 bt_sorted_remove)
qed

text \<open>
  C10. Deleting a file survives a crash at any point, although deletes are not journaled: a crash after any number of the
  sector writes leaves a disk that mounts to the old files or to the old files without the deleted one. A delete that is not
  interrupted leaves memory and disk in agreement.
\<close>

theorem delete_survives_crash:
  assumes s: "synced fs d" and del: "delete_file p fs = (existed, fs2, ws)"
  shows "(\<forall>k. mounts (apply_writes (take k ws) d) (map_of (fs_cache fs)) \<or>
      mounts (apply_writes (take k ws) d) ((map_of (fs_cache fs))(p := None))) \<and> synced fs2 (apply_writes ws d)"
proof (cases "p \<in> dom (map_of (fs_cache fs))")
  case False
  have "p \<notin> fe_name ` set (fs_index fs)" using False s by (simp add: synced_def)
  then have "filter (\<lambda>e. fe_name e \<noteq> p) (fs_index fs) = fs_index fs" by (auto simp: filter_id_conv rev_image_eqI)
  then have del0: "ws = []" "fs2 = fs\<lparr>fs_cache := bt_remove p (fs_cache fs)\<rparr>"
    using del False by (simp_all add: delete_file_def Let_def domIff) auto
  have same: "map_of (bt_remove p (fs_cache fs)) = map_of (fs_cache fs)"
    using s False by (auto simp: domIff bt.get_del synced_def fun_eq_iff)
  have "synced fs2 d" using s unfolding synced_def del0(2) by (simp add: same bt_sorted_remove)
  with synced_mounts [OF s] show ?thesis by (simp add: del0(1))
next
  case True
  then obtain m where m: "m < length (fs_index fs)" "fe_name (fs_index fs ! m) = p" using synced_names [OF s] by blast
  have dist: "distinct (map fe_name (fs_index fs))" using s by (simp add: synced_def)
  have fs2: "fs2 = fs\<lparr>fs_cache := bt_remove p (fs_cache fs), fs_index := remove_at m (fs_index fs)\<rparr>"
    and ws: "ws = idx_writes (fs_index fs2) @ [(0, superblock fs2)]"
    using del True filter_remove_at [OF dist m]
    by (auto simp: delete_file_def Let_def write_index_and_superblock_def idx_writes_def domIff simp del: upt_Suc)
  have full: "apply_writes ws d = (apply_writes (idx_writes (fs_index fs2)) d)(0 := superblock fs2)"
    by (simp add: ws apply_writes_append) (simp add: apply_writes_def)
  have after: "synced fs2 (apply_writes ws d)" unfolding full using s m fs2 by (rule synced_after_delete)
  have "mounts (apply_writes (take k ws) d) (map_of (fs_cache fs)) \<or> mounts (apply_writes (take k ws) d) ((map_of (fs_cache fs))(p := None))" for k
  proof (cases "k \<le> 15")
    case True
    then have "take k ws = take k (idx_writes (remove_at m (fs_index fs)))" by (simp add: ws fs2 idx_writes_def)
    then show ?thesis using crash_in_delete [OF s m, of k] by (auto split: if_splits)
  next
    case False
    then have "take k ws = ws" by (simp add: ws idx_writes_def)
    moreover have "map_of (fs_cache fs2) = (map_of (fs_cache fs))(p := None)" using s by (auto simp: fs2 bt.get_del synced_def)
    ultimately show ?thesis using synced_mounts [OF after] by simp
  qed
  with after show ?thesis by blast
qed

theorem delete_survives_crash_witness:
  "\<exists>fs d. synced fs d \<and> read_file [0x61] fs = Some [1, 2, 3] \<and>
     (\<forall>k. mounts (apply_writes (take k (snd (snd (delete_file [0x61] fs)))) d) [[0x61] \<mapsto> [1, 2, 3]] \<or>
        mounts (apply_writes (take k (snd (snd (delete_file [0x61] fs)))) d) Map.empty)"
proof -
  obtain fs d where fs: "synced fs d" "fs_cache fs = [([0x61], [1, 2, 3])]" using sample_written by blast
  obtain e fs2 ws where del: "delete_file [0x61] fs = (e, fs2, ws)" by (cases "delete_file [0x61] fs")
  show ?thesis using delete_survives_crash [OF fs(1) del] fs
    by (intro exI [of _ fs] exI [of _ d]) (simp add: del read_file_def)
qed

end
