(* ===== verification/Ionafs_Rename.thy ===== *)
theory Ionafs_Rename
  imports Ionafs_Crash
begin

text \<open>
  Renames in the journaled file system. A rename to a new name survives a crash at any point. A rename onto an existing file keeps both
  index entries, and when the overwritten file's entry is the later one, its old content is back after the next mount.
\<close>

section \<open>The renamed entry\<close>

lemma update_entry_at:
  assumes "distinct (map fe_name es)" "m < length es" "fe_name (es ! m) = a"
  shows "update_entry a f es = es[m := f (es ! m)]"
proof (rule nth_equalityI)
  fix i assume "i < length (update_entry a f es)"
  then have i: "i < length es" by (simp add: update_entry_map [OF assms(1)])
  then have "fe_name (es ! i) = a \<longleftrightarrow> i = m" using assms by (auto simp: distinct_conv_nth)
  with i assms(2) show "update_entry a f es ! i = es[m := f (es ! m)] ! i"
    by (auto simp: update_entry_map [OF assms(1)] nth_list_update)
qed (simp add: update_entry_map [OF assms(1)])

lemma rename_file_parts:
  assumes s: "synced fs d" and m: "m < length (fs_index fs)" "fe_name (fs_index fs ! m) = a" and c: "map_of (fs_cache fs) a = Some c"
    and ren: "rename_file a b fs = (ok, fs2, ws)"
  shows "fs2 = fs\<lparr>fs_index := (fs_index fs)[m := (fs_index fs ! m)\<lparr>fe_name := b\<rparr>], fs_cache := bt_insert b c (bt_remove a (fs_cache fs))\<rparr>"
    "ws = idx_writes (fs_index fs2) @ [(0, superblock fs2)]" "map_of (fs_cache fs2) = (map_of (fs_cache fs))(a := None, b \<mapsto> c)"
proof -
  have "distinct (map fe_name (fs_index fs))" "bt_sorted (fs_cache fs)" using s by (simp_all add: synced_def)
  then show fs2: "fs2 = fs\<lparr>fs_index := (fs_index fs)[m := (fs_index fs ! m)\<lparr>fe_name := b\<rparr>], fs_cache := bt_insert b c (bt_remove a (fs_cache fs))\<rparr>"
    and "ws = idx_writes (fs_index fs2) @ [(0, superblock fs2)]"
    using ren update_entry_at [OF _ m]
    by (auto simp: rename_file_def c Let_def write_index_and_superblock_def idx_writes_def simp del: upt_Suc)
  show "map_of (fs_cache fs2) = (map_of (fs_cache fs))(a := None, b \<mapsto> c)"
    using \<open>bt_sorted (fs_cache fs)\<close> by (auto simp: fs2 bt.get_ins bt.get_del bt_sorted_remove)
qed

text \<open>The disk after all writes of an index update.\<close>

lemma index_rewritten:
  assumes "\<And>l. length (d l) = 512" "length (fs_index fs2) \<le> 120"
  defines "d2 \<equiv> apply_writes (idx_writes (fs_index fs2) @ [(0, superblock fs2)]) d"
  shows "16 \<le> l \<Longrightarrow> d2 l = d l" "i < length (fs_index fs2) \<Longrightarrow> entry_at (index_area d2) i = entry_bytes (fs_index fs2 ! i)"
    "sb_ok d2 (length (fs_index fs2))" "length (d2 l) = 512"
proof -
  let ?es = "fs_index fs2"
  have d2: "d2 = (apply_writes (take 15 (idx_writes ?es)) d)(0 := superblock fs2)"
    by (simp add: d2_def apply_writes_append idx_writes_def) (simp add: apply_writes_def)
  show "16 \<le> l \<Longrightarrow> d2 l = d l" by (simp add: d2 idx_writes_prefix)
  show "sb_ok d2 (length ?es)" using sb_ok_superblock [of fs2 d2] assms(2) by (simp add: d2)
  have "length (apply_writes (take 15 (idx_writes ?es)) d l) = 512"
    using assms(1) by (rule apply_writes_sectors) (meson assms(2) idx_writes_sectors in_set_takeD)
  then show "length (d2 l) = 512" by (simp add: d2)
  have area: "index_area d2 = index_area (apply_writes (take 15 (idx_writes ?es)) d)"
    unfolding index_area_def by (intro arg_cong [of _ _ concat] map_cong) (auto simp: d2)
  show "entry_at (index_area d2) i = entry_bytes (?es ! i)" if "i < length ?es"
  proof -
    have "i < 120" using that assms(2) by simp
    then have "i div 8 < 15" by (simp add: less_mult_imp_div_less)
    with \<open>i < 120\<close> show ?thesis
      unfolding area using idx_prefix_block [OF assms(1,2), of i 15] entry_at_image [OF that assms(2)] by simp
  qed
qed

section \<open>Renaming to a new name\<close>

text \<open>In the middle of the index: the file has its old or its new name, whichever its sector says.\<close>

lemma crash_in_rename:
  fixes fs d a b c m j and d1 :: disk and es :: "file_entry list" and V :: "bytes \<rightharpoonup> bytes"
  assumes s: "synced fs d" and m: "m < length (fs_index fs)" "fe_name (fs_index fs ! m) = a" and c: "map_of (fs_cache fs) a = Some c"
    and b: "valid_name b" "b \<notin> dom (map_of (fs_cache fs))"
  defines "es \<equiv> (fs_index fs)[m := (fs_index fs ! m)\<lparr>fe_name := b\<rparr>]"
  defines "d1 \<equiv> apply_writes (take j (idx_writes es)) d"
  defines "V \<equiv> if m div 8 < j then (map_of (fs_cache fs))(a := None, b \<mapsto> c) else map_of (fs_cache fs)"
  shows "mounts d1 V"
proof (rule mounts_blocks [of _ "length (fs_index fs)" "fs_next_lba fs"])
  let ?n = "length (fs_index fs)"
  define now where "now i = (if i = m \<and> m div 8 < j then (fs_index fs ! m)\<lparr>fe_name := b\<rparr> else fs_index fs ! i)" for i
  have n: "?n \<le> 120" "length es \<le> 120" and len: "\<And>l. length (d l) = 512" and dist: "distinct (map fe_name (fs_index fs))"
    using s by (simp_all add: synced_def es_def)
  have same: "d1 l = d l" if "l = 0 \<or> 16 \<le> l" for l using that by (auto simp: d1_def idx_writes_prefix)
  show "sb_ok d1 ?n" "?n \<le> 120" "fs_next_lba fs < 2 ^ 64" using s same [of 0] by (simp_all add: synced_def sb_ok_def)
  have blk: "entry_at (index_area d1) i = entry_bytes (now i)" if "i < ?n" for i
    unfolding d1_def using idx_prefix_block [OF len n(2), of i j] that n m(1) s
    by (auto simp: entry_at_image synced_def es_def now_def nth_list_update)
  have good: "\<exists>c. valid_name (fe_name (now i)) \<and> V (fe_name (now i)) = Some c \<and> stored_at d1 (fs_next_lba fs) (now i) c"
    if i: "i < ?n" for i
  proof -
    obtain c1 where c1: "valid_name (fe_name (fs_index fs ! i))" "map_of (fs_cache fs) (fe_name (fs_index fs ! i)) = Some c1"
        "stored_at d (fs_next_lba fs) (fs_index fs ! i) c1"
      using s i by (rule synced_entry)
    from c1(3) have st: "stored_at d1 (fs_next_lba fs) (fs_index fs ! i) c1" using same by (rule stored_at_same) simp_all
    then have "stored_at d1 (fs_next_lba fs) (now i) c1" by (auto simp: now_def stored_at_def)
    moreover have "fe_name (fs_index fs ! i) = a \<longleftrightarrow> i = m" using i m dist by (auto simp: distinct_conv_nth)
    moreover have "fe_name (fs_index fs ! i) \<noteq> b" using c1(2) b(2) by auto
    ultimately show ?thesis using c1 c b(1) m(2) by (auto simp: now_def V_def)
  qed
  then show "index_name (entry_at (index_area d1) i) 0 = [] \<or> (\<exists>e c. entry_at (index_area d1) i = entry_bytes e \<and> valid_name (fe_name e) \<and>
      V (fe_name e) = Some c \<and> stored_at d1 (fs_next_lba fs) e c)" if "i < ?n" for i using blk [OF that] that by blast
  show "q \<noteq> [] \<and> (\<exists>i < ?n. index_name (entry_at (index_area d1) i) 0 = q)" if q: "q \<in> dom V" for q
  proof -
    have "\<exists>i < ?n. fe_name (now i) = q"
    proof (cases "m div 8 < j \<and> q = b")
      case True
      with m(1) show ?thesis by (intro exI [of _ m]) (simp add: now_def)
    next
      case False
      then have "q \<in> dom (map_of (fs_cache fs))" "m div 8 < j \<longrightarrow> q \<noteq> a" using q b(2) c by (auto simp: V_def split: if_splits)
      then obtain i where "i < ?n" "fe_name (fs_index fs ! i) = q" "m div 8 < j \<longrightarrow> i \<noteq> m" using synced_names [OF s] m(2) by blast
      then show ?thesis by (intro exI [of _ i]) (auto simp: now_def)
    qed
    then obtain i where i: "i < ?n" "fe_name (now i) = q" by blast
    then have "valid_name q" using good by blast
    with i blk [OF i(1)] show ?thesis by (auto simp: index_name_entry valid_name_def)
  qed
qed

lemma synced_after_rename:
  assumes s: "synced fs d" and m: "m < length (fs_index fs)" "fe_name (fs_index fs ! m) = a" and c: "map_of (fs_cache fs) a = Some c"
    and b: "valid_name b" "b \<notin> dom (map_of (fs_cache fs))" and ren: "rename_file a b fs = (ok, fs2, ws)"
  shows "synced fs2 (apply_writes ws d)"
proof -
  note parts = rename_file_parts [OF s m c ren]
  let ?d = "apply_writes (idx_writes (fs_index fs2) @ [(0, superblock fs2)]) d"
  let ?e = "(fs_index fs ! m)\<lparr>fe_name := b\<rparr>"
  have len: "\<And>l. length (d l) = 512" and n: "length (fs_index fs2) \<le> 120" and dist: "distinct (map fe_name (fs_index fs))"
    and names: "fe_name ` set (fs_index fs) = dom (map_of (fs_cache fs))" using s by (simp_all add: synced_def parts(1))
  note new = index_rewritten [where d = d, OF len n]
  have idx: "fs_index fs2 = (fs_index fs)[m := ?e]" and lba: "fs_next_lba fs2 = fs_next_lba fs" by (simp_all add: parts(1))
  have upd: "map fe_name (fs_index fs2) = (map fe_name (fs_index fs))[m := b]" by (simp add: idx map_update)
  have "b \<notin> set (map fe_name (fs_index fs))" using b(2) names by simp
  then have dist2: "distinct (map fe_name (fs_index fs2))" unfolding upd using dist by (intro distinct_list_update) auto
  have "set (map fe_name (fs_index fs2)) = insert b (set (map fe_name (fs_index fs)) - {a})"
    unfolding upd using set_update_distinct [OF dist, of m b] m by simp
  then have dom2: "fe_name ` set (fs_index fs2) = dom (map_of (fs_cache fs2))"
    using names by (auto simp: parts(3))
  have entry: "valid_name (fe_name e) \<and> (\<exists>c. map_of (fs_cache fs2) (fe_name e) = Some c \<and> stored_at ?d (fs_next_lba fs2) e c)"
    if "e \<in> set (fs_index fs2)" for e
  proof -
    obtain i where i: "i < length (fs_index fs)" "e = (if i = m then ?e else fs_index fs ! i)"
      using \<open>e \<in> set (fs_index fs2)\<close> by (auto simp: idx in_set_conv_nth nth_list_update)
    obtain c1 where c1: "valid_name (fe_name (fs_index fs ! i))" "map_of (fs_cache fs) (fe_name (fs_index fs ! i)) = Some c1"
        "stored_at d (fs_next_lba fs) (fs_index fs ! i) c1" using s i(1) by (rule synced_entry)
    from c1(3) have "stored_at ?d (fs_next_lba fs) (fs_index fs ! i) c1" using new(1) by (rule stored_at_same) simp_all
    then have "stored_at ?d (fs_next_lba fs2) e c1" by (auto simp: i(2) stored_at_def lba)
    moreover have "fe_name (fs_index fs ! i) = a \<longleftrightarrow> i = m" using i(1) m dist by (auto simp: distinct_conv_nth)
    moreover have "fe_name (fs_index fs ! i) \<noteq> b" using c1(2) b(2) by auto
    ultimately show ?thesis using c1(1,2) c b(1) i(2) m(2) by (auto simp: parts(3))
  qed
  have "fs_on_disk fs2" "bt_sorted (fs_cache fs2)" "64 \<le> fs_next_lba fs2" "fs_next_lba fs2 < 2 ^ 64"
    using s by (simp_all add: parts(1) synced_def bt_sorted_insert bt_sorted_remove)
  then show ?thesis unfolding synced_def parts(2) using n dist2 dom2 entry new(2-4) by blast
qed

text \<open>
  C11. Renaming a file to a new name survives a crash at any point: a crash after any number of the sector writes leaves a disk
  that mounts to the old files, or to the files with the file under its new name. A rename that is not interrupted leaves memory and
  disk in agreement.
\<close>

theorem rename_survives_crash:
  assumes s: "synced fs d" and b: "valid_name b" "b \<notin> dom (map_of (fs_cache fs))" and ren: "rename_file a b fs = (ok, fs2, ws)"
  shows "(\<forall>k. mounts (apply_writes (take k ws) d) (map_of (fs_cache fs)) \<or>
      mounts (apply_writes (take k ws) d) ((map_of (fs_cache fs))(a := None, b := map_of (fs_cache fs) a))) \<and>
    synced fs2 (apply_writes ws d)"
proof (cases "map_of (fs_cache fs) a")
  case None
  then have "ws = []" "fs2 = fs" using ren by (simp_all add: rename_file_def)
  then show ?thesis using s synced_mounts [OF s] by simp
next
  case (Some c)
  then obtain m where m: "m < length (fs_index fs)" "fe_name (fs_index fs ! m) = a" using synced_names [OF s] by blast
  note parts = rename_file_parts [OF s m Some ren]
  have after: "synced fs2 (apply_writes ws d)" using s m Some b ren by (rule synced_after_rename)
  have "mounts (apply_writes (take k ws) d) (map_of (fs_cache fs)) \<or>
      mounts (apply_writes (take k ws) d) ((map_of (fs_cache fs))(a := None, b \<mapsto> c))" for k
  proof (cases "k \<le> 15")
    case True
    then have "take k ws = take k (idx_writes ((fs_index fs)[m := (fs_index fs ! m)\<lparr>fe_name := b\<rparr>]))"
      by (simp add: parts(1,2) idx_writes_def)
    then show ?thesis using crash_in_rename [OF s m Some b, of k] by (auto split: if_splits)
  next
    case False
    then have "take k ws = ws" by (simp add: parts(2) idx_writes_def)
    then show ?thesis using synced_mounts [OF after] by (simp add: parts(3))
  qed
  with after Some show ?thesis by simp
qed

theorem rename_survives_crash_witness:
  "\<exists>fs d. synced fs d \<and> read_file [0x61] fs = Some [1, 2, 3] \<and>
     (\<forall>k. mounts (apply_writes (take k (snd (snd (rename_file [0x61] [0x62] fs)))) d) [[0x61] \<mapsto> [1, 2, 3]] \<or>
        mounts (apply_writes (take k (snd (snd (rename_file [0x61] [0x62] fs)))) d) [[0x62] \<mapsto> [1, 2, 3]])"
proof -
  obtain fs d where fs: "synced fs d" "fs_cache fs = [([0x61], [1, 2, 3])]" using sample_written by blast
  have b: "valid_name [0x62]" "[0x62] \<notin> dom (map_of (fs_cache fs))"
    by (simp_all add: valid_name_def utf8_lossy.simps utf8_width_def fs(2))
  obtain ok fs2 ws where ren: "rename_file [0x61] [0x62] fs = (ok, fs2, ws)" by (cases "rename_file [0x61] [0x62] fs")
  show ?thesis using rename_survives_crash [OF fs(1) b ren] fs
    by (intro exI [of _ fs] exI [of _ d]) (simp add: ren read_file_def)
qed

section \<open>Renaming onto an existing file\<close>

lemma fold_last:
  "fold (\<lambda>i m. if name i = [] then m else m(name i \<mapsto> content i)) [0..<n] m p =
    (if \<exists>i < n. name i = p \<and> p \<noteq> [] then Some (content (Max {i. i < n \<and> name i = p})) else m p)"
proof (induction n)
  case (Suc n)
  let ?upd = "\<lambda>i m. if name i = [] then m else m(name i \<mapsto> content i)"
  show ?case
  proof (cases "name n = p \<and> p \<noteq> []")
    case True
    then have "Max {i. i < Suc n \<and> name i = p} = n" by (intro Max_eqI) auto
    moreover have "\<exists>i < Suc n. name i = p \<and> p \<noteq> []" using True by blast
    moreover have "fold ?upd [0..<Suc n] m p = Some (content n)" using True by auto
    ultimately show ?thesis by simp
  next
    case False
    have same: "(i < Suc n \<and> name i = p) \<longleftrightarrow> (i < n \<and> name i = p)" if "p \<noteq> []" for i
      using False that by (cases "i = n") auto
    have skip: "fold ?upd [0..<Suc n] m p = fold ?upd [0..<n] m p" using False by auto
    show ?thesis
    proof (cases "p = []")
      case True
      then show ?thesis unfolding skip Suc.IH by simp
    next
      case False
      have "{i. i < Suc n \<and> name i = p} = {i. i < n \<and> name i = p}" unfolding same [OF False] ..
      moreover have "(\<exists>i < Suc n. name i = p \<and> p \<noteq> []) \<longleftrightarrow> (\<exists>i < n. name i = p \<and> p \<noteq> [])" using same [OF False] by blast
      ultimately show ?thesis unfolding skip Suc.IH by (simp only:)
    qed
  qed
qed simp

text \<open>The content of the file of an index entry.\<close>

definition content_of :: "ionfs \<Rightarrow> nat \<Rightarrow> bytes" where
  "content_of fs i = the (map_of (fs_cache fs) (fe_name (fs_index fs ! i)))"

lemma synced_content:
  assumes "synced fs d" "i < length (fs_index fs)"
  shows "valid_name (fe_name (fs_index fs ! i))" "map_of (fs_cache fs) (fe_name (fs_index fs ! i)) = Some (content_of fs i)"
    "stored_at d (fs_next_lba fs) (fs_index fs ! i) (content_of fs i)"
proof -
  obtain c where "valid_name (fe_name (fs_index fs ! i))" "map_of (fs_cache fs) (fe_name (fs_index fs ! i)) = Some c"
    "stored_at d (fs_next_lba fs) (fs_index fs ! i) c" using assms by (rule synced_entry)
  then show "valid_name (fe_name (fs_index fs ! i))" "map_of (fs_cache fs) (fe_name (fs_index fs ! i)) = Some (content_of fs i)"
    "stored_at d (fs_next_lba fs) (fs_index fs ! i) (content_of fs i)" by (simp_all add: content_of_def)
qed

text \<open>Of two entries with one name, the later one counts.\<close>

lemma later_entry_counts:
  assumes s: "synced fs d" and idx: "m1 < m2" "m2 < length (fs_index fs)" "fe_name (fs_index fs ! m1) = a" "fe_name (fs_index fs ! m2) = b"
    and name: "\<And>i. i < length (fs_index fs) \<Longrightarrow> name i = (if i = m1 then b else fe_name (fs_index fs ! i))"
  shows "fold (\<lambda>i m. if name i = [] then m else m(name i \<mapsto> content_of fs i)) [0..<length (fs_index fs)] Map.empty =
    (map_of (fs_cache fs))(a := None)"
proof
  fix p
  let ?n = "length (fs_index fs)" and ?old = "\<lambda>i. fe_name (fs_index fs ! i)"
  have uniq: "?old i = ?old k \<longleftrightarrow> i = k" if "i < ?n" "k < ?n" for i k
    using s that by (auto simp: synced_def distinct_conv_nth)
  have last: "Max {i. i < ?n \<and> name i = ?old k} = k" if k: "k < ?n" "k \<noteq> m1" for k
  proof (rule Max_eqI)
    fix i assume "i \<in> {i. i < ?n \<and> name i = ?old k}"
    then have i: "i < ?n" "name i = ?old k" by simp_all
    show "i \<le> k"
    proof (cases "i = m1")
      case True
      then have "?old m2 = ?old k" using i name [OF i(1)] idx(4) by simp
      then show ?thesis using uniq [OF idx(2) k(1)] idx(1) True by simp
    next
      case False
      then show ?thesis using i name [OF i(1)] uniq [OF i(1) k(1)] by simp
    qed
  qed (use k name [of k] in auto)
  have "(if \<exists>i < ?n. name i = p \<and> p \<noteq> [] then Some (content_of fs (Max {i. i < ?n \<and> name i = p})) else None) =
      ((map_of (fs_cache fs))(a := None)) p"
  proof (cases "\<exists>k < ?n. k \<noteq> m1 \<and> ?old k = p")
    case True
    then obtain k where k: "k < ?n" "k \<noteq> m1" "?old k = p" by blast
    have m1: "m1 < ?n" using idx by simp
    have "p \<noteq> a" using uniq [OF k(1) m1] k(2,3) idx(3) by simp
    moreover have named: "p \<noteq> []" "name k = p" using synced_content(1) [OF s k(1)] name [OF k(1)] k by (simp_all add: valid_name_def)
    moreover have "\<exists>i < ?n. name i = p \<and> p \<noteq> []" using k(1) named by blast
    moreover have "Max {i. i < ?n \<and> name i = p} = k" using last [OF k(1,2)] k(3) by simp
    moreover have "map_of (fs_cache fs) p = Some (content_of fs k)" using synced_content(2) [OF s k(1)] k(3) by simp
    ultimately show ?thesis by simp
  next
    case False
    have "p \<notin> dom (map_of (fs_cache fs))" if "p \<noteq> a" using synced_names [OF s, of p] idx(3) False that by blast
    moreover have "\<not> (\<exists>i < ?n. name i = p \<and> p \<noteq> [])"
    proof (intro notI, elim exE conjE)
      fix i assume "i < ?n" "name i = p"
      then show False using False name [of i] idx by (cases "i = m1") auto
    qed
    ultimately show ?thesis by (simp only: if_False) (auto simp: domIff)
  qed
  then show "fold (\<lambda>i m. if name i = [] then m else m(name i \<mapsto> content_of fs i)) [0..<?n] Map.empty p = ((map_of (fs_cache fs))(a := None)) p"
    by (simp only: fold_last)
qed

text \<open>
  C33. A rename onto an existing file is undone by a restart when the overwritten file's index entry comes later: memory shows the renamed
  content, but the disk mounts to the old content, and the renamed content is lost.
\<close>

theorem rename_over_existing:
  assumes s: "synced fs d" and idx: "m1 < m2" "m2 < length (fs_index fs)" "fe_name (fs_index fs ! m1) = a" "fe_name (fs_index fs ! m2) = b"
    and ren: "rename_file a b fs = (ok, fs2, ws)"
  shows "read_file b fs2 = read_file a fs \<and> mounts (apply_writes ws d) ((map_of (fs_cache fs))(a := None))"
proof -
  let ?n = "length (fs_index fs)" and ?d = "apply_writes ws d" and ?ix = "index_name (index_area (apply_writes ws d))"
  have m1: "m1 < ?n" using idx by simp
  have c: "map_of (fs_cache fs) a = Some (content_of fs m1)" using synced_content(2) [OF s m1] by (simp add: idx(3))
  note parts = rename_file_parts [OF s m1 idx(3) c ren]
  have len: "\<And>l. length (d l) = 512" and n: "length (fs_index fs2) \<le> 120" "length (fs_index fs2) = ?n"
    and lim: "fs_next_lba fs < 2 ^ 64" using s by (simp_all add: synced_def parts(1))
  have es: "fs_index fs2 ! i = (if i = m1 then (fs_index fs ! m1)\<lparr>fe_name := b\<rparr> else fs_index fs ! i)" if "i < ?n" for i
    using that m1 by (simp add: parts(1) nth_list_update)
  note new = index_rewritten [where d = d, OF len n(1), folded parts(2)]
  have name: "?ix i = (if i = m1 then b else fe_name (fs_index fs ! i))" if "i < ?n" for i
    using new(2) [of i] n(2) es [OF that] that synced_content(1) [OF s that] synced_content(1) [OF s idx(2)] idx(4)
      index_of_block(1) [of "index_area ?d" i] by (auto simp: index_name_entry)
  have lead: "leads_to ?d (entry_at (index_area ?d) i) (content_of fs i)" if i: "i < ?n" for i
  proof -
    have "stored_at ?d (fs_next_lba fs) (fs_index fs ! i) (content_of fs i)"
      using synced_content(3) [OF s i] new(1) by (rule stored_at_same) simp_all
    then have "stored_at ?d (fs_next_lba fs) (fs_index fs2 ! i) (content_of fs i)" using es [OF i] by (auto simp: stored_at_def)
    then show ?thesis using leads_to_entry [OF _ lim] new(2) [of i] n(2) i by simp
  qed
  have "mounts ?d (fold (\<lambda>i m. if ?ix i = [] then m else m(?ix i \<mapsto> content_of fs i)) [0..<?n] Map.empty)"
    using new(3) n lead by (intro mounts_fold) simp_all
  then have "mounts ?d ((map_of (fs_cache fs))(a := None))" using later_entry_counts [OF s idx, of ?ix] name by simp
  moreover have "read_file b fs2 = read_file a fs" using c by (simp add: read_file_def parts(3))
  ultimately show ?thesis by blast
qed

text \<open>Files a and b, in this order; a is renamed to b.\<close>

theorem rename_over_existing_witness:
  "\<exists>fs d. synced fs d \<and> read_file [0x61] fs = Some [1, 2, 3] \<and> read_file [0x62] fs = Some [4] \<and>
     read_file [0x62] (fst (snd (rename_file [0x61] [0x62] fs))) = Some [1, 2, 3] \<and>
     mounts (apply_writes (snd (snd (rename_file [0x61] [0x62] fs))) d) [[0x62] \<mapsto> [4]]"
proof -
  obtain fs0 d0 where fs0: "synced fs0 d0" "fs_cache fs0 = [([0x61], [1, 2, 3])]" "fs_next_lba fs0 = 65" using sample_written by blast
  then have idx0: "fe_name ` set (fs_index fs0) = {[0x61]}" "distinct (map fe_name (fs_index fs0))" "fs_on_disk fs0" by (auto simp: synced_def)
  then have "card (set (map fe_name (fs_index fs0))) = 1" by simp
  then have len: "length (fs_index fs0) = 1" using distinct_card [OF idx0(2)] by simp
  have "valid_name [0x62]" by (simp add: valid_name_def utf8_lossy.simps utf8_width_def)
  then have room: "can_write fs0 [0x62] [4]" by (simp add: can_write_def fs0(3) nsectors_def len)
  obtain fs ws where wf: "write_file 7 [0x62] [4] fs0 = (fs, ws)" by (rule prod.exhaust)
  have s: "synced fs (apply_writes ws d0)" using crash_of_write(2) [OF fs0(1) room wf order_refl] by simp
  have idx: "fs_index fs = fs_index fs0 @ [new_entry 7 [0x62] 65 1]"
    using write_file_parts(2) [OF idx0(3) wf] written_index_cases(2) [OF idx0(2)] idx0(1) by (simp add: fs0(3))
  have "fs_index fs0 ! 0 \<in> set (fs_index fs0)" using len by simp
  then have "fe_name (fs_index fs0 ! 0) \<in> {[0x61]}" unfolding idx0(1) [symmetric] by (rule imageI)
  then have names: "fe_name (fs_index fs ! 0) = [0x61]" "fe_name (fs_index fs ! 1) = [0x62]" "0 < (1 :: nat)" "1 < length (fs_index fs)"
    using len by (simp_all add: idx nth_append new_entry_def)
  have cache: "fs_cache fs = [([0x61], [1, 2, 3]), ([0x62], [4])]"
    using write_file_parts(3) [OF idx0(3) wf] by (simp add: fs0(2))
  obtain ok fs2 ws2 where ren: "rename_file [0x61] [0x62] fs = (ok, fs2, ws2)" by (cases "rename_file [0x61] [0x62] fs")
  have "[[0x61] \<mapsto> [1, 2, 3], [0x62] \<mapsto> [4]] ([0x61] := None) = ([[0x62] \<mapsto> [4]] :: bytes \<rightharpoonup> bytes)" by auto
  then show ?thesis using rename_over_existing [OF s names(3,4,1,2) ren] s
    by (intro exI [of _ fs] exI [of _ "apply_writes ws d0"]) (simp add: ren cache read_file_def fun_upd_twist)
qed

end
