(* ===== verification/Guard_Restart.thy ===== *)
theory Guard_Restart
  imports Double_Sign Ionafs_Crash
begin

text \<open>
  The double-sign guard on the journaled file system. \<open>double_sign.rs\<close> reads and writes its file through
  \<open>ionafs::read\<close> and \<open>ionafs::write\<close>; here these are the operations of \<open>Ionafs\<close>, with the files in memory and the
  disk as the guard's file system. A restart mounts what is on the disk and opens a new guard on the same path.
\<close>

section \<open>The guard's file\<close>

definition path_bytes :: "string \<Rightarrow> bytes" where
  "path_bytes p = map of_char p"

definition ionafs_env ::
    "(bytes \<Rightarrow> bytes option) \<Rightarrow> nat \<Rightarrow> (signed_key list \<Rightarrow> (string, bytes) result) \<Rightarrow>
      (bytes \<Rightarrow> (string, signed_key list) result) \<Rightarrow> (ionfs \<times> disk) ds_env" where
  "ionafs_env proc_read now ser de = \<lparr>
     env_read = (\<lambda>(fs, d) p. fs_read proc_read (path_bytes p) fs),
     env_write = (\<lambda>(fs, d) p data. let (fs1, ws) = write_file now (path_bytes p) data fs in (fs1, apply_writes ws d)),
     env_ser = ser, env_de = de \<rparr>"

lemma ionafs_env_sel [simp]:
  "env_read (ionafs_env proc_read now ser de) (fs, d) p = fs_read proc_read (path_bytes p) fs"
  "env_write (ionafs_env proc_read now ser de) (fs, d) p data =
     (fst (write_file now (path_bytes p) data fs), apply_writes (snd (write_file now (path_bytes p) data fs)) d)"
  "env_ser (ionafs_env proc_read now ser de) = ser" "env_de (ionafs_env proc_read now ser de) = de"
  by (simp_all add: ionafs_env_def split_beta)

text \<open>The keys of a guard that is opened on a path.\<close>

definition opened_keys :: "'fs ds_env \<Rightarrow> string \<Rightarrow> ds_config \<Rightarrow> 'fs \<Rightarrow> signed_key list" where
  "opened_keys env path cfg fs = signed_set (fst (ds_with_config env path cfg fs))"

text \<open>What a restart finds: the files mounted from the disk, and the disk after journal recovery.\<close>

definition restart :: "disk \<Rightarrow> (ionfs \<times> disk) option" where
  "restart d = map_option (\<lambda>(fs, ws). (fs, apply_writes ws d)) (init_disk True True d new_fs)"

lemma opened_keys_eq:
  "ds_persist cfg \<Longrightarrow> opened_keys env path cfg fs =
     (case env_read env fs path of None \<Rightarrow> [] | Some data \<Rightarrow> (case env_de env data of Inl _ \<Rightarrow> [] | Inr keys \<Rightarrow> keys))"
  by (simp add: opened_keys_def ds_with_config_def ds_load_def inc_loads_def Let_def split: option.split sum.split)

lemma record_key_persists:
  assumes "ds_persist (ds_cfg g)" "record_key env k (g, fs) = (Ok (), g', fs')"
  obtains data where "env_ser env (signed_set g') = Inr data" "fs' = env_write env fs (ds_path g) data"
proof -
  define g1 where "g1 = enforce_max_entries (inc_records (g\<lparr>signed_set := insort_insert k (signed_set g)\<rparr>))"
  have g1: "ds_cfg g1 = ds_cfg g" "ds_path g1 = ds_path g" by (simp_all add: g1_def enforce_max_entries_def inc_records_def)
  have "ds_persist_state env (g1, fs) = (Ok (), g', fs')"
    using assms by (simp add: record_key_def Let_def g1(1) flip: g1_def)
  then show thesis using that assms(1) g1
    by (auto simp: ds_persist_state_def inc_persists_def split: sum.splits)
qed

lemma recorded_key_held:
  assumes "record_key env k (g, fs) = (r, g', fs')" "max_entries (ds_cfg g) = 0 \<or> length (signed_set g) < max_entries (ds_cfg g)"
  shows "k \<in> set (signed_set g')"
proof -
  have "length (insort_insert k (signed_set g)) \<le> Suc (length (signed_set g))"
    by (simp add: insort_insert_key_def)
  moreover have "evict_to n xs = xs" if "length xs \<le> n" for n and xs :: "signed_key list"
    using that by (cases xs) simp_all
  ultimately have "signed_set g' = insort_insert k (signed_set g)"
    using record_key_effect(1) [of env k "(g, fs)"] assms by (auto simp: Suc_le_eq)
  then show ?thesis by (simp add: set_insort_insert)
qed

section \<open>Restarts and crashes\<close>

lemma mounted_keys:
  assumes "mounts d m" "ds_persist cfg" "fs_read proc_read (path_bytes path) = read_file (path_bytes path)"
  shows "\<exists>fs2 d2. restart d = Some (fs2, d2) \<and> opened_keys (ionafs_env proc_read now ser de) path cfg (fs2, d2) =
    (case m (path_bytes path) of None \<Rightarrow> [] | Some data \<Rightarrow> (case de data of Inl _ \<Rightarrow> [] | Inr keys \<Rightarrow> keys))"
proof -
  obtain fs2 ws where fs2: "init_disk True True d new_fs = Some (fs2, ws)" "\<forall>p. read_file p fs2 = m p"
    using assms(1) by (auto simp: mounts_def)
  then have "restart d = Some (fs2, apply_writes ws d)" by (simp add: restart_def)
  moreover have "opened_keys (ionafs_env proc_read now ser de) path cfg (fs2, apply_writes ws d) =
    (case m (path_bytes path) of None \<Rightarrow> [] | Some data \<Rightarrow> (case de data of Inl _ \<Rightarrow> [] | Inr keys \<Rightarrow> keys))"
    using fs2(2) assms(2,3) by (simp add: opened_keys_eq split: option.split)
  ultimately show ?thesis by blast
qed

text \<open>
  C25. The guard survives restarts and crashes. Persistence is on, the guard's path is an ordinary one that the index can hold, there is
  room for its file, memory and disk agree, and the serialiser decodes what it encodes. When a message has been recorded, a guard opened
  after a restart holds the same keys; when the power fails after any number of the sector writes, it holds the keys from
  before or those from after. The recorded key is among the latter unless the set was full.
\<close>

theorem guard_survives_restart:
  assumes "\<forall>ks data. ser ks = Inr data \<longrightarrow> de data = Inr ks" "env = ionafs_env proc_read now ser de"
    and "ds_persist (ds_cfg g)" "ds_persist cfg" "fs_read proc_read (path_bytes (ds_path g)) = read_file (path_bytes (ds_path g))"
    and "synced fs d" "record_key env k (g, fs, d) = (Ok (), g', fs', d')"
    and "ser (signed_set g') = Inr data" "can_write fs (path_bytes (ds_path g)) data"
    and "write_file now (path_bytes (ds_path g)) data fs = (fs1, ws)"
  shows "(\<exists>fs2 d2. restart d' = Some (fs2, d2) \<and> opened_keys env (ds_path g) cfg (fs2, d2) = signed_set g') \<and>
    (\<forall>n. \<exists>fs2 d2. restart (apply_writes (take n ws) d) = Some (fs2, d2) \<and>
      opened_keys env (ds_path g) cfg (fs2, d2) \<in> {opened_keys env (ds_path g) cfg (fs, d), signed_set g'}) \<and>
    (max_entries (ds_cfg g) = 0 \<or> length (signed_set g) < max_entries (ds_cfg g) \<longrightarrow> k \<in> set (signed_set g'))"
proof -
  let ?p = "path_bytes (ds_path g)" and ?old = "map_of (fs_cache fs)"
  let ?keys = "\<lambda>m :: bytes \<rightharpoonup> bytes. case m ?p of None \<Rightarrow> [] | Some data \<Rightarrow> (case de data of Inl _ \<Rightarrow> [] | Inr keys \<Rightarrow> keys)"
  have de: "de data = Inr (signed_set g')" using assms(1,8) by blast
  obtain data1 where "env_ser env (signed_set g') = Inr data1" "(fs', d') = env_write env (fs, d) (ds_path g) data1"
    using record_key_persists [OF assms(3,7)] by blast
  then have d': "d' = apply_writes ws d" using assms(2,8,10) by simp
  note reopened = mounted_keys [where now = now and ser = ser and de = de, OF _ assms(4,5), folded assms(2)]
  have crash: "mounts (apply_writes (take n ws) d) ?old \<or> mounts (apply_writes (take n ws) d) (?old(?p \<mapsto> data))" for n
    by (rule crash_of_write(1) [OF assms(6,9,10)])
  have "?keys (?old(?p \<mapsto> data)) = signed_set g'" by (simp add: de)
  moreover have "?keys ?old = opened_keys env (ds_path g) cfg (fs, d)"
    using assms(2,4,5) by (simp add: opened_keys_eq read_file_def split: option.split)
  ultimately have crashed: "\<forall>n. \<exists>fs2 d2. restart (apply_writes (take n ws) d) = Some (fs2, d2) \<and>
      opened_keys env (ds_path g) cfg (fs2, d2) \<in> {opened_keys env (ds_path g) cfg (fs, d), signed_set g'}"
    using crash reopened by (metis insertCI)
  have on: "fs_on_disk fs" "bt_sorted (fs_cache fs)" using assms(6) by (simp_all add: synced_def)
  have "map_of (fs_cache fs1) = ?old(?p \<mapsto> data)" using on by (auto simp: write_file_parts(3) [OF on(1) assms(10)] bt.get_ins)
  then have "mounts d' (?old(?p \<mapsto> data))"
    using synced_mounts [OF crash_of_write(2) [OF assms(6,9,10) order_refl]] by (simp add: d')
  then have "\<exists>fs2 d2. restart d' = Some (fs2, d2) \<and> opened_keys env (ds_path g) cfg (fs2, d2) = signed_set g'"
    using reopened de by fastforce
  with crashed show ?thesis using recorded_key_held [OF assms(7)] by blast
qed

section \<open>Witness\<close>

text \<open>A serialiser that encodes the empty set and one set of a single key.\<close>

definition tiny_ser :: "signed_key list \<Rightarrow> (string, bytes) result" where
  "tiny_ser ks = (if ks = [] then Inr [0] else if ks = [SK_Proposal 5 0 [1]] then Inr [1] else Inl ''size'')"

definition tiny_de :: "bytes \<Rightarrow> (string, signed_key list) result" where
  "tiny_de d = (if d = [0] then Inr [] else if d = [1] then Inr [SK_Proposal 5 0 [1]] else Inl ''bytes'')"

theorem guard_survives_restart_witness:
  "\<exists>fs d g' fs' d' fs2 d2. record_key (ionafs_env (\<lambda>_. None) 7 tiny_ser tiny_de) (SK_Proposal 5 0 [1]) ((sample_guard True 9)\<lparr>ds_path := ''a''\<rparr>, fs, d) =
      (Ok (), g', fs', d') \<and> restart d' = Some (fs2, d2) \<and>
    opened_keys (ionafs_env (\<lambda>_. None) 7 tiny_ser tiny_de) ''a'' default_ds_config (fs2, d2) = [SK_Proposal 5 0 [1]]"
proof -
  let ?env = "ionafs_env (\<lambda>_. None) 7 tiny_ser tiny_de" and ?g = "(sample_guard True 9)\<lparr>ds_path := ''a''\<rparr>"
  obtain fs d where fs: "synced fs d" "fs_cache fs = []" "can_write fs [0x61] [1, 2, 3]" using sample_synced by blast
  have path: "path_bytes (ds_path ?g) = [0x61]" by (simp add: path_bytes_def)
  have room: "can_write fs (path_bytes (ds_path ?g)) [1]" using fs(3) unfolding path by (simp add: can_write_def nsectors_def)
  obtain g' fs' d' where rec: "record_key ?env (SK_Proposal 5 0 [1]) (?g, fs, d) = (Ok (), g', fs', d')"
      and keys: "signed_set g' = [SK_Proposal 5 0 [1]]"
    by (auto simp: record_key_def sample_guard_def ds_persist_state_def enforce_max_entries_def inc_records_def inc_persists_def
        insort_insert_key_def tiny_ser_def default_ds_config_def)
  have ser: "\<forall>ks data. tiny_ser ks = Inr data \<longrightarrow> tiny_de data = Inr ks" "tiny_ser (signed_set g') = Inr [1]"
    by (auto simp: tiny_ser_def tiny_de_def keys split: if_splits)
  have plain: "fs_read (\<lambda>_. None) (path_bytes (ds_path ?g)) = read_file (path_bytes (ds_path ?g))" unfolding path by (auto simp: fs_read_def)
  have cfg: "ds_persist (ds_cfg ?g)" "ds_persist default_ds_config" by (simp_all add: sample_guard_def default_ds_config_def)
  obtain fs1 ws where "write_file 7 (path_bytes (ds_path ?g)) [1] fs = (fs1, ws)" by (rule prod.exhaust)
  from conjunct1 [OF guard_survives_restart [OF ser(1) refl cfg plain fs(1) rec ser(2) room this]] rec show ?thesis unfolding keys by fastforce
qed

end
