(* ===== verification/Spec2Isabelle.thy ===== *)
theory Spec2Isabelle
  imports Engine_Properties Engine_Signing Engine_Outbox Evidence_Manager Pipe_Blocking Buddy_Safety Execution_Properties
    Kernel_Bridge Futex Mmap_Safety Evm_Properties Ionafs_Rename Guard_Restart
begin

text \<open>
  A verification development for IONA OS, a kernel with a Tendermint-style blockchain node inside.

  \<^bold>\<open>The program.\<close> The node's consensus engine (\<open>src/src/consensus/engine.rs\<close>) proposes blocks, exchanges
  votes, tallies them by the power of the validators, locks, commits with a certificate and moves on to the
  next height. It signs under a guard that remembers on disk what was signed, turns conflicting
  votes into evidence, and slashes the stake of offenders. Execution builds and checks the blocks, and an interpreter
  runs EVM contracts over an account store. Below it is the kernel: a priority scheduler with a wait queue driven by the timer interrupt, blocking pipes and
  futexes on top of these, a buddy allocator, a frame allocator with reference counts, memory mappings
  with a page-fault handler, and a journaled file system. User space reaches consensus through a commit system call.

  \<^bold>\<open>Consensus theories and their sources.\<close>
  \<^item> \<open>Iona_Prelude\<close>, \<open>Ordered_Map\<close>: machine integers, results, list positions; \<open>BTreeMap\<close> as the interface
    \<open>ordered_map\<close> with its interpretation \<open>bt\<close> on sorted association lists.
  \<^item> \<open>Validator_Set\<close> (\<open>consensus/validator_set.rs\<close>): construction, additions, removals, power updates, the
    choice of the proposer. Any history keeps the set well formed, the cached total included.
  \<^item> \<open>Quorum\<close> (\<open>consensus/quorum.rs\<close>): the threshold and the vote tally. The interface \<open>weighted_quorum\<close>
    gives the intersection of quorums; the tally counts exactly the votes.
  \<^item> \<open>Chain_Types\<close> (\<open>types.rs\<close>, \<open>crypto.rs\<close>), \<open>Votes\<close> and \<open>Messages\<close> (\<open>consensus/messages.rs\<close>): hashes, headers,
    signed bytes, the message codec and its round trip.
  \<^item> \<open>Evidence\<close> and \<open>Evidence_Manager\<close> (\<open>evidence.rs\<close>), \<open>Slashing\<close> (\<open>slashing.rs\<close>): what evidence shows, that
    it is applied once, and that stake is accounted for.
  \<^item> \<open>Double_Sign\<close> (\<open>consensus/double_sign.rs\<close>): the guard and its file. \<open>Guard_Restart\<close> puts the file on the journaled file
    system below: the guard survives a restart, and a crash at any sector write leaves it with the keys before or after.
  \<^item> \<open>Engine\<close> (\<open>consensus/engine.rs\<close>): every operation of the engine over a world of engine, block store, outbox
    and guard file. \<open>Engine_Frame\<close> has what each operation leaves alone, \<open>Engine_Safety\<close> the invariant, and
    \<open>Engine_Sample\<close> a concrete run. \<open>Engine_Properties\<close>, \<open>Engine_Signing\<close> and \<open>Engine_Outbox\<close> hold the
    theorems over any run of ticks, messages, blocks and height changes: decisions are certified,
    conflicting decisions convict more than a third of the power, the engine never signs twice,
    commits once per height, and broadcasts only evidence that validates.
  \<^item> \<open>Execution\<close>, \<open>Execution_Properties\<close> (\<open>execution.rs\<close>): transactions, fees, roots, blocks. A built block
    verifies, no transaction executes twice, and the base fee follows the usage.
  \<^item> \<open>Kernel_Bridge\<close> (\<open>syscall/user_access.rs\<close>, \<open>consensus/mod.rs\<close>, the end of \<open>consensus/engine.rs\<close>): user memory,
    the state the kernel shows and the commit system call.

  \<^bold>\<open>EVM theories and their source,\<close> \<open>blockchain/revm_port.rs\<close>.
  \<^item> \<open>Evm_Words\<close>: 256-bit arithmetic on bytes and the hash. Addition and subtraction are exact; multiplication loses
    a carry, and the hash permutes its lanes the wrong way round.
  \<^item> \<open>Evm_State\<close> (\<open>EvmStateDb\<close>): accounts, cache, snapshots and account files. The store meets the interface
    \<open>account_store\<close> (interpretation \<open>evm_store\<close>); transfers conserve value, a revert undoes everything since its
    snapshot, and a store opened again on the files finds balances, nonces and code, but no storage.
  \<^item> \<open>Evm\<close> (\<open>Vm\<close>, \<open>EvmExecutor\<close>): one definition per opcode or group of opcodes, the loop, and the transaction. An opcode
    that runs a nested machine is split around that run.
  \<^item> \<open>Evm_Safety\<close>, \<open>Evm_Properties\<close>: every opcode keeps the machine well formed and uses gas, halts or nests into a
    smaller machine, so every run and every transaction ends within its gas; what failed transactions
    leave behind.

  \<^bold>\<open>Kernel theories and their sources.\<close>
  \<^item> \<open>Scheduler\<close>, \<open>Scheduler_Safety\<close> (\<open>sched/mod.rs\<close>, \<open>task/mod.rs\<close>): no task is lost, except by a steal for a busy
    processor, and equal priorities take turns. \<open>Wait_Queue\<close> (\<open>wait/mod.rs\<close>, the timer handler of \<open>arch/x86_64/idt.rs\<close>): the scan is exact.
  \<^item> \<open>Pipe\<close>, \<open>Pipe_Refine\<close>, \<open>Pipe_Blocking\<close> (\<open>process/pipe/mod.rs\<close>): the ring buffer refines the interface
    \<open>bounded_fifo\<close> (interpretation \<open>ring\<close>), and pipes deliver the bytes in order.
  \<^item> \<open>Futex\<close> (\<open>process/futex/mod.rs\<close>): waiters are neither lost nor invented.
  \<^item> \<open>Buddy\<close>, \<open>Buddy_Safety\<close> (\<open>mm/buddy/mod.rs\<close>): allocated blocks never overlap, as long as callers free only what
    they hold.
  \<^item> \<open>Frame_Alloc\<close>, \<open>Frame_Safety\<close> (\<open>memory/frame_alloc.rs\<close>): the bitmap implements the interface \<open>frame_set\<close>
    (interpretation \<open>raw\<close>), and a referenced frame is never handed out.
  \<^item> \<open>Mmap\<close>, \<open>Mmap_Safety\<close> (\<open>process/mmap/mod.rs\<close>): the address search ends and is right, and anonymous
    pages are zeroed.
  \<^item> \<open>Ionafs\<close>, \<open>Ionafs_Crash\<close>, \<open>Ionafs_Rename\<close> (\<open>fs/ionafs/mod.rs\<close>): files and index in memory (\<open>IonFs\<close>), the journal,
    the index and the superblock on disk, mounting, file locks, and the second disk format. A crash in the middle of a write, a
    delete or a rename to a new name leaves a disk that mounts to the files before or after it.

  \<^bold>\<open>How state and operations correspond.\<close> A struct is a record with the source's fields, an enum a datatype, and an
  operation a function that returns its result with the state it leaves, on error paths too. Unsigned
  integers are natural numbers with the wrap-around of the release build written out; bytes, flag sets and bitmap
  words are words. A call that blocks is two functions around the block, so that other tasks' calls
  come in between; runs are inductive relations over single calls in any order. A file system operation returns the sector
  writes it issues, in order; a crash is a prefix of them, followed by a mount. Panics are the
  option \<open>None\<close>. Locks are not modelled: a critical section is one step; where the order of two
  locks or a lock taken twice matters, it is said at the definition.

  \<^bold>\<open>Parameters.\<close> The signature scheme, hash functions, serialisers, block store, file contents, the clock, the
  mailboxes and sockets behind wake-up conditions, and, for \<open>execution.rs\<close>, the EVM are arguments: that file calls
  an \<open>evm\<close> module that is not part of the sources. What is assumed of them is a
  named hypothesis of the theorem that needs it, and the theorem's witness instantiates it.

  \<^bold>\<open>Readings.\<close> A few uses in the sources do not match the declarations.
  \<open>execution.rs\<close> uses transaction, state and header types with fields that \<open>types.rs\<close> does not declare, and they are
  read off the code; \<open>advance_tick\<close> uses the global consensus state as an engine; the mapping managers
  are cloned without a \<open>Clone\<close> instance, read as a copy; the buddy manager declares one name twice; the EVM
  executor names two types \<open>EvmResult\<close>, takes a struct apart as a tuple and reads an account after moving it. Each reading is stated in the
  theory concerned or follows the evident meaning.

  \<^bold>\<open>Loops, bounds and fuel.\<close> Loops are structural or come with a termination proof by a measure. The address search
  of \<open>find_free_address\<close> may run forever on wrapped addresses; it is a partial function, and
  \<open>search_free_returns\<close> proves that it returns. The EVM loop, which calls itself for nested machines, is a partial
  function too; \<open>evm_run_terminates\<close> proves that it always returns, by gas, then by whether the store holds
  code, then by the code left. No definition uses fuel. Theorems that need the absence of
  overflow say so with the bound; the reference counts need fewer than \<open>2 ^ 32\<close> calls, the width of a count.

  \<^bold>\<open>Where the code falls short.\<close> Some theorems state what goes wrong: evidence and certificates that are accepted
  without the checks they need, a locked proposer that ignores its lock, votes whose signed bytes are a
  proposal's, a refund that creates balance, the lost wake-up of pipes, a futex wake-up spent on a task that has
  left, \<open>sched_yield\<close> that never returns, double frees, memory behind holes that is never used,
  mappings that are forgotten, a commit without votes, a contract that stops the node, contract creations that make
  money, payments that move none, failed EVM calls whose effects stay, and a rename onto an existing file that a restart undoes.

  \<^bold>\<open>Not modelled.\<close> Drivers, PCI, ACPI, the architecture layer, processor start-up, program loading, process creation and
  address spaces act on devices, registers and raw memory, and their effect is not determined by the
  sources. The network stack, the other file systems, block synchronisation, the heap, paging and the WebAssembly runtime
  are mostly calls into packages and devices. The graphical interface, the console, the shell, the kernel's C library,
  tracing, the boot sequence and the user programs have no contract that other parts rely on. The key-value store
  and the gossip router under \<open>blockchain\<close>, the TLS ciphers, descriptor tables, epoll, message
  passing, signals, containers, shared memory and the slab allocator are plain code that could be
  modelled in the same way; they are outside the parts chosen here. Of the parts chosen, logging, Prometheus
  registration, memory fences, TLB flushes and the context switch itself are left out.
\<close>

end
